(* ===== verification/Gateway_Prelude.thy ===== *)
theory Gateway_Prelude
  imports Main "HOL-Library.Word"
begin

text \<open>
  The prelude of the development: the result type of fallible Rust code, the functions of
  Rust's \<open>str\<close> that the gateway uses (a \<open>str\<close> is the list of its bytes), decimal
  printing and parsing of unsigned integers, insertion-ordered sets and maps, and the
  interface \<open>text_codec\<close> of the types that are printed and parsed back.
\<close>

section \<open>Collections of facts\<close>

named_theorems str_simps \<open>unfolding rules of the string functions\<close>
named_theorems gw_defs \<open>definitions of the gateway's small operations\<close>

section \<open>Results\<close>

type_synonym ('e, 'a) result = "'e + 'a"

abbreviation Ok :: "'a \<Rightarrow> ('e, 'a) result" where "Ok \<equiv> Inr"
abbreviation Err :: "'e \<Rightarrow> ('e, 'a) result" where "Err \<equiv> Inl"

fun rbind :: "('e, 'a) result \<Rightarrow> ('a \<Rightarrow> ('e, 'b) result) \<Rightarrow> ('e, 'b) result" where
  "rbind (Inl e) f = Inl e"
| "rbind (Inr x) f = f x"

fun map_err :: "('e \<Rightarrow> 'f) \<Rightarrow> ('e, 'a) result \<Rightarrow> ('f, 'a) result" where
  "map_err f (Inl e) = Inl (f e)"
| "map_err f (Inr x) = Inr x"

fun ok_or :: "'e \<Rightarrow> 'a option \<Rightarrow> ('e, 'a) result" where
  "ok_or e None = Inl e"
| "ok_or e (Some x) = Inr x"

fun is_ok :: "('e, 'a) result \<Rightarrow> bool" where
  "is_ok (Inl e) = False"
| "is_ok (Inr x) = True"

text \<open>A \<open>for\<close> loop whose body may return early with an error.\<close>

fun try_each :: "('a \<Rightarrow> ('e, unit) result) \<Rightarrow> 'a list \<Rightarrow> ('e, unit) result" where
  "try_each f [] = Inr ()"
| "try_each f (x # xs) = rbind (f x) (\<lambda>_. try_each f xs)"

lemma rbind_Ok_iff [simp]: "rbind r f = Inr y \<longleftrightarrow> (\<exists>x. r = Inr x \<and> f x = Inr y)"
  by (cases r) auto

lemma rbind_Err_iff:
  "rbind r f = Inl e \<longleftrightarrow> r = Inl e \<or> (\<exists>x. r = Inr x \<and> f x = Inl e)"
  by (cases r) auto

lemma map_err_Ok_iff [simp]: "map_err f r = Inr y \<longleftrightarrow> r = Inr y"
  by (cases r) auto

lemma map_err_Err_iff [simp]: "map_err f r = Inl e \<longleftrightarrow> (\<exists>e'. r = Inl e' \<and> e = f e')"
  by (cases r) auto

lemma ok_or_Ok_iff [simp]: "ok_or e x = Inr y \<longleftrightarrow> x = Some y"
  by (cases x) auto

lemma ok_or_Err_iff [simp]: "ok_or e x = Inl e' \<longleftrightarrow> x = None \<and> e' = e"
  by (cases x) auto

lemma is_ok_iff: "is_ok r \<longleftrightarrow> (\<exists>x. r = Inr x)"
  by (cases r) auto

lemma try_each_Ok_iff [simp]: "try_each f xs = Inr u \<longleftrightarrow> (\<forall>x \<in> set xs. f x = Inr ())"
  by (induction xs) auto

lemma try_each_ErrD: "try_each f xs = Inl e \<Longrightarrow> \<exists>x \<in> set xs. f x = Inl e"
  by (induction xs) (auto simp: rbind_Err_iff)

section \<open>Strings\<close>

definition starts_with :: "string \<Rightarrow> string \<Rightarrow> bool" where
  "starts_with p s \<longleftrightarrow> take (length p) s = p"

definition ends_with :: "string \<Rightarrow> string \<Rightarrow> bool" where
  "ends_with p s \<longleftrightarrow> length p \<le> length s \<and> drop (length s - length p) s = p"

definition strip_prefix :: "string \<Rightarrow> string \<Rightarrow> string option" where
  "strip_prefix p s = (if starts_with p s then Some (drop (length p) s) else None)"

definition strip_suffix :: "string \<Rightarrow> string \<Rightarrow> string option" where
  "strip_suffix p s = (if ends_with p s then Some (take (length s - length p) s) else None)"

text \<open>\<open>s.splitn(2, c)\<close>: the part before the first \<open>c\<close>, and what follows it if there is one.\<close>

fun splitn2 :: "char \<Rightarrow> string \<Rightarrow> string \<times> string option" where
  "splitn2 c [] = ([], None)"
| "splitn2 c (x # xs) =
     (if x = c then ([], Some xs) else (case splitn2 c xs of (a, b) \<Rightarrow> (x # a, b)))"

text \<open>\<open>s.split(c)\<close>: all the parts; never empty.\<close>

fun split_on :: "char \<Rightarrow> string \<Rightarrow> string list" where
  "split_on c [] = [[]]"
| "split_on c (x # xs) =
     (if x = c then [] # split_on c xs
      else (case split_on c xs of [] \<Rightarrow> [[x]] | p # ps \<Rightarrow> (x # p) # ps))"

fun join_with :: "string \<Rightarrow> string list \<Rightarrow> string" where
  "join_with sep [] = []"
| "join_with sep [p] = p"
| "join_with sep (p # ps) = p @ sep @ join_with sep ps"

text \<open>\<open>s.rfind(p)\<close>: the last index at which \<open>p\<close> occurs, searched from the right.\<close>

fun find_index :: "(nat \<Rightarrow> bool) \<Rightarrow> nat list \<Rightarrow> nat option" where
  "find_index P [] = None"
| "find_index P (i # is) = (if P i then Some i else find_index P is)"

definition rfind :: "string \<Rightarrow> string \<Rightarrow> nat option" where
  "rfind p s = find_index (\<lambda>i. starts_with p (drop i s)) (rev [0..<Suc (length s)])"

definition str_contains :: "string \<Rightarrow> string \<Rightarrow> bool" where
  "str_contains p s \<longleftrightarrow> rfind p s \<noteq> None"

text \<open>\<open>s.trim_start_matches(p)\<close> removes the prefix \<open>p\<close> as often as it occurs.\<close>

function trim_start_matches :: "string \<Rightarrow> string \<Rightarrow> string" where
  "trim_start_matches p s =
     (if p \<noteq> [] \<and> s \<noteq> [] \<and> starts_with p s
      then trim_start_matches p (drop (length p) s) else s)"
  by pat_completeness auto
termination
  by (relation "measure (\<lambda>(p, s). length s)") auto

declare trim_start_matches.simps [simp del]

text \<open>\<open>s.replace(p, "")\<close>: every non-overlapping occurrence, from the left.\<close>

function remove_all :: "string \<Rightarrow> string \<Rightarrow> string" where
  "remove_all p s =
     (if s = [] then []
      else if p \<noteq> [] \<and> starts_with p s then remove_all p (drop (length p) s)
      else hd s # remove_all p (tl s))"
  by pat_completeness auto
termination
  by (relation "measure (\<lambda>(p, s). length s)") auto

declare remove_all.simps [simp del]

definition ascii_lower :: "char \<Rightarrow> char" where
  "ascii_lower c =
     (if 65 \<le> (of_char c :: nat) \<and> (of_char c :: nat) \<le> 90 then char_of ((of_char c :: nat) + 32)
      else c)"

definition ascii_upper :: "char \<Rightarrow> char" where
  "ascii_upper c =
     (if 97 \<le> (of_char c :: nat) \<and> (of_char c :: nat) \<le> 122 then char_of ((of_char c :: nat) - 32)
      else c)"

definition eq_ignore_ascii_case :: "string \<Rightarrow> string \<Rightarrow> bool" where
  "eq_ignore_ascii_case s t \<longleftrightarrow> map ascii_lower s = map ascii_lower t"

lemma starts_with_iff: "starts_with p s \<longleftrightarrow> (\<exists>r. s = p @ r)"
proof
  assume "starts_with p s"
  then have "s = p @ drop (length p) s"
    unfolding starts_with_def by (metis append_take_drop_id)
  then show "\<exists>r. s = p @ r" by blast
qed (auto simp: starts_with_def)

lemma starts_with_append [simp]: "starts_with p (p @ s)"
  by (simp add: starts_with_def)

lemma starts_with_Nil [simp]: "starts_with [] s"
  by (simp add: starts_with_def)

lemma starts_with_Cons [simp]:
  "starts_with (c # p) s \<longleftrightarrow> (case s of [] \<Rightarrow> False | d # r \<Rightarrow> d = c \<and> starts_with p r)"
  by (auto simp: starts_with_def split: list.splits)

lemma ends_with_iff: "ends_with p s \<longleftrightarrow> (\<exists>r. s = r @ p)"
proof
  assume "ends_with p s"
  then have "s = take (length s - length p) s @ p"
    unfolding ends_with_def by (metis append_take_drop_id)
  then show "\<exists>r. s = r @ p" by blast
qed (auto simp: ends_with_def)

lemma strip_prefix_append [simp]: "strip_prefix p (p @ s) = Some s"
  by (simp add: strip_prefix_def)

lemma strip_prefix_Some: "strip_prefix p s = Some r \<longleftrightarrow> s = p @ r"
  by (auto simp: strip_prefix_def starts_with_iff)

lemma strip_suffix_append [simp]: "strip_suffix p (s @ p) = Some s"
  by (simp add: strip_suffix_def ends_with_iff)

lemma strip_suffix_Some: "strip_suffix p s = Some r \<longleftrightarrow> s = r @ p"
  by (auto simp: strip_suffix_def ends_with_iff)

lemma splitn2_no_sep: "c \<notin> set s \<Longrightarrow> splitn2 c s = (s, None)"
  by (induction s) auto

lemma splitn2_append: "c \<notin> set a \<Longrightarrow> splitn2 c (a @ c # b) = (a, Some b)"
  by (induction a) auto

lemma splitn2_sound:
  "splitn2 c s = (a, b) \<Longrightarrow>
     c \<notin> set a \<and> s = a @ (case b of None \<Rightarrow> [] | Some r \<Rightarrow> c # r)"
  by (induction s arbitrary: a b) (auto split: if_splits prod.splits)

lemma split_on_not_Nil [simp]: "split_on c s \<noteq> []"
  by (induction s) (auto split: list.splits)

lemma join_with_Cons: "ps \<noteq> [] \<Longrightarrow> join_with sep (p # ps) = p @ sep @ join_with sep ps"
  by (cases ps) auto

lemma join_with_extend: "join_with sep ((x # p) # ps) = x # join_with sep (p # ps)"
  by (cases ps) auto

lemma join_split_on: "join_with [c] (split_on c s) = s"
proof (induction s)
  case (Cons x xs)
  then show ?case
    by (cases "split_on c xs") (auto simp: join_with_Cons join_with_extend)
qed simp

lemma find_index_SomeD: "find_index P is = Some i \<Longrightarrow> i \<in> set is \<and> P i"
  by (induction "is") (auto split: if_splits)

lemma find_index_None_iff: "find_index P is = None \<longleftrightarrow> (\<forall>i \<in> set is. \<not> P i)"
  by (induction "is") auto

lemma find_index_down:
  "find_index P (rev [0..<n]) = Some i \<longleftrightarrow> i < n \<and> P i \<and> (\<forall>j. i < j \<and> j < n \<longrightarrow> \<not> P j)"
proof (induction n)
  case (Suc n)
  then show ?case by (auto simp: less_Suc_eq)
qed simp

lemma rfind_Some_iff:
  "rfind p s = Some i \<longleftrightarrow>
     i \<le> length s \<and> starts_with p (drop i s) \<and>
     (\<forall>j. i < j \<and> j \<le> length s \<longrightarrow> \<not> starts_with p (drop j s))"
  unfolding rfind_def find_index_down by (auto simp: less_Suc_eq_le)

lemma rfind_splits:
  assumes "rfind p s = Some i"
  shows "s = take i s @ p @ drop (i + length p) s"
proof -
  from assms have "starts_with p (drop i s)" by (simp add: rfind_Some_iff)
  then obtain r where r: "drop i s = p @ r" by (auto simp: starts_with_iff)
  have "drop (i + length p) s = drop (length p) (drop i s)" by (simp add: add.commute)
  with r have "drop (i + length p) s = r" by simp
  with r show ?thesis by (metis append_take_drop_id)
qed

lemma trim_start_matches_fix: "\<not> starts_with p s \<Longrightarrow> trim_start_matches p s = s"
  by (simp add: trim_start_matches.simps)

lemma trim_start_matches_append:
  "p \<noteq> [] \<Longrightarrow> trim_start_matches p (p @ s) = trim_start_matches p s"
  by (subst trim_start_matches.simps) simp

lemma trim_start_matches_trimmed:
  "p \<noteq> [] \<Longrightarrow> \<not> starts_with p (trim_start_matches p s)"
proof (induction p s rule: trim_start_matches.induct)
  case (1 p s)
  then show ?case
    by (subst trim_start_matches.simps) (auto simp: starts_with_def)
qed

lemma remove_all_absent:
  "p \<noteq> [] \<Longrightarrow> (\<And>i. i \<le> length s \<Longrightarrow> \<not> starts_with p (drop i s)) \<Longrightarrow> remove_all p s = s"
proof (induction p s rule: remove_all.induct)
  case (1 p s)
  show ?case
  proof (cases s)
    case Nil
    then show ?thesis by (simp add: remove_all.simps)
  next
    case (Cons c r)
    have no: "\<not> starts_with p s" using "1.prems"(2)[of 0] by simp
    have "remove_all p r = r"
    proof -
      have "\<not> starts_with p (drop i r)" if "i \<le> length r" for i
        using "1.prems"(2)[of "Suc i"] that Cons by simp
      then show ?thesis using "1.IH"(2) "1.prems"(1) no Cons by simp
    qed
    with no Cons show ?thesis by (subst remove_all.simps) simp
  qed
qed

section \<open>Unsigned integers as text\<close>

definition digit_char :: "nat \<Rightarrow> char" where
  "digit_char d = char_of (48 + d)"

definition char_digit :: "char \<Rightarrow> nat option" where
  "char_digit c =
     (if 48 \<le> (of_char c :: nat) \<and> (of_char c :: nat) \<le> 57 then Some (of_char c - 48) else None)"

fun show_nat :: "nat \<Rightarrow> string" where
  "show_nat n =
     (if n < 10 then [digit_char n] else show_nat (n div 10) @ [digit_char (n mod 10)])"

declare show_nat.simps [simp del]

fun digits_value :: "nat \<Rightarrow> string \<Rightarrow> nat option" where
  "digits_value acc [] = Some acc"
| "digits_value acc (c # cs) =
     (case char_digit c of None \<Rightarrow> None | Some d \<Rightarrow> digits_value (acc * 10 + d) cs)"

text \<open>
  \<open>str::parse\<close> for an unsigned integer of \<open>w\<close> bits: an optional \<open>+\<close>, at least one
  digit, and a value below \<open>2 ^ w\<close>.
\<close>

definition parse_unsigned :: "nat \<Rightarrow> string \<Rightarrow> nat option" where
  "parse_unsigned w s =
     (let ds = (case s of [] \<Rightarrow> [] | c # cs \<Rightarrow> if c = CHR ''+'' then cs else s)
      in if ds = [] then None
         else (case digits_value 0 ds of
                 None \<Rightarrow> None
               | Some n \<Rightarrow> if n < 2 ^ w then Some n else None))"

lemma char_digit_digit_char [simp]: "d < 10 \<Longrightarrow> char_digit (digit_char d) = Some d"
  by (simp add: char_digit_def digit_char_def)

lemma digit_char_not_plus: "d < 10 \<Longrightarrow> digit_char d \<noteq> CHR ''+''"
proof
  assume "d < 10" and "digit_char d = CHR ''+''"
  then have "(of_char (digit_char d) :: nat) = 43" by simp
  with \<open>d < 10\<close> show False by (simp add: digit_char_def)
qed

lemma digits_value_append:
  "digits_value acc (xs @ ys) =
     (case digits_value acc xs of None \<Rightarrow> None | Some n \<Rightarrow> digits_value n ys)"
  by (induction xs arbitrary: acc) (auto split: option.splits)

lemma digits_value_show_nat: "digits_value 0 (show_nat n) = Some n"
proof (induction n rule: show_nat.induct)
  case (1 n)
  then show ?case
    by (subst show_nat.simps) (auto simp: digits_value_append)
qed

lemma show_nat_not_Nil: "show_nat n \<noteq> []"
  by (subst show_nat.simps) simp

lemma hd_show_nat: "hd (show_nat n) \<noteq> CHR ''+''"
proof (induction n rule: show_nat.induct)
  case (1 n)
  then show ?case
    by (subst show_nat.simps)
      (auto simp: digit_char_not_plus hd_append show_nat_not_Nil)
qed

lemma parse_unsigned_show_nat: "n < 2 ^ w \<Longrightarrow> parse_unsigned w (show_nat n) = Some n"
  using show_nat_not_Nil[of n] hd_show_nat[of n] digits_value_show_nat[of n]
  by (cases "show_nat n") (auto simp: parse_unsigned_def)

lemma parse_unsigned_bound: "parse_unsigned w s = Some n \<Longrightarrow> n < 2 ^ w"
  by (auto simp: parse_unsigned_def Let_def split: if_splits option.splits)

section \<open>Insertion-ordered sets and maps\<close>

text \<open>
  \<open>IndexSet\<close> and \<open>IndexMap\<close> keep the order of the first insertion; a \<open>HashMap\<close> iterates in
  an order the program cannot rely on, so a list of entries with distinct keys stands for
  it, and every theorem holds for each such list.
\<close>

fun index_set_of :: "'a list \<Rightarrow> 'a list" where
  "index_set_of [] = []"
| "index_set_of (x # xs) = x # filter (\<lambda>y. y \<noteq> x) (index_set_of xs)"

lemma set_index_set_of [simp]: "set (index_set_of xs) = set xs"
  by (induction xs) auto

lemma distinct_index_set_of [simp]: "distinct (index_set_of xs)"
  by (induction xs) auto

text \<open>\<open>HashMap::insert\<close> on a list of entries: replace in place, or add at the end.\<close>

fun assoc_insert :: "'k \<Rightarrow> 'v \<Rightarrow> ('k \<times> 'v) list \<Rightarrow> ('k \<times> 'v) list" where
  "assoc_insert k v [] = [(k, v)]"
| "assoc_insert k v ((k', v') # xs) =
     (if k' = k then (k, v) # xs else (k', v') # assoc_insert k v xs)"

lemma map_of_assoc_insert [simp]: "map_of (assoc_insert k v xs) = (map_of xs)(k \<mapsto> v)"
  by (induction xs) auto

lemma keys_assoc_insert [simp]: "fst ` set (assoc_insert k v xs) = insert k (fst ` set xs)"
  by (induction k v xs rule: assoc_insert.induct) auto

lemma distinct_assoc_insert:
  "distinct (map fst xs) \<Longrightarrow> distinct (map fst (assoc_insert k v xs))"
proof (induction k v xs rule: assoc_insert.induct)
  case (2 k v k' v' xs)
  have "k' \<noteq> k \<Longrightarrow> k' \<notin> fst ` set (assoc_insert k v xs)" using "2.prems" by auto
  with 2 show ?case by auto
qed simp

section \<open>Interface: a type that is printed and parsed back\<close>

text \<open>
  \<open>print\<close> is the type's \<open>Display\<close>, \<open>parse\<close> its \<open>FromStr\<close>, and \<open>canonical\<close> the values
  that survive the round trip. The provider promises the round trip; the client gets that
  printing is injective on canonical values and that parsing reaches every one of them.
\<close>

locale text_codec =
  fixes print :: "'a \<Rightarrow> string"
    and parse :: "string \<Rightarrow> ('e, 'a) result"
    and canonical :: "'a \<Rightarrow> bool"
  assumes parse_print: "canonical x \<Longrightarrow> parse (print x) = Inr x"
begin

lemma print_inj: "canonical x \<Longrightarrow> canonical y \<Longrightarrow> print x = print y \<Longrightarrow> x = y"
  by (metis Inr_inject parse_print)

lemma parse_onto: "canonical x \<Longrightarrow> \<exists>s. parse s = Inr x"
  using parse_print by blast

lemma print_fixpoint:
  "parse s = Inr x \<Longrightarrow> canonical x \<Longrightarrow> parse (print x) = parse s"
  by (simp add: parse_print)

end

definition parse_result :: "nat \<Rightarrow> string \<Rightarrow> (unit, nat) result" where
  "parse_result w s = ok_or () (parse_unsigned w s)"

interpretation u64_text: text_codec show_nat "parse_result 64" "\<lambda>n. n < 2 ^ 64"
  by unfold_locales (simp add: parse_result_def parse_unsigned_show_nat)

end
