(* ===== verification/F64.thy ===== *)
theory F64
  imports Complex_Main Gateway_Prelude
begin

text \<open>
  Rust's \<open>f64\<close> (IEEE 754 binary64, round to nearest, ties to even) on exact rationals: the
  load balancer's weights, the health monitor's error ratio and the rolling counter's
  bucket arithmetic are computed in it. A finite value is the rational it denotes; the sign
  of zero is not kept, since no operation the program uses on it tells the zeros apart.
\<close>

datatype f64 = F_NaN | F_PInf | F_NInf | F_Fin rat

section \<open>Rounding\<close>

text \<open>The integer nearest to a rational, ties to even.\<close>

definition rne :: "rat \<Rightarrow> int" where
  "rne q =
     (let f = \<lfloor>q\<rfloor>; d = q - of_int f
      in if d < 1 / 2 then f else if 1 / 2 < d then f + 1 else if even f then f else f + 1)"

text \<open>The exponent \<open>e\<close> with \<open>2 ^ e \<le> q < 2 ^ (e + 1)\<close>, from the bit lengths of the fraction.\<close>

fun bitlen :: "nat \<Rightarrow> nat" where
  "bitlen n = (if n = 0 then 0 else Suc (bitlen (n div 2)))"

declare bitlen.simps [simp del]

definition ilog2 :: "rat \<Rightarrow> int" where
  "ilog2 q =
     (case quotient_of q of (n, d) \<Rightarrow>
        let e = int (bitlen (nat n)) - int (bitlen (nat d))
        in if 2 powi e \<le> q then e else e - 1)"

text \<open>The exponent of the last bit of a positive value: 52 below the leading bit, at least \<open>-1074\<close>.\<close>

definition lsb_exp :: "rat \<Rightarrow> int" where
  "lsb_exp q = max (- 1074) (ilog2 q - 52)"

definition round_pos :: "rat \<Rightarrow> rat" where
  "round_pos q = of_int (rne (q / 2 powi lsb_exp q)) * 2 powi lsb_exp q"

definition f64_of_rat :: "rat \<Rightarrow> f64" where
  "f64_of_rat q =
     (if q = 0 then F_Fin 0
      else if 0 < q then (if round_pos q < 2 powi 1024 then F_Fin (round_pos q) else F_PInf)
      else (if round_pos (- q) < 2 powi 1024 then F_Fin (- round_pos (- q)) else F_NInf))"

section \<open>Operations\<close>

definition f64_of_nat :: "nat \<Rightarrow> f64" where
  "f64_of_nat n = f64_of_rat (of_nat n)"

fun f_is_nan :: "f64 \<Rightarrow> bool" where
  "f_is_nan F_NaN = True" | "f_is_nan F_PInf = False"
| "f_is_nan F_NInf = False" | "f_is_nan (F_Fin q) = False"

fun f_is_infinite :: "f64 \<Rightarrow> bool" where
  "f_is_infinite F_NaN = False" | "f_is_infinite F_PInf = True"
| "f_is_infinite F_NInf = True" | "f_is_infinite (F_Fin q) = False"

fun f_lt :: "f64 \<Rightarrow> f64 \<Rightarrow> bool" where
  "f_lt F_NaN y = False"
| "f_lt x F_NaN = False"
| "f_lt F_PInf y = False"
| "f_lt x F_NInf = False"
| "f_lt F_NInf y = True"
| "f_lt x F_PInf = True"
| "f_lt (F_Fin p) (F_Fin q) = (p < q)"

fun f_le :: "f64 \<Rightarrow> f64 \<Rightarrow> bool" where
  "f_le F_NaN y = False"
| "f_le x F_NaN = False"
| "f_le F_NInf y = True"
| "f_le x F_PInf = True"
| "f_le F_PInf y = False"
| "f_le x F_NInf = False"
| "f_le (F_Fin p) (F_Fin q) = (p \<le> q)"

fun f_add :: "f64 \<Rightarrow> f64 \<Rightarrow> f64" where
  "f_add F_NaN y = F_NaN"
| "f_add x F_NaN = F_NaN"
| "f_add F_PInf F_NInf = F_NaN"
| "f_add F_NInf F_PInf = F_NaN"
| "f_add F_PInf y = F_PInf"
| "f_add F_NInf y = F_NInf"
| "f_add x F_PInf = F_PInf"
| "f_add x F_NInf = F_NInf"
| "f_add (F_Fin p) (F_Fin q) = f64_of_rat (p + q)"

fun f_mul :: "f64 \<Rightarrow> f64 \<Rightarrow> f64" where
  "f_mul F_NaN y = F_NaN"
| "f_mul x F_NaN = F_NaN"
| "f_mul (F_Fin p) (F_Fin q) = f64_of_rat (p * q)"
| "f_mul F_PInf F_PInf = F_PInf"
| "f_mul F_PInf F_NInf = F_NInf"
| "f_mul F_NInf F_PInf = F_NInf"
| "f_mul F_NInf F_NInf = F_PInf"
| "f_mul F_PInf (F_Fin q) = (if q = 0 then F_NaN else if 0 < q then F_PInf else F_NInf)"
| "f_mul F_NInf (F_Fin q) = (if q = 0 then F_NaN else if 0 < q then F_NInf else F_PInf)"
| "f_mul (F_Fin p) F_PInf = (if p = 0 then F_NaN else if 0 < p then F_PInf else F_NInf)"
| "f_mul (F_Fin p) F_NInf = (if p = 0 then F_NaN else if 0 < p then F_NInf else F_PInf)"

fun f_div :: "f64 \<Rightarrow> f64 \<Rightarrow> f64" where
  "f_div F_NaN y = F_NaN"
| "f_div x F_NaN = F_NaN"
| "f_div (F_Fin p) (F_Fin q) =
     (if q = 0 then (if p = 0 then F_NaN else if 0 < p then F_PInf else F_NInf)
      else f64_of_rat (p / q))"
| "f_div (F_Fin p) y = F_Fin 0"
| "f_div x F_PInf = F_NaN"
| "f_div x F_NInf = F_NaN"
| "f_div F_PInf (F_Fin q) = (if q < 0 then F_NInf else F_PInf)"
| "f_div F_NInf (F_Fin q) = (if q < 0 then F_PInf else F_NInf)"

fun f_floor :: "f64 \<Rightarrow> f64" where
  "f_floor (F_Fin q) = F_Fin (of_int \<lfloor>q\<rfloor>)"
| "f_floor x = x"

text \<open>\<open>f64::round\<close>: to the nearest integer, half-way cases away from zero.\<close>

fun f_round :: "f64 \<Rightarrow> f64" where
  "f_round (F_Fin q) =
     F_Fin (if 0 \<le> q then of_int \<lfloor>q + 1 / 2\<rfloor> else - of_int \<lfloor>1 / 2 - q\<rfloor>)"
| "f_round x = x"

text \<open>The saturating cast \<open>as u{w}\<close>: NaN is 0, the rest is truncated and clamped.\<close>

fun f_as_unsigned :: "nat \<Rightarrow> f64 \<Rightarrow> nat" where
  "f_as_unsigned w F_NaN = 0"
| "f_as_unsigned w F_PInf = 2 ^ w - 1"
| "f_as_unsigned w F_NInf = 0"
| "f_as_unsigned w (F_Fin q) = min (nat \<lfloor>q\<rfloor>) (2 ^ w - 1)"

section \<open>Rounding is monotone and exact where it can be\<close>

lemma rne_cases: "rne q = \<lfloor>q\<rfloor> \<or> rne q = \<lfloor>q\<rfloor> + 1"
  by (auto simp: rne_def Let_def)

lemma rne_of_int [simp]: "rne (of_int n) = n"
  by (simp add: rne_def)

lemma rne_mono:
  assumes "p \<le> q" shows "rne p \<le> rne q"
proof (cases "\<lfloor>p\<rfloor> = \<lfloor>q\<rfloor>")
  case True
  with assms show ?thesis by (auto simp: rne_def Let_def)
next
  case False
  with floor_mono[OF assms] have "\<lfloor>p\<rfloor> + 1 \<le> \<lfloor>q\<rfloor>" by simp
  with rne_cases[of p] rne_cases[of q] show ?thesis by auto
qed

lemma rne_error: "\<bar>of_int (rne q) - q\<bar> \<le> 1 / 2"
proof -
  have "0 \<le> q - of_int \<lfloor>q\<rfloor>" "q - of_int \<lfloor>q\<rfloor> < 1" by linarith+
  then show ?thesis by (auto simp: rne_def Let_def)
qed

lemma bitlen_bounds: "0 < n \<Longrightarrow> 2 ^ (bitlen n - 1) \<le> n \<and> n < 2 ^ bitlen n \<and> 0 < bitlen n"
proof (induction n rule: bitlen.induct)
  case (1 n)
  show ?case
  proof (cases "n div 2 = 0")
    case True
    with "1.prems" have "n = 1" by auto
    then show ?thesis by (simp add: bitlen.simps)
  next
    case False
    with "1.IH" "1.prems" have IH: "2 ^ (bitlen (n div 2) - 1) \<le> n div 2"
        "n div 2 < 2 ^ bitlen (n div 2)" "0 < bitlen (n div 2)" by auto
    have b: "bitlen n = Suc (bitlen (n div 2))"
      using "1.prems" by (subst bitlen.simps) simp
    have "(2 :: nat) ^ bitlen (n div 2) = 2 * 2 ^ (bitlen (n div 2) - 1)"
      using IH(3) by (metis Suc_diff_1 power_Suc)
    moreover have "2 * (n div 2) \<le> n" "n < 2 * (n div 2) + 2" by auto
    ultimately have "2 ^ bitlen (n div 2) \<le> n" "n < 2 * 2 ^ bitlen (n div 2)"
      using IH by linarith+
    with b show ?thesis by simp
  qed
qed

lemma bitlen_powi:
  assumes "0 < n"
  shows "(2 :: rat) powi (int (bitlen n) - 1) \<le> of_nat n" and "(of_nat n :: rat) < 2 powi int (bitlen n)"
proof -
  note b = bitlen_bounds[OF assms]
  then have e: "int (bitlen n) - 1 = int (bitlen n - 1)" by simp
  have "(of_nat (2 ^ (bitlen n - 1)) :: rat) \<le> of_nat n" using b by (intro of_nat_mono) simp
  then show "(2 :: rat) powi (int (bitlen n) - 1) \<le> of_nat n"
    unfolding e by (simp add: power_int_of_nat)
  have "(of_nat n :: rat) < of_nat (2 ^ bitlen n)" using b of_nat_less_iff by blast
  then show "(of_nat n :: rat) < 2 powi int (bitlen n)" by (simp add: power_int_of_nat)
qed

lemma ilog2_bounds:
  assumes "0 < q"
  shows "2 powi ilog2 q \<le> q \<and> q < 2 powi (ilog2 q + 1)"
proof -
  obtain n d where nd: "quotient_of q = (n, d)" by (cases "quotient_of q")
  have d: "0 < d" using nd by (rule quotient_of_denom_pos)
  have "q = of_int n / of_int d" using nd by (rule quotient_of_div)
  moreover from this have n: "0 < n" using assms d by (simp add: zero_less_divide_iff)
  ultimately have q: "q = of_nat (nat n) / of_nat (nat d)" using d by simp
  define a b where "a = bitlen (nat n)" and "b = bitlen (nat d)"
  note A = bitlen_powi[of "nat n", folded a_def] and B = bitlen_powi[of "nat d", folded b_def]
  have lo: "2 powi (int a - int b - 1) \<le> q"
  proof -
    have "(2 :: rat) powi (int a - int b - 1) = 2 powi ((int a - 1) - int b)"
      by (rule arg_cong) simp
    also have "\<dots> = 2 powi (int a - 1) / 2 powi int b" by (rule power_int_diff) simp
    also have "\<dots> \<le> q"
      unfolding q using A(1) B n d by (intro frac_le) auto
    finally show ?thesis .
  qed
  have hi: "q < 2 powi (int a - int b + 1)"
  proof -
    have "q < 2 powi int a / 2 powi (int b - 1)"
      unfolding q using A(2) B(1) n d by (intro frac_less) auto
    also have "\<dots> = 2 powi (int a - (int b - 1))" by (rule power_int_diff [symmetric]) simp
    also have "\<dots> = 2 powi (int a - int b + 1)" by (rule arg_cong) simp
    finally show ?thesis .
  qed
  show ?thesis
    using lo hi by (auto simp: ilog2_def nd Let_def a_def[symmetric] b_def[symmetric] not_le)
qed

lemma pow2_pos [simp]: "0 < (2 :: rat) powi i"
  by (simp add: zero_less_power_int)

lemma pow2_le: "i \<le> j \<Longrightarrow> (2 :: rat) powi i \<le> 2 powi j"
  by (rule power_int_increasing) auto

lemma pow2_add: "(2 :: rat) powi (i + j) = 2 powi i * 2 powi j"
  by (rule power_int_add) simp

lemma pow2_lessD: "(2 :: rat) powi i < 2 powi j \<Longrightarrow> i < j"
  using pow2_le[of j i] by (meson leD leI)

lemma ilog2_mono:
  assumes "0 < p" "p \<le> q" shows "ilog2 p \<le> ilog2 q"
proof -
  have "2 powi ilog2 p \<le> p" "q < 2 powi (ilog2 q + 1)"
    using ilog2_bounds[of p] ilog2_bounds[of q] assms by auto
  with assms have "(2 :: rat) powi ilog2 p < 2 powi (ilog2 q + 1)" by linarith
  then show ?thesis using pow2_lessD by fastforce
qed

lemma ilog2_unique: "0 < q \<Longrightarrow> 2 powi e \<le> q \<Longrightarrow> q < 2 powi (e + 1) \<Longrightarrow> ilog2 q = e"
  using ilog2_bounds[of q] pow2_lessD[of e "ilog2 q + 1"] pow2_lessD[of "ilog2 q" "e + 1"]
  by fastforce

text \<open>A multiple of the last bit is not moved by rounding; in between, rounding stays between.\<close>

lemma round_pos_le:
  assumes "q \<le> of_int n * 2 powi lsb_exp q"
  shows "round_pos q \<le> of_int n * 2 powi lsb_exp q"
proof -
  from assms have "q / 2 powi lsb_exp q \<le> of_int n" by (simp add: pos_divide_le_eq)
  then have "rne (q / 2 powi lsb_exp q) \<le> n" using rne_mono[of _ "of_int n"] by simp
  then show ?thesis by (simp add: round_pos_def)
qed

lemma round_pos_ge:
  assumes "of_int n * 2 powi lsb_exp q \<le> q"
  shows "of_int n * 2 powi lsb_exp q \<le> round_pos q"
proof -
  from assms have "of_int n \<le> q / 2 powi lsb_exp q" by (simp add: pos_le_divide_eq)
  then have "n \<le> rne (q / 2 powi lsb_exp q)" using rne_mono[of "of_int n"] by simp
  then show ?thesis by (simp add: round_pos_def)
qed

lemma round_pos_exact: "q = of_int n * 2 powi lsb_exp q \<Longrightarrow> round_pos q = q"
  using round_pos_le[of q n] round_pos_ge[of n q] by simp

lemma round_pos_nonneg: "0 \<le> q \<Longrightarrow> 0 \<le> round_pos q"
  using round_pos_ge[of 0 q] by simp

lemma round_pos_mono:
  assumes "0 < p" "p \<le> q" shows "round_pos p \<le> round_pos q"
proof (cases "lsb_exp p = lsb_exp q")
  case True
  have "p / 2 powi lsb_exp q \<le> q / 2 powi lsb_exp q"
    using assms by (simp add: divide_right_mono)
  with True show ?thesis by (simp add: round_pos_def rne_mono)
next
  case False
  have le: "ilog2 p \<le> ilog2 q" using assms by (rule ilog2_mono)
  with False have ep: "lsb_exp p < lsb_exp q" and eq: "lsb_exp q = ilog2 q - 52"
    and ip: "ilog2 p + 1 \<le> lsb_exp p + 53" by (auto simp: lsb_exp_def)
  have e1: "(2 :: rat) powi (lsb_exp p + 53) = of_int (2 ^ 53) * 2 powi lsb_exp p"
    by (simp add: pow2_add)
  have e2: "(2 :: rat) powi (lsb_exp q + 52) = of_int (2 ^ 52) * 2 powi lsb_exp q"
    by (simp add: pow2_add)
  have "p \<le> 2 powi (lsb_exp p + 53)"
    using ilog2_bounds[of p] pow2_le[OF ip] assms by linarith
  then have 1: "round_pos p \<le> 2 powi (lsb_exp p + 53)"
    unfolding e1 by (rule round_pos_le)
  have "2 powi (lsb_exp q + 52) \<le> q" using ilog2_bounds[of q] assms eq by simp
  then have 2: "2 powi (lsb_exp q + 52) \<le> round_pos q"
    unfolding e2 by (rule round_pos_ge)
  have "(2 :: rat) powi (lsb_exp p + 53) \<le> 2 powi (lsb_exp q + 52)"
    using ep by (intro pow2_le) simp
  with 1 2 show ?thesis by linarith
qed

lemma round_pos_of_nat:
  assumes "0 < n" "n < 2 ^ 53" shows "round_pos (of_nat n) = of_nat n"
proof -
  have il: "0 \<le> ilog2 (of_nat n)"
    using ilog2_mono[of 1 "of_nat n"] ilog2_unique[of 1 0] assms by simp
  have "(of_nat n :: rat) < of_nat (2 ^ 53)" using assms of_nat_less_iff by blast
  then have "(of_nat n :: rat) < 2 powi 53" by (simp add: power_int_numeral)
  with ilog2_bounds[of "of_nat n"] assms have "(2 :: rat) powi ilog2 (of_nat n) < 2 powi 53" by simp
  then have "ilog2 (of_nat n) < 53" by (rule pow2_lessD)
  with il have e: "lsb_exp (of_nat n) \<le> 0" "lsb_exp (of_nat n) \<ge> -52" by (auto simp: lsb_exp_def)
  define k where "k = nat (- lsb_exp (of_nat n))"
  have k: "lsb_exp (of_nat n) = - int k" using e by (simp add: k_def)
  have "(2 :: rat) powi (- int k) * 2 ^ k = 1" by (simp add: power_int_minus)
  then have "(of_nat n :: rat) = of_int (int n * 2 ^ k) * 2 powi lsb_exp (of_nat n)"
    unfolding k by (simp add: mult.assoc mult.commute)
  then show ?thesis by (rule round_pos_exact)
qed

lemma f64_of_rat_0 [simp]: "f64_of_rat 0 = F_Fin 0"
  by (simp add: f64_of_rat_def)

lemma f64_of_rat_not_nan [simp]: "f64_of_rat q \<noteq> F_NaN"
  by (simp add: f64_of_rat_def)

lemma f64_of_nat_exact:
  assumes "n < 2 ^ 53" shows "f64_of_nat n = F_Fin (of_nat n)"
proof (cases "n = 0")
  case False
  have "(of_nat n :: rat) < of_nat (2 ^ 53)" using assms of_nat_less_iff by blast
  then have "(of_nat n :: rat) < 2 powi 53" by (simp add: power_int_numeral)
  also have "(2 :: rat) powi 53 \<le> 2 powi 1024" by (rule pow2_le) simp
  finally show ?thesis using False assms round_pos_of_nat[of n]
    by (simp add: f64_of_nat_def f64_of_rat_def)
qed (simp add: f64_of_nat_def)

lemma f64_of_rat_mono_nonneg:
  assumes "0 \<le> p" "p \<le> q" shows "f_le (f64_of_rat p) (f64_of_rat q)"
proof (cases "p = 0")
  case True
  then show ?thesis using assms round_pos_nonneg[of q] by (simp add: f64_of_rat_def)
next
  case False
  then have "round_pos p \<le> round_pos q" using assms by (intro round_pos_mono) auto
  with False assms show ?thesis by (auto simp: f64_of_rat_def)
qed

lemma f64_of_rat_nonneg: "0 \<le> q \<Longrightarrow> f_le (F_Fin 0) (f64_of_rat q)"
  using f64_of_rat_mono_nonneg[of 0 q] by simp

lemma f_le_Fin_0_cases: "f_le (F_Fin 0) x \<Longrightarrow> x = F_PInf \<or> (\<exists>q. x = F_Fin q \<and> 0 \<le> q)"
  by (cases x) auto

lemma f_lt_le_trans: "f_lt x y \<Longrightarrow> f_le y z \<Longrightarrow> f_lt x z"
  by (cases x; cases y; cases z) auto

lemma f_le_trans: "f_le x y \<Longrightarrow> f_le y z \<Longrightarrow> f_le x z"
  by (cases x; cases y; cases z) auto

lemma f_lt_imp_le: "f_lt x y \<Longrightarrow> f_le x y"
  by (cases x; cases y) auto

lemma f_not_lt: "\<not> f_is_nan x \<Longrightarrow> \<not> f_is_nan y \<Longrightarrow> \<not> f_lt x y \<longleftrightarrow> f_le y x"
  by (cases x; cases y) auto

lemma f_as_unsigned_bound: "f_as_unsigned w x < 2 ^ w"
proof -
  have "(0 :: nat) < 2 ^ w" by simp
  then show ?thesis by (cases x) (auto simp: min_less_iff_disj)
qed

lemma f_as_unsigned_mono:
  assumes "f_le x y" shows "f_as_unsigned w x \<le> f_as_unsigned w y"
proof (cases x; cases y)
  fix p q assume "x = F_Fin p" "y = F_Fin q"
  with assms have "nat \<lfloor>p\<rfloor> \<le> nat \<lfloor>q\<rfloor>" by (intro nat_mono floor_mono) simp
  with \<open>x = F_Fin p\<close> \<open>y = F_Fin q\<close> show ?thesis by (auto intro: min.coboundedI1)
qed (use assms in auto)

lemma f_floor_mono: "f_le x y \<Longrightarrow> f_le (f_floor x) (f_floor y)"
  using floor_mono by (cases x; cases y) auto

lemma f_round_mono_nonneg: "f_le (F_Fin 0) x \<Longrightarrow> f_le x y \<Longrightarrow> f_le (f_round x) (f_round y)"
  by (cases x; cases y) (auto intro: floor_mono)

lemma f64_of_rat_le_PInf [simp]: "f_le (f64_of_rat q) F_PInf"
  by (cases "f64_of_rat q") (auto simp: f64_of_rat_def split: if_splits)

lemma f_mul_mono_pos:
  assumes "f_le (F_Fin 0) x" "f_le x y" "0 < c"
  shows "f_le (f_mul x (F_Fin c)) (f_mul y (F_Fin c))"
  using assms
  by (cases x; cases y) (auto intro!: f64_of_rat_mono_nonneg mult_right_mono)

lemma f_div_mono_pos:
  assumes "f_le (F_Fin 0) x" "f_le x y" "0 < c"
  shows "f_le (f_div x (F_Fin c)) (f_div y (F_Fin c))"
  using assms
  by (cases x; cases y) (auto intro!: f64_of_rat_mono_nonneg divide_right_mono)

end
