(* ===== verification/Providers.thy ===== *)
theory Providers
  imports Gateway_Prelude
begin

text \<open>
  The inference providers (\<open>types/provider.rs\<close>), their API endpoints (the enums of
  \<open>endpoints/\<close>), the router ids (\<open>types/router.rs\<close>) and the provider credentials read
  from the environment.
\<close>

section \<open>Providers and endpoints\<close>

datatype inference_provider =
    P_OpenAI | P_Anthropic | P_Bedrock | P_Ollama | P_GoogleGemini | P_Named string

datatype openai_endpoint = OpenAI_ChatCompletions
datatype anthropic_endpoint = Anthropic_Messages
datatype google_endpoint = Google_GenerateContents
datatype ollama_endpoint = Ollama_ChatCompletions
datatype bedrock_endpoint = Bedrock_Converse

datatype api_endpoint =
    EP_OpenAI openai_endpoint
  | EP_Anthropic anthropic_endpoint
  | EP_Google google_endpoint
  | EP_Ollama ollama_endpoint
  | EP_Bedrock bedrock_endpoint

datatype endpoint_type = ET_Chat | ET_Image | ET_Audio

datatype router_id = R_Default | R_Named string

text \<open>\<open>InferenceProvider::from_str\<close>; it cannot fail (its error type is \<open>Infallible\<close>).\<close>

definition provider_from_str :: "string \<Rightarrow> (unit, inference_provider) result" where
  "provider_from_str s =
     (if s = ''openai'' then Inr P_OpenAI
      else if s = ''anthropic'' then Inr P_Anthropic
      else if s = ''bedrock'' then Inr P_Bedrock
      else if s = ''ollama'' then Inr P_Ollama
      else if s = ''gemini'' then Inr P_GoogleGemini
      else Inr (P_Named s))"

fun provider_as_ref :: "inference_provider \<Rightarrow> string" where
  "provider_as_ref (P_Named name) = name"
| "provider_as_ref P_OpenAI = ''openai''"
| "provider_as_ref P_Anthropic = ''anthropic''"
| "provider_as_ref P_Bedrock = ''bedrock''"
| "provider_as_ref P_Ollama = ''ollama''"
| "provider_as_ref P_GoogleGemini = ''gemini''"

fun provider_display :: "inference_provider \<Rightarrow> string" where
  "provider_display (P_Named name) = name"
| "provider_display p = provider_as_ref p"

text \<open>The order of \<open>strum\<close>'s \<open>EnumIter\<close>; a payload is its type's default, the empty name.\<close>

definition inference_provider_iter :: "inference_provider list" where
  "inference_provider_iter =
     [P_OpenAI, P_Anthropic, P_Bedrock, P_Ollama, P_GoogleGemini, P_Named []]"

fun provider_endpoints :: "inference_provider \<Rightarrow> api_endpoint list" where
  "provider_endpoints P_OpenAI = [EP_OpenAI OpenAI_ChatCompletions]"
| "provider_endpoints P_Anthropic = [EP_Anthropic Anthropic_Messages]"
| "provider_endpoints P_GoogleGemini = [EP_Google Google_GenerateContents]"
| "provider_endpoints P_Ollama = [EP_Ollama Ollama_ChatCompletions]"
| "provider_endpoints P_Bedrock = [EP_Bedrock Bedrock_Converse]"
| "provider_endpoints (P_Named name) = []"

fun endpoint_provider :: "api_endpoint \<Rightarrow> inference_provider" where
  "endpoint_provider (EP_OpenAI e) = P_OpenAI"
| "endpoint_provider (EP_Anthropic e) = P_Anthropic"
| "endpoint_provider (EP_Google e) = P_GoogleGemini"
| "endpoint_provider (EP_Ollama e) = P_Ollama"
| "endpoint_provider (EP_Bedrock e) = P_Bedrock"

fun router_id_display :: "router_id \<Rightarrow> string" where
  "router_id_display (R_Named name) = name"
| "router_id_display R_Default = ''default''"

section \<open>Credentials\<close>

datatype provider_key =
    Key_Secret string
  | Key_AwsCredentials string string
  | Key_NotRequired

fun as_secret :: "provider_key \<Rightarrow> string option" where
  "as_secret (Key_Secret k) = Some k"
| "as_secret k = None"

fun as_aws_credentials :: "provider_key \<Rightarrow> string option \<times> string option" where
  "as_aws_credentials (Key_AwsCredentials a s) = (Some a, Some s)"
| "as_aws_credentials k = (None, None)"

text \<open>\<open>ProviderKey::from_env\<close>; \<open>env\<close> is what \<open>std::env::var\<close> finds.\<close>

definition api_key_env_var :: "inference_provider \<Rightarrow> string" where
  "api_key_env_var p = map ascii_upper (provider_display p) @ ''_API_KEY''"

definition provider_key_from_env ::
  "(string \<rightharpoonup> string) \<Rightarrow> inference_provider \<Rightarrow> provider_key option" where
  "provider_key_from_env env p =
     (if p = P_Bedrock
      then (case (env ''AWS_ACCESS_KEY'', env ''AWS_SECRET_KEY'') of
              (Some a, Some s) \<Rightarrow> Some (Key_AwsCredentials a s)
            | _ \<Rightarrow> None)
      else (case env (api_key_env_var p) of
              Some k \<Rightarrow> Some (Key_Secret k)
            | None \<Rightarrow> None))"

text \<open>The loop of \<open>ProviderKeys::from_env_inner\<close> over the balancer's providers.\<close>

fun from_env_inner ::
  "(string \<rightharpoonup> string) \<Rightarrow> inference_provider list \<Rightarrow>
     (inference_provider \<rightharpoonup> provider_key) \<Rightarrow> (inference_provider \<rightharpoonup> provider_key)" where
  "from_env_inner env [] keys = keys"
| "from_env_inner env (p # ps) keys =
     (if p = P_Ollama then from_env_inner env ps keys
      else from_env_inner env ps
             (case provider_key_from_env env p of None \<Rightarrow> keys | Some k \<Rightarrow> keys(p \<mapsto> k)))"

text \<open>\<open>ProviderKeys::from_env\<close>: the balancer's providers, and the SDK provider, OpenAI.\<close>

definition SDK :: inference_provider where
  "SDK = P_OpenAI"

definition keys_from_env ::
  "(string \<rightharpoonup> string) \<Rightarrow> inference_provider list \<Rightarrow> (inference_provider \<rightharpoonup> provider_key)" where
  "keys_from_env env providers =
     (let keys = from_env_inner env providers Map.empty
      in case provider_key_from_env env SDK of None \<Rightarrow> keys | Some k \<Rightarrow> keys(SDK \<mapsto> k))"

text \<open>\<open>ProviderKeys::from_env_direct_proxy\<close>: every configured provider that has a key.\<close>

definition keys_from_env_direct_proxy ::
  "(string \<rightharpoonup> string) \<Rightarrow> inference_provider list \<Rightarrow> (inference_provider \<rightharpoonup> provider_key)" where
  "keys_from_env_direct_proxy env providers =
     map_of (rev (List.map_filter
        (\<lambda>p. map_option (\<lambda>k. (p, k)) (provider_key_from_env env p)) providers))"

section \<open>Lemmas\<close>

definition builtin_provider_names :: "string list" where
  "builtin_provider_names = [''openai'', ''anthropic'', ''bedrock'', ''ollama'', ''gemini'']"

fun canonical_provider :: "inference_provider \<Rightarrow> bool" where
  "canonical_provider (P_Named n) = (n \<notin> set builtin_provider_names)"
| "canonical_provider p = True"

lemma provider_display_as_ref: "provider_display p = provider_as_ref p"
  by (cases p) auto

interpretation provider_text: text_codec provider_display provider_from_str canonical_provider
proof unfold_locales
  fix p assume "canonical_provider p"
  then show "provider_from_str (provider_display p) = Inr p"
    by (cases p) (auto simp: provider_from_str_def builtin_provider_names_def)
qed

lemma provider_from_str_total: "\<exists>p. provider_from_str s = Inr p \<and> canonical_provider p \<and> provider_display p = s"
  by (auto simp: provider_from_str_def builtin_provider_names_def)

lemma endpoints_of_provider: "e \<in> set (provider_endpoints p) \<Longrightarrow> endpoint_provider e = p"
  by (cases p) auto

lemma endpoint_in_its_provider: "e \<in> set (provider_endpoints (endpoint_provider e))"
proof (cases e)
  case (EP_OpenAI x) then show ?thesis by (cases x) simp
next
  case (EP_Anthropic x) then show ?thesis by (cases x) simp
next
  case (EP_Google x) then show ?thesis by (cases x) simp
next
  case (EP_Ollama x) then show ?thesis by (cases x) simp
next
  case (EP_Bedrock x) then show ?thesis by (cases x) simp
qed

lemma endpoint_provider_in_iter: "endpoint_provider e \<in> set inference_provider_iter"
  by (cases e) (auto simp: inference_provider_iter_def)

lemma from_env_inner_lookup:
  "from_env_inner env ps keys p =
     (if p \<in> set ps \<and> p \<noteq> P_Ollama \<and> provider_key_from_env env p \<noteq> None
      then provider_key_from_env env p else keys p)"
  by (induction ps arbitrary: keys) (auto split: option.splits)

lemma map_of_rev_map_filter:
  "map_of (rev (List.map_filter (\<lambda>p. map_option (\<lambda>k. (p, k)) (f p)) ps)) p =
     (if p \<in> set ps then f p else None)"
  by (induction ps) (auto simp: List.map_filter_simps map_add_def split: option.splits if_splits)

end
