(* ===== verification/Errors.thy ===== *)
theory Errors
  imports Providers
begin

text \<open>
  The gateway's errors (\<open>error/\<close>): each enum with the payloads the code keeps, its HTTP
  status and body (\<open>IntoResponse\<close>), and its reduction to a low-cardinality metric. An error
  value of a library (\<open>serde_json::Error\<close>, \<open>http::Error\<close>, a boxed error) is the text
  its \<open>Display\<close> prints.
\<close>

section \<open>The error enums\<close>

datatype (plugins only: code size) mapper_error =
    ChatConversion
  | NoModelMapping inference_provider string
  | InvalidModelName string
  | NoProviderConfig inference_provider
  | ProviderNotEnabled inference_provider
  | ME_InvalidRequest
  | SerdeError string
  | EmptyResponseBody
  | ME_ProviderNotSupported string
  | ToolMappingInvalid string
  | ImageMappingInvalid string
  | FailedToMapBedrockMessage string

datatype auth_error = MissingAuthorizationHeader | InvalidCredentials

record too_many_requests =
  ratelimit_limit :: nat
  ratelimit_remaining :: nat
  retry_after :: nat

datatype (plugins only: code size) invalid_request_error =
    NotFound string
  | UnsupportedProvider inference_provider
  | UnsupportedEndpoint string
  | RouterIdNotFound string
  | MissingRouterId
  | IR_InvalidRequest string
  | InvalidUrl string
  | InvalidRequestBody string
  | Provider4xxError nat
  | InvalidCacheConfig
  | TooManyRequests too_many_requests

datatype (plugins only: code size) internal_error =
    Internal
  | Serialize string string
  | Deserialize string string
  | ProviderNotConfigured inference_provider
  | ExtensionNotFound string
  | ProviderNotFound
  | CollectBodyError string
  | RequestBodyError string
  | ReqwestError string
  | HttpError string
  | MapperErr mapper_error
  | LoadBalancerError string
  | PollReadyError string
  | BufferError string
  | InvalidUri string
  | InvalidHeader string
  | MappingTaskError string
  | InvalidConverter api_endpoint api_endpoint
  | Provider5xxError nat
  | MetricsNotConfigured api_endpoint
  | AwsRequestSigningError string
  | CacheError string
  | RedisError string
  | PoolError string

text \<open>
  The errors of an upstream event stream: the variants of \<open>reqwest_eventsource::Error\<close> that
  the code distinguishes, each with the text it displays.
\<close>

datatype (plugins only: code size) eventsource_error =
    ES_Utf8 string
  | ES_Parser string
  | ES_Transport string
  | ES_InvalidContentType string
  | ES_InvalidStatusCode nat string
  | ES_InvalidLastEventId string
  | ES_StreamEnded string

datatype stream_error = SE_Stream eventsource_error | SE_Body string

datatype api_error =
    AE_InvalidRequest invalid_request_error
  | AE_Authentication auth_error
  | AE_Internal internal_error
  | AE_Stream stream_error
  | AE_Panic string

datatype provider_error =
    PE_ProviderNotConfigured inference_provider
  | PE_ProviderKeysNotFound router_id

datatype model_mapping_validation_error =
    MV_ProviderNotConfigured router_id inference_provider
  | MV_NoValidMapping router_id string inference_provider
  | MV_ModelNotFound string

datatype (plugins only: code size) init_error =
    DefaultRouterNotFound
  | IE_Tls string
  | IE_Bind string
  | IE_Telemetry string
  | InvalidBucketConfig string
  | OAuthConfig string
  | CreateReqwestClient string
  | CreateBalancer string
  | IE_ProviderError provider_error
  | InvalidWeight inference_provider
  | InvalidWeightedBalancer string
  | EndpointsNotConfigured inference_provider
  | CreateRedisPool string
  | CreateRedisClient string
  | InitOtelMetricsLayer string
  | InitSystemMetrics
  | InvalidRateLimitConfig string
  | InvalidMappingsConfig model_mapping_validation_error
  | WebsocketConnection string
  | WebsocketUrlParse string
  | RateLimitChannelsNotInitialized router_id
  | WebsocketRequestBuild string
  | InvalidRouterId string
  | CacheNotConfigured
  | MinioNotConfigured
  | DatabaseConnection string
  | IE_ProviderNotSupported inference_provider

datatype (plugins only: code size) runtime_error =
    RE_Init init_error
  | RE_Internal internal_error
  | RE_Serve string
  | RE_Join string
  | RE_Telemetry string
  | RE_ChannelSendFailed
  | RE_WebsocketMutexLock

section \<open>Responses\<close>

abbreviation is_client_error :: "nat \<Rightarrow> bool" where "is_client_error s \<equiv> 400 \<le> s \<and> s < 500"
abbreviation is_server_error :: "nat \<Rightarrow> bool" where "is_server_error s \<equiv> 500 \<le> s \<and> s < 600"
abbreviation is_success :: "nat \<Rightarrow> bool" where "is_success s \<equiv> 200 \<le> s \<and> s < 300"

text \<open>\<open>ErrorDetails\<close>, the JSON body of an error response.\<close>

record error_details =
  ed_message :: string
  ed_type :: "string option"
  ed_param :: "string option"
  ed_code :: "string option"

record error_response =
  er_status :: nat
  er_headers :: "(string \<times> string) list"
  er_details :: error_details

definition INVALID_REQUEST_ERROR_TYPE :: string where
  "INVALID_REQUEST_ERROR_TYPE = ''invalid_request_error''"

definition SERVER_ERROR_TYPE :: string where
  "SERVER_ERROR_TYPE = ''server_error''"

definition json_error :: "nat \<Rightarrow> string \<Rightarrow> string \<Rightarrow> string option \<Rightarrow> error_response" where
  "json_error status message ty code =
     \<lparr>er_status = status, er_headers = [],
      er_details = \<lparr>ed_message = message, ed_type = Some ty, ed_param = None, ed_code = code\<rparr>\<rparr>"

text \<open>\<open>Display\<close> of the user errors (\<open>displaydoc\<close> on the doc comments); \<open>status\<close> prints a \<open>StatusCode\<close>.\<close>

fun invalid_request_display :: "(nat \<Rightarrow> string) \<Rightarrow> invalid_request_error \<Rightarrow> string" where
  "invalid_request_display status (NotFound s) = ''Resource not found: '' @ s"
| "invalid_request_display status (UnsupportedProvider p) = ''Unsupported provider: '' @ provider_display p"
| "invalid_request_display status (UnsupportedEndpoint s) = ''Unsupported endpoint: '' @ s"
| "invalid_request_display status (RouterIdNotFound s) = ''Router id not found: '' @ s"
| "invalid_request_display status MissingRouterId = ''Missing router id in request path''"
| "invalid_request_display status (IR_InvalidRequest s) = ''Invalid request: '' @ s"
| "invalid_request_display status (InvalidUrl s) = ''Invalid request url: '' @ s"
| "invalid_request_display status (InvalidRequestBody s) = ''Invalid request body: '' @ s"
| "invalid_request_display status (Provider4xxError c) = ''Upstream 4xx error: '' @ status c"
| "invalid_request_display status InvalidCacheConfig = ''Invalid cache config''"
| "invalid_request_display status (TooManyRequests t) =
     ''Too many requests: '' @ ''Retry after '' @ show_nat (retry_after t) @ ''s.''"

fun invalid_request_into_response ::
  "(nat \<Rightarrow> string) \<Rightarrow> invalid_request_error \<Rightarrow> error_response" where
  "invalid_request_into_response status e =
     (let message = invalid_request_display status e in
      case e of
        NotFound _ \<Rightarrow> json_error 404 message INVALID_REQUEST_ERROR_TYPE None
      | RouterIdNotFound _ \<Rightarrow> json_error 404 message INVALID_REQUEST_ERROR_TYPE None
      | Provider4xxError c \<Rightarrow> json_error c message INVALID_REQUEST_ERROR_TYPE None
      | TooManyRequests t \<Rightarrow>
          (json_error 429 message INVALID_REQUEST_ERROR_TYPE None)
            \<lparr>er_headers :=
               [(''retry-after'', show_nat (retry_after t)),
                (''x-ratelimit-after'', show_nat (retry_after t)),
                (''x-ratelimit-limit'', show_nat (ratelimit_limit t)),
                (''x-ratelimit-remaining'', show_nat (ratelimit_remaining t))]\<rparr>
      | _ \<Rightarrow> json_error 400 message INVALID_REQUEST_ERROR_TYPE None)"

fun auth_display :: "auth_error \<Rightarrow> string" where
  "auth_display MissingAuthorizationHeader = ''Missing authorization header''"
| "auth_display InvalidCredentials = ''Invalid credentials''"

fun auth_into_response :: "auth_error \<Rightarrow> error_response" where
  "auth_into_response MissingAuthorizationHeader =
     json_error 401 (auth_display MissingAuthorizationHeader) INVALID_REQUEST_ERROR_TYPE
       (Some ''invalid_api_key'')"
| "auth_into_response InvalidCredentials =
     json_error 401 (auth_display InvalidCredentials) INVALID_REQUEST_ERROR_TYPE
       (Some ''invalid_api_key'')"

text \<open>\<open>InternalError::into_response\<close>; \<open>display\<close> is the error's \<open>Display\<close>.\<close>

definition internal_into_response :: "(internal_error \<Rightarrow> string) \<Rightarrow> internal_error \<Rightarrow> error_response" where
  "internal_into_response display e = json_error 500 (display e) SERVER_ERROR_TYPE None"

fun eventsource_text :: "eventsource_error \<Rightarrow> string" where
  "eventsource_text (ES_Utf8 t) = t"
| "eventsource_text (ES_Parser t) = t"
| "eventsource_text (ES_Transport t) = t"
| "eventsource_text (ES_InvalidContentType t) = t"
| "eventsource_text (ES_InvalidStatusCode c t) = t"
| "eventsource_text (ES_InvalidLastEventId t) = t"
| "eventsource_text (ES_StreamEnded t) = t"

fun stream_into_response :: "stream_error \<Rightarrow> error_response" where
  "stream_into_response (SE_Stream (ES_InvalidStatusCode c t)) =
     (if is_server_error c then json_error c t SERVER_ERROR_TYPE None
      else if is_client_error c then json_error c t INVALID_REQUEST_ERROR_TYPE None
      else json_error 500 t SERVER_ERROR_TYPE None)"
| "stream_into_response (SE_Stream e) = json_error 500 (eventsource_text e) SERVER_ERROR_TYPE None"
| "stream_into_response (SE_Body t) = json_error 500 t SERVER_ERROR_TYPE None"

fun api_into_response ::
  "(nat \<Rightarrow> string) \<Rightarrow> (internal_error \<Rightarrow> string) \<Rightarrow> api_error \<Rightarrow> error_response" where
  "api_into_response status display (AE_InvalidRequest e) = invalid_request_into_response status e"
| "api_into_response status display (AE_Authentication e) = auth_into_response e"
| "api_into_response status display (AE_Internal e) = internal_into_response display e"
| "api_into_response status display (AE_Stream e) = stream_into_response e"
| "api_into_response status display (AE_Panic t) =
     json_error 500 ''Internal server error'' SERVER_ERROR_TYPE None"

section \<open>Metrics\<close>

datatype (plugins only: code size) mapper_error_metric =
    MM_ChatConversion | MM_NoModelMapping | MM_InvalidModelName | MM_NoProviderConfig
  | MM_ProviderNotEnabled | MM_InvalidRequest | MM_SerdeError | MM_EmptyResponseBody
  | MM_ProviderNotSupported | MM_ToolMappingInvalid | MM_ImageMappingInvalid
  | MM_FailedToMapBedrockMessage

fun mapper_metric_from :: "mapper_error \<Rightarrow> mapper_error_metric" where
  "mapper_metric_from ChatConversion = MM_ChatConversion"
| "mapper_metric_from (NoModelMapping _ _) = MM_NoModelMapping"
| "mapper_metric_from (InvalidModelName _) = MM_InvalidModelName"
| "mapper_metric_from (NoProviderConfig _) = MM_NoProviderConfig"
| "mapper_metric_from (ProviderNotEnabled _) = MM_ProviderNotEnabled"
| "mapper_metric_from ME_InvalidRequest = MM_InvalidRequest"
| "mapper_metric_from (SerdeError _) = MM_SerdeError"
| "mapper_metric_from EmptyResponseBody = MM_EmptyResponseBody"
| "mapper_metric_from (ME_ProviderNotSupported _) = MM_ProviderNotSupported"
| "mapper_metric_from (ToolMappingInvalid _) = MM_ToolMappingInvalid"
| "mapper_metric_from (ImageMappingInvalid _) = MM_ImageMappingInvalid"
| "mapper_metric_from (FailedToMapBedrockMessage _) = MM_FailedToMapBedrockMessage"

text \<open>\<open>strum::AsRefStr\<close> prints the variant's name.\<close>

fun mapper_metric_as_ref :: "mapper_error_metric \<Rightarrow> string" where
  "mapper_metric_as_ref MM_ChatConversion = ''ChatConversion''"
| "mapper_metric_as_ref MM_NoModelMapping = ''NoModelMapping''"
| "mapper_metric_as_ref MM_InvalidModelName = ''InvalidModelName''"
| "mapper_metric_as_ref MM_NoProviderConfig = ''NoProviderConfig''"
| "mapper_metric_as_ref MM_ProviderNotEnabled = ''ProviderNotEnabled''"
| "mapper_metric_as_ref MM_InvalidRequest = ''InvalidRequest''"
| "mapper_metric_as_ref MM_SerdeError = ''SerdeError''"
| "mapper_metric_as_ref MM_EmptyResponseBody = ''EmptyResponseBody''"
| "mapper_metric_as_ref MM_ProviderNotSupported = ''ProviderNotSupported''"
| "mapper_metric_as_ref MM_ToolMappingInvalid = ''ToolMappingInvalid''"
| "mapper_metric_as_ref MM_ImageMappingInvalid = ''ImageMappingInvalid''"
| "mapper_metric_as_ref MM_FailedToMapBedrockMessage = ''FailedToMapBedrockMessage''"

datatype (plugins only: code size) invalid_request_metric =
    IM_NotFound | IM_UnsupportedProvider | IM_InvalidRequest | IM_InvalidUrl
  | IM_InvalidRequestBody | IM_Provider4xxError | IM_TooManyRequests

fun invalid_request_metric_from :: "invalid_request_error \<Rightarrow> invalid_request_metric" where
  "invalid_request_metric_from (UnsupportedProvider _) = IM_UnsupportedProvider"
| "invalid_request_metric_from (NotFound _) = IM_NotFound"
| "invalid_request_metric_from (RouterIdNotFound _) = IM_NotFound"
| "invalid_request_metric_from MissingRouterId = IM_NotFound"
| "invalid_request_metric_from (IR_InvalidRequest _) = IM_InvalidRequest"
| "invalid_request_metric_from (UnsupportedEndpoint _) = IM_InvalidRequest"
| "invalid_request_metric_from InvalidCacheConfig = IM_InvalidRequest"
| "invalid_request_metric_from (InvalidUrl _) = IM_InvalidUrl"
| "invalid_request_metric_from (InvalidRequestBody _) = IM_InvalidRequestBody"
| "invalid_request_metric_from (Provider4xxError _) = IM_Provider4xxError"
| "invalid_request_metric_from (TooManyRequests _) = IM_TooManyRequests"

fun invalid_request_metric_as_ref :: "invalid_request_metric \<Rightarrow> string" where
  "invalid_request_metric_as_ref IM_NotFound = ''NotFound''"
| "invalid_request_metric_as_ref IM_UnsupportedProvider = ''UnsupportedProvider''"
| "invalid_request_metric_as_ref IM_InvalidRequest = ''InvalidRequest''"
| "invalid_request_metric_as_ref IM_InvalidUrl = ''InvalidUrl''"
| "invalid_request_metric_as_ref IM_InvalidRequestBody = ''InvalidRequestBody''"
| "invalid_request_metric_as_ref IM_Provider4xxError = ''Provider4xxError''"
| "invalid_request_metric_as_ref IM_TooManyRequests = ''TooManyRequests''"

datatype auth_error_metric = AM_MissingAuthorizationHeader | AM_InvalidCredentials

fun auth_metric_from :: "auth_error \<Rightarrow> auth_error_metric" where
  "auth_metric_from MissingAuthorizationHeader = AM_MissingAuthorizationHeader"
| "auth_metric_from InvalidCredentials = AM_InvalidCredentials"

fun auth_metric_as_ref :: "auth_error_metric \<Rightarrow> string" where
  "auth_metric_as_ref AM_MissingAuthorizationHeader = ''MissingAuthorizationHeader''"
| "auth_metric_as_ref AM_InvalidCredentials = ''InvalidCredentials''"

datatype (plugins only: code size) internal_error_metric =
    NM_Internal | NM_Serialize | NM_Deserialize | NM_ProviderNotConfigured | NM_ExtensionNotFound
  | NM_ProviderNotFound | NM_CollectBodyError | NM_RequestBodyError | NM_ReqwestError | NM_HttpError
  | NM_MapperError mapper_error_metric | NM_LoadBalancerError | NM_PollReadyError | NM_BufferError
  | NM_InvalidUri | NM_InvalidHeader | NM_TokioTaskError | NM_InvalidConverter | NM_StreamError
  | NM_Provider5xxError | NM_MetricsNotConfigured | NM_AwsRequestSigningError | NM_CacheError
  | NM_RedisError | NM_PoolError

fun internal_metric_from :: "internal_error \<Rightarrow> internal_error_metric" where
  "internal_metric_from Internal = NM_Internal"
| "internal_metric_from (Serialize _ _) = NM_Serialize"
| "internal_metric_from (Deserialize _ _) = NM_Deserialize"
| "internal_metric_from (ProviderNotConfigured _) = NM_ProviderNotConfigured"
| "internal_metric_from (ExtensionNotFound _) = NM_ExtensionNotFound"
| "internal_metric_from ProviderNotFound = NM_ProviderNotFound"
| "internal_metric_from (CollectBodyError _) = NM_CollectBodyError"
| "internal_metric_from (RequestBodyError _) = NM_RequestBodyError"
| "internal_metric_from (ReqwestError _) = NM_ReqwestError"
| "internal_metric_from (HttpError _) = NM_HttpError"
| "internal_metric_from (MapperErr e) = NM_MapperError (mapper_metric_from e)"
| "internal_metric_from (LoadBalancerError _) = NM_LoadBalancerError"
| "internal_metric_from (PollReadyError _) = NM_PollReadyError"
| "internal_metric_from (BufferError _) = NM_BufferError"
| "internal_metric_from (InvalidUri _) = NM_InvalidUri"
| "internal_metric_from (InvalidHeader _) = NM_InvalidHeader"
| "internal_metric_from (MappingTaskError _) = NM_TokioTaskError"
| "internal_metric_from (InvalidConverter _ _) = NM_InvalidConverter"
| "internal_metric_from (Provider5xxError _) = NM_Provider5xxError"
| "internal_metric_from (MetricsNotConfigured _) = NM_MetricsNotConfigured"
| "internal_metric_from (AwsRequestSigningError _) = NM_AwsRequestSigningError"
| "internal_metric_from (CacheError _) = NM_CacheError"
| "internal_metric_from (RedisError _) = NM_RedisError"
| "internal_metric_from (PoolError _) = NM_PoolError"

fun internal_metric_as_ref :: "internal_error_metric \<Rightarrow> string" where
  "internal_metric_as_ref NM_Internal = ''Internal''"
| "internal_metric_as_ref NM_Serialize = ''Serialize''"
| "internal_metric_as_ref NM_Deserialize = ''Deserialize''"
| "internal_metric_as_ref NM_ProviderNotConfigured = ''ProviderNotConfigured''"
| "internal_metric_as_ref NM_ExtensionNotFound = ''ExtensionNotFound''"
| "internal_metric_as_ref NM_ProviderNotFound = ''ProviderNotFound''"
| "internal_metric_as_ref NM_CollectBodyError = ''CollectBodyError''"
| "internal_metric_as_ref NM_RequestBodyError = ''RequestBodyError''"
| "internal_metric_as_ref NM_ReqwestError = ''ReqwestError''"
| "internal_metric_as_ref NM_HttpError = ''HttpError''"
| "internal_metric_as_ref (NM_MapperError _) = ''MapperError''"
| "internal_metric_as_ref NM_LoadBalancerError = ''LoadBalancerError''"
| "internal_metric_as_ref NM_PollReadyError = ''PollReadyError''"
| "internal_metric_as_ref NM_BufferError = ''BufferError''"
| "internal_metric_as_ref NM_InvalidUri = ''InvalidUri''"
| "internal_metric_as_ref NM_InvalidHeader = ''InvalidHeader''"
| "internal_metric_as_ref NM_TokioTaskError = ''TokioTaskError''"
| "internal_metric_as_ref NM_InvalidConverter = ''InvalidConverter''"
| "internal_metric_as_ref NM_StreamError = ''StreamError''"
| "internal_metric_as_ref NM_Provider5xxError = ''Provider5xxError''"
| "internal_metric_as_ref NM_MetricsNotConfigured = ''MetricsNotConfigured''"
| "internal_metric_as_ref NM_AwsRequestSigningError = ''AwsRequestSigningError''"
| "internal_metric_as_ref NM_CacheError = ''CacheError''"
| "internal_metric_as_ref NM_RedisError = ''RedisError''"
| "internal_metric_as_ref NM_PoolError = ''PoolError''"

definition internal_error_metric_of :: "internal_error \<Rightarrow> string" where
  "internal_error_metric_of e =
     (case e of
        MapperErr m \<Rightarrow> ''InternalError:MapperError:'' @ mapper_metric_as_ref (mapper_metric_from m)
      | _ \<Rightarrow> internal_metric_as_ref (internal_metric_from e))"

datatype stream_error_metric = SM_StreamError | SM_BodyError

fun stream_metric_from :: "stream_error \<Rightarrow> stream_error_metric" where
  "stream_metric_from (SE_Stream _) = SM_StreamError"
| "stream_metric_from (SE_Body _) = SM_BodyError"

fun stream_metric_as_ref :: "stream_error_metric \<Rightarrow> string" where
  "stream_metric_as_ref SM_StreamError = ''StreamError''"
| "stream_metric_as_ref SM_BodyError = ''BodyError''"

datatype api_error_metric =
    AEM_InvalidRequest invalid_request_metric
  | AEM_Authentication auth_error_metric
  | AEM_Internal internal_error_metric
  | AEM_StreamError stream_error_metric
  | AEM_Panic

fun api_metric_from :: "api_error \<Rightarrow> api_error_metric" where
  "api_metric_from (AE_InvalidRequest e) = AEM_InvalidRequest (invalid_request_metric_from e)"
| "api_metric_from (AE_Authentication e) = AEM_Authentication (auth_metric_from e)"
| "api_metric_from (AE_Internal e) = AEM_Internal (internal_metric_from e)"
| "api_metric_from (AE_Stream e) =
     (case e of
        SE_Stream (ES_InvalidStatusCode c _) \<Rightarrow>
          if is_client_error c then AEM_InvalidRequest IM_InvalidRequest
          else AEM_StreamError (stream_metric_from e)
      | _ \<Rightarrow> AEM_StreamError (stream_metric_from e))"
| "api_metric_from (AE_Panic _) = AEM_Panic"

fun api_metric_string :: "api_error_metric \<Rightarrow> string" where
  "api_metric_string (AEM_InvalidRequest e) = ''InvalidRequest:'' @ invalid_request_metric_as_ref e"
| "api_metric_string (AEM_Authentication e) = ''Authentication:'' @ auth_metric_as_ref e"
| "api_metric_string (AEM_Internal e) =
     (case e of
        NM_MapperError m \<Rightarrow> ''InternalError:MapperError:'' @ mapper_metric_as_ref m
      | _ \<Rightarrow> ''InternalError:'' @ internal_metric_as_ref e)"
| "api_metric_string (AEM_StreamError e) = ''StreamError:'' @ stream_metric_as_ref e"
| "api_metric_string AEM_Panic = ''Panic''"

definition api_error_metric_of :: "api_error \<Rightarrow> string" where
  "api_error_metric_of e = api_metric_string (api_metric_from e)"

section \<open>Interface: an error that becomes an HTTP response\<close>

text \<open>
  What \<open>IntoResponse\<close> promises of an error: under \<open>wf\<close> its status is a 4xx or a 5xx, the
  body's type names who is at fault (\<open>invalid_request_error\<close> exactly for a 4xx), and only
  documented codes appear.
\<close>

locale error_renderer =
  fixes render :: "'e \<Rightarrow> error_response"
    and wf :: "'e \<Rightarrow> bool"
  assumes status_range: "wf e \<Longrightarrow> 400 \<le> er_status (render e) \<and> er_status (render e) < 600"
    and fault: "wf e \<Longrightarrow> ed_type (er_details (render e)) =
       Some (if er_status (render e) < 500 then INVALID_REQUEST_ERROR_TYPE else SERVER_ERROR_TYPE)"
    and no_param: "ed_param (er_details (render e)) = None"
begin

lemma not_success: "wf e \<Longrightarrow> \<not> is_success (er_status (render e))"
  using status_range[of e] by auto

lemma client_fault_iff:
  "wf e \<Longrightarrow> ed_type (er_details (render e)) = Some INVALID_REQUEST_ERROR_TYPE \<longleftrightarrow>
     is_client_error (er_status (render e))"
  using status_range[of e] fault[of e]
  by (auto simp: INVALID_REQUEST_ERROR_TYPE_def SERVER_ERROR_TYPE_def split: if_splits)

end

fun invalid_request_wf :: "invalid_request_error \<Rightarrow> bool" where
  "invalid_request_wf (Provider4xxError c) = is_client_error c"
| "invalid_request_wf e = True"

interpretation ir_render: error_renderer "invalid_request_into_response status" invalid_request_wf
  for status
proof unfold_locales
  fix e :: invalid_request_error
  assume wf: "invalid_request_wf e"
  then show "400 \<le> er_status (invalid_request_into_response status e) \<and>
      er_status (invalid_request_into_response status e) < 600"
    by (cases e) (auto simp: json_error_def)
  from wf show "ed_type (er_details (invalid_request_into_response status e)) =
     Some (if er_status (invalid_request_into_response status e) < 500
           then INVALID_REQUEST_ERROR_TYPE else SERVER_ERROR_TYPE)"
    by (cases e) (auto simp: json_error_def)
next
  fix e show "ed_param (er_details (invalid_request_into_response status e)) = None"
    by (cases e) (auto simp: json_error_def)
qed

interpretation auth_render: error_renderer auth_into_response "\<lambda>_. True"
proof unfold_locales
  fix e :: auth_error
  show "400 \<le> er_status (auth_into_response e) \<and> er_status (auth_into_response e) < 600"
    by (cases e) (auto simp: json_error_def)
  show "ed_type (er_details (auth_into_response e)) =
     Some (if er_status (auth_into_response e) < 500 then INVALID_REQUEST_ERROR_TYPE else SERVER_ERROR_TYPE)"
    by (cases e) (auto simp: json_error_def)
  show "ed_param (er_details (auth_into_response e)) = None"
    by (cases e) (auto simp: json_error_def)
qed

interpretation internal_render: error_renderer "internal_into_response display" "\<lambda>_. True"
  for display
  by unfold_locales (auto simp: internal_into_response_def json_error_def)

interpretation stream_render: error_renderer stream_into_response "\<lambda>_. True"
proof unfold_locales
  fix e :: stream_error
  show "400 \<le> er_status (stream_into_response e) \<and> er_status (stream_into_response e) < 600"
    by (cases e rule: stream_into_response.cases) (auto simp: json_error_def)
  show "ed_type (er_details (stream_into_response e)) =
     Some (if er_status (stream_into_response e) < 500 then INVALID_REQUEST_ERROR_TYPE else SERVER_ERROR_TYPE)"
    by (cases e rule: stream_into_response.cases) (auto simp: json_error_def)
  show "ed_param (er_details (stream_into_response e)) = None"
    by (cases e rule: stream_into_response.cases) (auto simp: json_error_def)
qed

fun api_error_wf :: "api_error \<Rightarrow> bool" where
  "api_error_wf (AE_InvalidRequest e) = invalid_request_wf e"
| "api_error_wf e = True"

interpretation api_render: error_renderer "api_into_response status display" api_error_wf
  for status display
proof unfold_locales
  fix e assume wf: "api_error_wf e"
  from wf show "400 \<le> er_status (api_into_response status display e) \<and>
      er_status (api_into_response status display e) < 600"
    using ir_render.status_range auth_render.status_range internal_render.status_range
      stream_render.status_range
    by (cases e) (simp_all add: json_error_def del: invalid_request_into_response.simps)
  from wf show "ed_type (er_details (api_into_response status display e)) =
     Some (if er_status (api_into_response status display e) < 500
           then INVALID_REQUEST_ERROR_TYPE else SERVER_ERROR_TYPE)"
    using ir_render.fault auth_render.fault internal_render.fault stream_render.fault
    by (cases e) (simp_all add: json_error_def del: invalid_request_into_response.simps)
next
  fix e show "ed_param (er_details (api_into_response status display e)) = None"
    using ir_render.no_param auth_render.no_param internal_render.no_param stream_render.no_param
    by (cases e) (simp_all add: json_error_def del: invalid_request_into_response.simps)
qed

section \<open>Metric cardinality\<close>

lemma finite_by_cover:
  assumes "\<And>x. f x \<in> set xs" shows "finite (range f)"
proof (rule finite_subset)
  show "range f \<subseteq> set xs" using assms by auto
qed simp

definition mapper_metric_variants :: "mapper_error_metric list" where
  "mapper_metric_variants =
     [MM_ChatConversion, MM_NoModelMapping, MM_InvalidModelName, MM_NoProviderConfig,
      MM_ProviderNotEnabled, MM_InvalidRequest, MM_SerdeError, MM_EmptyResponseBody,
      MM_ProviderNotSupported, MM_ToolMappingInvalid, MM_ImageMappingInvalid,
      MM_FailedToMapBedrockMessage]"

definition internal_metric_variants :: "internal_error_metric list" where
  "internal_metric_variants =
     [NM_Internal, NM_Serialize, NM_Deserialize, NM_ProviderNotConfigured, NM_ExtensionNotFound,
      NM_ProviderNotFound, NM_CollectBodyError, NM_RequestBodyError, NM_ReqwestError, NM_HttpError,
      NM_LoadBalancerError, NM_PollReadyError, NM_BufferError, NM_InvalidUri, NM_InvalidHeader,
      NM_TokioTaskError, NM_InvalidConverter, NM_StreamError, NM_Provider5xxError,
      NM_MetricsNotConfigured, NM_AwsRequestSigningError, NM_CacheError, NM_RedisError, NM_PoolError]"

definition api_metric_variants :: "api_error_metric list" where
  "api_metric_variants =
     map AEM_InvalidRequest
       [IM_NotFound, IM_UnsupportedProvider, IM_InvalidRequest, IM_InvalidUrl,
        IM_InvalidRequestBody, IM_Provider4xxError, IM_TooManyRequests] @
     map AEM_Authentication [AM_MissingAuthorizationHeader, AM_InvalidCredentials] @
     map (AEM_Internal \<circ> NM_MapperError) mapper_metric_variants @
     map AEM_Internal internal_metric_variants @
     map AEM_StreamError [SM_StreamError, SM_BodyError] @
     [AEM_Panic]"

lemma mapper_metric_covered: "m \<in> set mapper_metric_variants"
  by (cases m) (simp_all add: mapper_metric_variants_def)

lemma internal_metric_covered: "(\<exists>m. x = NM_MapperError m) \<or> x \<in> set internal_metric_variants"
  by (cases x) (simp_all add: internal_metric_variants_def)

lemma api_metric_covered: "m \<in> set api_metric_variants"
proof (cases m)
  case (AEM_InvalidRequest x)
  then show ?thesis by (cases x) (simp_all add: api_metric_variants_def)
next
  case (AEM_Authentication x)
  then show ?thesis by (cases x) (simp_all add: api_metric_variants_def)
next
  case (AEM_Internal x)
  then show ?thesis
    using internal_metric_covered[of x] mapper_metric_covered
    by (auto simp: api_metric_variants_def)
next
  case (AEM_StreamError x)
  then show ?thesis by (cases x) (simp_all add: api_metric_variants_def)
next
  case AEM_Panic
  then show ?thesis by (simp add: api_metric_variants_def)
qed

end
