(* ===== verification/Model_Id.thy ===== *)
theory Model_Id
  imports Errors
begin

text \<open>
  Model identifiers (\<open>types/model_id.rs\<close>): versions, the identifiers of each provider's
  style, their parsers and printers. The calendar library is a parameter: \<open>parse_from_str\<close>
  of \<open>NaiveDate\<close>, the conversion of a date to midnight UTC, the formatting of a date-time and
  the current year as printed.
\<close>

record ('n, 'd) chrono =
  parse_from_str :: "string \<Rightarrow> string \<Rightarrow> 'n option"
  midnight_utc :: "'n \<Rightarrow> 'd option"
  format_date :: "'d \<Rightarrow> string \<Rightarrow> string"
  this_year :: string

datatype 'd version =
    ImplicitLatest
  | Latest
  | Preview
  | DateVersionedPreview 'd string
  | VDate 'd string

abbreviation fmt_ymd :: string where "fmt_ymd \<equiv> ''%Y-%m-%d''"
abbreviation fmt_compact :: string where "fmt_compact \<equiv> ''%Y%m%d''"
abbreviation fmt_md :: string where "fmt_md \<equiv> ''%m-%d''"

section \<open>Dates and versions\<close>

definition parse_as :: "('n, 'd) chrono \<Rightarrow> string \<Rightarrow> string \<Rightarrow> 'd option" where
  "parse_as ch input fmt = Option.bind (parse_from_str ch input fmt) (midnight_utc ch)"

definition parse_date :: "('n, 'd) chrono \<Rightarrow> string \<Rightarrow> ('d \<times> string) option" where
  "parse_date ch input =
     (case parse_as ch input fmt_ymd of
        Some d \<Rightarrow> Some (d, fmt_ymd)
      | None \<Rightarrow>
          (case parse_as ch input fmt_compact of
             Some d \<Rightarrow> Some (d, fmt_compact)
           | None \<Rightarrow>
               (case parse_as ch (this_year ch @ ''-'' @ input) fmt_ymd of
                  Some d \<Rightarrow> Some (d, fmt_md)
                | None \<Rightarrow> None)))"

fun version_display :: "('n, 'd) chrono \<Rightarrow> 'd version \<Rightarrow> string" where
  "version_display ch ImplicitLatest = []"
| "version_display ch Latest = ''latest''"
| "version_display ch Preview = ''preview''"
| "version_display ch (DateVersionedPreview d fmt) = ''preview-'' @ format_date ch d fmt"
| "version_display ch (VDate d fmt) = format_date ch d fmt"

definition version_from_str :: "('n, 'd) chrono \<Rightarrow> string \<Rightarrow> (mapper_error, 'd version) result" where
  "version_from_str ch input =
     (if eq_ignore_ascii_case input ''latest'' then Inr Latest
      else if eq_ignore_ascii_case input ''preview'' then Inr Preview
      else (case strip_prefix ''preview-'' input of
              Some rest \<Rightarrow>
                (case parse_date ch rest of
                   Some (d, fmt) \<Rightarrow> Inr (DateVersionedPreview d fmt)
                 | None \<Rightarrow> Inl (InvalidModelName input))
            | None \<Rightarrow>
                (case parse_date ch input of
                   Some (d, fmt) \<Rightarrow> Inr (VDate d fmt)
                 | None \<Rightarrow>
                     if input = [] then Inr ImplicitLatest else Inl (InvalidModelName input))))"

text \<open>
  \<open>parse_model_and_version\<close>. The candidates are collected from the right and then reversed;
  a separator that ends the string is skipped.
\<close>

definition candidates :: "string \<Rightarrow> char \<Rightarrow> (nat \<times> string) list" where
  "candidates s separator =
     rev (map (\<lambda>i. (i, drop (i + 1) s))
            (filter (\<lambda>i. s ! i = separator \<and> i \<noteq> length s - 1) (rev [0..<length s])))"

fun first_full_date ::
  "('n, 'd) chrono \<Rightarrow> string \<Rightarrow> (nat \<times> string) list \<Rightarrow> (string \<times> 'd version option) option" where
  "first_full_date ch s [] = None"
| "first_full_date ch s ((i, c) # cs) =
     (case parse_date ch c of
        Some (d, fmt) \<Rightarrow>
          if fmt = fmt_ymd \<or> fmt = fmt_compact then Some (take i s, Some (VDate d fmt))
          else first_full_date ch s cs
      | None \<Rightarrow> first_full_date ch s cs)"

fun first_any_version ::
  "('n, 'd) chrono \<Rightarrow> string \<Rightarrow> (nat \<times> string) list \<Rightarrow> (string \<times> 'd version option) option" where
  "first_any_version ch s [] = None"
| "first_any_version ch s ((i, c) # cs) =
     (case parse_date ch c of
        Some (d, fmt) \<Rightarrow> Some (take i s, Some (VDate d fmt))
      | None \<Rightarrow>
          if eq_ignore_ascii_case c ''latest'' then Some (take i s, Some Latest)
          else if eq_ignore_ascii_case c ''preview'' then Some (take i s, Some Preview)
          else first_any_version ch s cs)"

definition parse_candidates ::
  "('n, 'd) chrono \<Rightarrow> string \<Rightarrow> char \<Rightarrow> string \<times> 'd version option" where
  "parse_candidates ch s separator =
     (case first_full_date ch s (candidates s separator) of
        Some r \<Rightarrow> r
      | None \<Rightarrow>
          (case first_any_version ch s (candidates s separator) of
             Some r \<Rightarrow> r
           | None \<Rightarrow> (s, None)))"

definition dated_preview ::
  "('n, 'd) chrono \<Rightarrow> string \<Rightarrow> (string \<times> 'd version option) option" where
  "dated_preview ch s =
     (case rfind ''-preview-'' s of
        None \<Rightarrow> None
      | Some pos \<Rightarrow>
          (case parse_date ch (drop (pos + 9) s) of
             None \<Rightarrow> None
           | Some (d, fmt) \<Rightarrow> Some (take pos s, Some (DateVersionedPreview d fmt))))"

definition parse_model_and_version ::
  "('n, 'd) chrono \<Rightarrow> string \<Rightarrow> char \<Rightarrow> string \<times> 'd version option" where
  "parse_model_and_version ch s separator =
     (case dated_preview ch s of
        Some r \<Rightarrow> r
      | None \<Rightarrow>
          (case strip_suffix ''-preview'' s of
             Some model \<Rightarrow> (model, Some Preview)
           | None \<Rightarrow>
               (case strip_suffix ''-latest'' s of
                  Some model \<Rightarrow> (model, Some Latest)
                | None \<Rightarrow> parse_candidates ch s separator)))"

section \<open>Identifiers\<close>

record 'd model_id_with_version =
  mv_model :: string
  mv_version :: "'d version"

definition model_id_with_version_from_str ::
  "('n, 'd) chrono \<Rightarrow> string \<Rightarrow> (mapper_error, 'd model_id_with_version) result" where
  "model_id_with_version_from_str ch s =
     (if s = [] then Inl (InvalidModelName ''Model name cannot be empty'')
      else if ends_with ''-'' s then Inl (InvalidModelName ''Model name cannot end with dash'')
      else if ends_with ''.'' s then Inl (InvalidModelName ''Model name cannot end with dot'')
      else if ends_with ''@'' s then Inl (InvalidModelName ''Model name cannot end with @ symbol'')
      else (case parse_model_and_version ch s CHR ''-'' of
              (model, version) \<Rightarrow>
                Inr \<lparr>mv_model = model,
                     mv_version = (case version of None \<Rightarrow> ImplicitLatest | Some v \<Rightarrow> v)\<rparr>))"

definition model_id_with_version_display ::
  "('n, 'd) chrono \<Rightarrow> 'd model_id_with_version \<Rightarrow> string" where
  "model_id_with_version_display ch m =
     (case mv_version m of
        ImplicitLatest \<Rightarrow> mv_model m
      | v \<Rightarrow> mv_model m @ ''-'' @ version_display ch v)"

record ollama_model_id =
  ol_model :: string
  ol_tag :: "string option"

definition ollama_model_id_from_str :: "string \<Rightarrow> (mapper_error, ollama_model_id) result" where
  "ollama_model_id_from_str s =
     (case splitn2 CHR '':'' s of
        (model, tag) \<Rightarrow>
          Inr \<lparr>ol_model = model,
               ol_tag = (case tag of Some t \<Rightarrow> (if t \<noteq> [] then Some t else None) | None \<Rightarrow> None)\<rparr>)"

definition ollama_model_id_display :: "ollama_model_id \<Rightarrow> string" where
  "ollama_model_id_display m =
     (case ol_tag m of Some t \<Rightarrow> ol_model m @ '':'' @ t | None \<Rightarrow> ol_model m)"

record 'd bedrock_model_id =
  bd_provider :: string
  bd_model :: string
  bd_version :: "'d version option"
  bd_internal_version :: string

definition bedrock_model_id_from_str ::
  "('n, 'd) chrono \<Rightarrow> string \<Rightarrow> (mapper_error, 'd bedrock_model_id) result" where
  "bedrock_model_id_from_str ch s =
     (case splitn2 CHR ''.'' s of
        (provider, None) \<Rightarrow> Inl (InvalidModelName s)
      | (provider, Some rest) \<Rightarrow>
          (case rfind ''-v'' rest of
             None \<Rightarrow> Inl (InvalidModelName s)
           | Some v_pos \<Rightarrow>
               (case parse_model_and_version ch (take v_pos rest) CHR ''-'' of
                  (model, version) \<Rightarrow>
                    Inr \<lparr>bd_provider = provider, bd_model = model, bd_version = version,
                         bd_internal_version = drop (v_pos + 1) rest\<rparr>)))"

definition bedrock_model_id_display :: "('n, 'd) chrono \<Rightarrow> 'd bedrock_model_id \<Rightarrow> string" where
  "bedrock_model_id_display ch b =
     (case bd_version b of
        Some v \<Rightarrow> bd_provider b @ ''.'' @ bd_model b @ ''-'' @ version_display ch v @ ''-'' @
                  bd_internal_version b
      | None \<Rightarrow> bd_provider b @ ''.'' @ bd_model b @ ''-'' @ bd_internal_version b)"

datatype 'd model_id =
    ModelIdWithVersion inference_provider "'d model_id_with_version"
  | Bedrock "'d bedrock_model_id"
  | Ollama ollama_model_id
  | Unknown string

fun model_name_from_model :: "'d model_id \<Rightarrow> string" where
  "model_name_from_model (ModelIdWithVersion p m) = mv_model m"
| "model_name_from_model (Bedrock b) = bd_model b"
| "model_name_from_model (Ollama m) = ol_model m"
| "model_name_from_model (Unknown s) = s"

fun from_str_and_provider ::
  "('n, 'd) chrono \<Rightarrow> inference_provider \<Rightarrow> string \<Rightarrow> (mapper_error, 'd model_id) result" where
  "from_str_and_provider ch P_OpenAI s =
     rbind (model_id_with_version_from_str ch s) (\<lambda>m. Inr (ModelIdWithVersion P_OpenAI m))"
| "from_str_and_provider ch P_Anthropic s =
     rbind (model_id_with_version_from_str ch s) (\<lambda>m. Inr (ModelIdWithVersion P_Anthropic m))"
| "from_str_and_provider ch P_Bedrock s =
     rbind (bedrock_model_id_from_str ch s) (\<lambda>b. Inr (Bedrock b))"
| "from_str_and_provider ch P_Ollama s =
     rbind (ollama_model_id_from_str s) (\<lambda>m. Inr (Ollama m))"
| "from_str_and_provider ch P_GoogleGemini s =
     rbind (model_id_with_version_from_str ch s) (\<lambda>m. Inr (ModelIdWithVersion P_GoogleGemini m))"
| "from_str_and_provider ch (P_Named name) s =
     rbind (model_id_with_version_from_str ch s) (\<lambda>m. Inr (ModelIdWithVersion (P_Named name) m))"

fun model_inference_provider :: "'d model_id \<Rightarrow> inference_provider option" where
  "model_inference_provider (ModelIdWithVersion p m) = Some p"
| "model_inference_provider (Bedrock b) = Some P_Bedrock"
| "model_inference_provider (Ollama m) = Some P_Ollama"
| "model_inference_provider (Unknown s) = None"

fun model_id_display :: "('n, 'd) chrono \<Rightarrow> 'd model_id \<Rightarrow> string" where
  "model_id_display ch (ModelIdWithVersion p m) = model_id_with_version_display ch m"
| "model_id_display ch (Bedrock b) = bedrock_model_id_display ch b"
| "model_id_display ch (Ollama m) = ollama_model_id_display m"
| "model_id_display ch (Unknown s) = s"

text \<open>\<open>ModelId::from_str\<close>: \<open>{provider}/{model_name}\<close>.\<close>

definition model_id_from_str ::
  "('n, 'd) chrono \<Rightarrow> string \<Rightarrow> (mapper_error, 'd model_id) result" where
  "model_id_from_str ch s =
     (case splitn2 CHR ''/'' s of
        (provider_str, Some model_name) \<Rightarrow>
          if model_name = []
          then Inl (InvalidModelName ''Model name cannot be empty after provider'')
          else rbind (map_err (\<lambda>_. ME_ProviderNotSupported provider_str)
                        (provider_from_str provider_str))
                 (\<lambda>provider. from_str_and_provider ch provider model_name)
      | (provider_str, None) \<Rightarrow>
          Inl (InvalidModelName
                 (''Model string must be in format '' @ [CHR 0x27] @ ''{provider}/{model_name}'' @
                  [CHR 0x27] @ '', got '' @ [CHR 0x27] @ s @ [CHR 0x27])))"

section \<open>What a parsed version says about the text\<close>

text \<open>\<open>version_reads ch t v\<close>: the text \<open>t\<close> is a spelling of the version \<open>v\<close>.\<close>

fun version_reads :: "('n, 'd) chrono \<Rightarrow> string \<Rightarrow> 'd version \<Rightarrow> bool" where
  "version_reads ch t ImplicitLatest = False"
| "version_reads ch t Latest = eq_ignore_ascii_case t ''latest''"
| "version_reads ch t Preview = eq_ignore_ascii_case t ''preview''"
| "version_reads ch t (DateVersionedPreview d f) =
     (\<exists>r. t = ''preview-'' @ r \<and> parse_date ch r = Some (d, f))"
| "version_reads ch t (VDate d f) = (parse_date ch t = Some (d, f))"

lemma eq_ignore_ascii_case_refl [simp]: "eq_ignore_ascii_case s s"
  by (simp add: eq_ignore_ascii_case_def)

lemma eq_ignore_ascii_case_append:
  "eq_ignore_ascii_case s t \<Longrightarrow> eq_ignore_ascii_case (p @ s @ q) (p @ t @ q)"
  by (simp add: eq_ignore_ascii_case_def)

lemma eq_ignore_ascii_case_sym: "eq_ignore_ascii_case s t \<Longrightarrow> eq_ignore_ascii_case t s"
  by (simp add: eq_ignore_ascii_case_def)

lemma candidates_mem:
  "(i, c) \<in> set (candidates s sep) \<longleftrightarrow>
     i < length s \<and> s ! i = sep \<and> i \<noteq> length s - 1 \<and> c = drop (i + 1) s"
  by (auto simp: candidates_def)

lemma candidate_splits: "(i, c) \<in> set (candidates s sep) \<Longrightarrow> s = take i s @ sep # c"
  by (auto simp: candidates_mem intro: id_take_nth_drop)

lemma candidate_not_Nil: "(i, c) \<in> set (candidates s sep) \<Longrightarrow> c \<noteq> []"
  by (auto simp: candidates_mem)

lemma first_full_date_SomeD:
  "first_full_date ch s cs = Some (m, v) \<Longrightarrow>
     \<exists>i c d f. (i, c) \<in> set cs \<and> m = take i s \<and> v = Some (VDate d f) \<and> parse_date ch c = Some (d, f)"
proof (induction cs)
  case (Cons x cs)
  obtain i c where x: "x = (i, c)" by (cases x)
  show ?case
  proof (cases "\<exists>d f. parse_date ch c = Some (d, f) \<and> (f = fmt_ymd \<or> f = fmt_compact)")
    case True
    then obtain d f where d: "parse_date ch c = Some (d, f)" "f = fmt_ymd \<or> f = fmt_compact" by blast
    with Cons.prems x have "m = take i s" "v = Some (VDate d f)" by auto
    with d(1) x show ?thesis by (intro exI[of _ i] exI[of _ c] exI[of _ d] exI[of _ f]) simp
  next
    case False
    with Cons.prems x have "first_full_date ch s cs = Some (m, v)"
      by (auto split: option.splits if_splits)
    from Cons.IH[OF this] show ?thesis by auto
  qed
qed simp

lemma first_any_version_SomeD:
  "first_any_version ch s cs = Some (m, v) \<Longrightarrow>
     \<exists>i c v'. (i, c) \<in> set cs \<and> m = take i s \<and> v = Some v' \<and> version_reads ch c v'"
proof (induction cs)
  case (Cons x cs)
  obtain i c where x: "x = (i, c)" by (cases x)
  show ?case
  proof (cases "parse_date ch c")
    case (Some df)
    obtain d f where "df = (d, f)" by (cases df)
    with Some Cons.prems x show ?thesis
      by (intro exI[of _ i] exI[of _ c] exI[of _ "VDate d f"]) simp
  next
    case None
    consider "eq_ignore_ascii_case c ''latest''"
      | "\<not> eq_ignore_ascii_case c ''latest''" "eq_ignore_ascii_case c ''preview''"
      | "\<not> eq_ignore_ascii_case c ''latest''" "\<not> eq_ignore_ascii_case c ''preview''" by blast
    then show ?thesis
    proof cases
      case 1
      with None Cons.prems x show ?thesis by (intro exI[of _ i] exI[of _ c] exI[of _ Latest]) simp
    next
      case 2
      with None Cons.prems x show ?thesis by (intro exI[of _ i] exI[of _ c] exI[of _ Preview]) simp
    next
      case 3
      with None Cons.prems x have "first_any_version ch s cs = Some (m, v)" by simp
      from Cons.IH[OF this] show ?thesis by auto
    qed
  qed
qed simp

text \<open>Parsing loses no text: what is not the model is a separator and a spelling of the version.\<close>

lemma parse_candidates_sound:
  assumes "parse_candidates ch s sep = (m, v)"
  shows "(case v of None \<Rightarrow> m = s | Some v' \<Rightarrow> \<exists>t. s = m @ sep # t \<and> version_reads ch t v')"
proof (cases "first_full_date ch s (candidates s sep)")
  case (Some r)
  with assms have "first_full_date ch s (candidates s sep) = Some (m, v)"
    by (simp add: parse_candidates_def)
  from first_full_date_SomeD[OF this] show ?thesis using candidate_splits by fastforce
next
  case None
  show ?thesis
  proof (cases "first_any_version ch s (candidates s sep)")
    case (Some r)
    with assms None have "first_any_version ch s (candidates s sep) = Some (m, v)"
      by (simp add: parse_candidates_def)
    from first_any_version_SomeD[OF this] show ?thesis using candidate_splits by fastforce
  next
    case none: None
    with None assms show ?thesis by (auto simp: parse_candidates_def)
  qed
qed

lemma dated_preview_sound:
  assumes "dated_preview ch s = Some (m, v)"
  shows "\<exists>d f t. v = Some (DateVersionedPreview d f) \<and> s = m @ CHR ''-'' # t \<and>
           version_reads ch t (DateVersionedPreview d f)"
proof -
  from assms obtain pos d f where pos: "rfind ''-preview-'' s = Some pos"
    and d: "parse_date ch (drop (pos + 9) s) = Some (d, f)"
    and m: "m = take pos s" and v: "v = Some (DateVersionedPreview d f)"
    by (auto simp: dated_preview_def split: option.splits)
  have "s = m @ CHR ''-'' # (''preview-'' @ drop (pos + 9) s)"
    using rfind_splits[OF pos] m by (simp add: eval_nat_numeral)
  moreover have "version_reads ch (''preview-'' @ drop (pos + 9) s) (DateVersionedPreview d f)"
    using d by simp
  ultimately show ?thesis using v by blast
qed

lemma parse_model_and_version_sound:
  assumes "parse_model_and_version ch s CHR ''-'' = (m, v)"
  shows "(case v of None \<Rightarrow> m = s | Some v' \<Rightarrow> \<exists>t. s = m @ CHR ''-'' # t \<and> version_reads ch t v')"
proof (cases "dated_preview ch s")
  case (Some r)
  with assms have "dated_preview ch s = Some (m, v)" by (simp add: parse_model_and_version_def)
  from dated_preview_sound[OF this] show ?thesis by fastforce
next
  case None
  show ?thesis
  proof (cases "strip_suffix ''-preview'' s")
    case (Some r)
    with assms None have "s = m @ CHR ''-'' # ''preview''" "v = Some Preview"
      by (auto simp: parse_model_and_version_def strip_suffix_Some)
    then show ?thesis by fastforce
  next
    case np: None
    show ?thesis
    proof (cases "strip_suffix ''-latest'' s")
      case (Some r)
      with assms None np have "s = m @ CHR ''-'' # ''latest''" "v = Some Latest"
        by (auto simp: parse_model_and_version_def strip_suffix_Some)
      then show ?thesis by fastforce
    next
      case nl: None
      with assms None np have "parse_candidates ch s CHR ''-'' = (m, v)"
        by (simp add: parse_model_and_version_def)
      then show ?thesis by (rule parse_candidates_sound)
    qed
  qed
qed

section \<open>Round trips\<close>

text \<open>
  Zero-padded dates, the form the formats print. On them formatting inverts parsing: what the
  calendar library documents of \<open>%Y\<close>, \<open>%m\<close> and \<open>%d\<close> (four, two and two digits). It also
  parses some dates that are not padded, which is why the padding is asked for.
\<close>

abbreviation is_digit :: "char \<Rightarrow> bool" where "is_digit c \<equiv> char_digit c \<noteq> None"

definition digits_at :: "nat list \<Rightarrow> string \<Rightarrow> bool" where
  "digits_at is t \<longleftrightarrow> (\<forall>i \<in> set is. i < length t \<and> is_digit (t ! i))"

definition padded :: "string \<Rightarrow> string \<Rightarrow> bool" where
  "padded fmt t \<longleftrightarrow>
     (if fmt = fmt_ymd
      then length t = 10 \<and> digits_at [0, 1, 2, 3, 5, 6, 8, 9] t \<and> t ! 4 = CHR ''-'' \<and> t ! 7 = CHR ''-''
      else if fmt = fmt_compact then length t = 8 \<and> digits_at [0, 1, 2, 3, 4, 5, 6, 7] t
      else length t = 5 \<and> digits_at [0, 1, 3, 4] t \<and> t ! 2 = CHR ''-'')"

definition chrono_law :: "('n, 'd) chrono \<Rightarrow> bool" where
  "chrono_law ch \<longleftrightarrow>
     (\<forall>t d. padded fmt_ymd t \<longrightarrow> parse_as ch t fmt_ymd = Some d \<longrightarrow> format_date ch d fmt_ymd = t) \<and>
     (\<forall>t d. padded fmt_compact t \<longrightarrow> parse_as ch t fmt_compact = Some d \<longrightarrow>
        format_date ch d fmt_compact = t) \<and>
     (\<forall>t d. padded fmt_md t \<longrightarrow> parse_as ch (this_year ch @ ''-'' @ t) fmt_ymd = Some d \<longrightarrow>
        format_date ch d fmt_md = t)"

text \<open>Every part of the text that is read as a date is zero-padded.\<close>

definition dates_padded :: "('n, 'd) chrono \<Rightarrow> string \<Rightarrow> bool" where
  "dates_padded ch s \<longleftrightarrow>
     (\<forall>i j d f. parse_date ch (take j (drop i s)) = Some (d, f) \<longrightarrow> padded f (take j (drop i s)))"

lemma dates_padded_mid: "dates_padded ch (p @ t @ q) \<Longrightarrow> dates_padded ch t"
proof -
  assume h: "dates_padded ch (p @ t @ q)"
  show "dates_padded ch t"
    unfolding dates_padded_def
  proof (intro allI impI)
    fix i j d f assume "parse_date ch (take j (drop i t)) = Some (d, f)"
    moreover have "take j (drop i t) =
        take (min j (length (drop i t))) (drop (length p + i) (p @ t @ q))"
      by (cases "j \<le> length (drop i t)"; cases "i \<le> length t") (auto simp: min_def)
    ultimately show "padded f (take j (drop i t))" using h by (metis dates_padded_def)
  qed
qed

lemma dates_padded_suffix: "dates_padded ch (p @ t) \<Longrightarrow> dates_padded ch t"
  using dates_padded_mid[of ch p t "[]"] by simp

lemma dates_padded_prefix: "dates_padded ch (t @ q) \<Longrightarrow> dates_padded ch t"
  using dates_padded_mid[of ch "[]" t q] by simp

lemma dates_paddedD: "dates_padded ch t \<Longrightarrow> parse_date ch t = Some (d, f) \<Longrightarrow> padded f t"
  unfolding dates_padded_def by (metis drop0 take_all_iff order_refl)

lemma parse_date_format:
  "chrono_law ch \<Longrightarrow> parse_date ch t = Some (d, f) \<Longrightarrow> padded f t \<Longrightarrow> format_date ch d f = t"
  by (auto simp: chrono_law_def parse_date_def split: option.splits)

lemma version_display_reads:
  assumes "chrono_law ch" "dates_padded ch t" "version_reads ch t v"
  shows "eq_ignore_ascii_case (version_display ch v) t"
proof (cases v)
  case (DateVersionedPreview d f)
  with assms(3) obtain r where r: "t = ''preview-'' @ r" "parse_date ch r = Some (d, f)" by auto
  then have "padded f r"
    using assms(2) dates_padded_suffix[of ch "''preview-''" r] by (auto dest: dates_paddedD)
  with r DateVersionedPreview assms(1) show ?thesis by (simp add: parse_date_format)
next
  case (VDate d f)
  with assms have "padded f t" by (auto dest: dates_paddedD)
  with VDate assms show ?thesis by (simp add: parse_date_format)
qed (use assms in \<open>auto intro: eq_ignore_ascii_case_sym\<close>)

lemma with_version_display_parse:
  assumes law: "chrono_law ch" and pad: "dates_padded ch s"
    and parse: "model_id_with_version_from_str ch s = Inr m"
  shows "eq_ignore_ascii_case (model_id_with_version_display ch m) s"
proof -
  obtain mo v where pmv: "parse_model_and_version ch s CHR ''-'' = (mo, v)"
    by (cases "parse_model_and_version ch s CHR ''-''")
  with parse have m: "m = \<lparr>mv_model = mo, mv_version = (case v of None \<Rightarrow> ImplicitLatest | Some v \<Rightarrow> v)\<rparr>"
    by (auto simp: model_id_with_version_from_str_def split: if_splits)
  show ?thesis
  proof (cases v)
    case None
    with parse_model_and_version_sound[OF pmv] m show ?thesis
      by (simp add: model_id_with_version_display_def)
  next
    case (Some v')
    with parse_model_and_version_sound[OF pmv] obtain t
      where t: "s = mo @ CHR ''-'' # t" "version_reads ch t v'" by auto
    then have "dates_padded ch t" using pad dates_padded_suffix[of ch "mo @ ''-''" t] by simp
    with law t have "eq_ignore_ascii_case (version_display ch v') t"
      by (simp add: version_display_reads)
    moreover have "model_id_with_version_display ch m = mo @ ''-'' @ version_display ch v'"
      using m Some t by (cases v') (auto simp: model_id_with_version_display_def)
    ultimately show ?thesis
      using t eq_ignore_ascii_case_append[of "version_display ch v'" t "mo @ ''-''" "[]"] by simp
  qed
qed

lemma bedrock_display_parse:
  assumes law: "chrono_law ch" and pad: "dates_padded ch s"
    and parse: "bedrock_model_id_from_str ch s = Inr b"
  shows "eq_ignore_ascii_case (bedrock_model_id_display ch b) s"
proof -
  from parse obtain rest vp where sp: "splitn2 CHR ''.'' s = (bd_provider b, Some rest)"
    and vp: "rfind ''-v'' rest = Some vp"
    and pmv: "parse_model_and_version ch (take vp rest) CHR ''-'' = (bd_model b, bd_version b)"
    and iv: "bd_internal_version b = drop (vp + 1) rest"
    by (auto simp: bedrock_model_id_from_str_def split: prod.splits option.splits)
  define part where "part = take vp rest"
  have s: "s = bd_provider b @ ''.'' @ rest" using splitn2_sound[OF sp] by simp
  have rest: "rest = part @ ''-'' @ bd_internal_version b"
  proof -
    have r: "rest = part @ ''-v'' @ drop (vp + 2) rest" using rfind_splits[OF vp] by (simp add: part_def)
    have "length part = vp" using vp by (simp add: rfind_Some_iff part_def)
    with r have "drop (vp + 1) rest = CHR ''v'' # drop (vp + 2) rest"
      by (metis (no_types, lifting) append_Cons append_Nil append_eq_conv_conj append.assoc drop_Suc_Cons
          add.commute plus_1_eq_Suc drop_drop drop0)
    with r iv show ?thesis by simp
  qed
  show ?thesis
  proof (cases "bd_version b")
    case None
    with parse_model_and_version_sound[OF pmv] have "bd_model b = part" by (simp add: part_def)
    with None s rest show ?thesis by (simp add: bedrock_model_id_display_def)
  next
    case (Some v)
    with parse_model_and_version_sound[OF pmv] obtain t
      where t: "part = bd_model b @ CHR ''-'' # t" "version_reads ch t v" by (auto simp: part_def)
    have s': "s = (bd_provider b @ ''.'' @ bd_model b @ ''-'') @ t @ (''-'' @ bd_internal_version b)"
      using s rest t by simp
    with pad have "dates_padded ch t" using dates_padded_mid by metis
    with law t have "eq_ignore_ascii_case (version_display ch v) t" by (simp add: version_display_reads)
    from eq_ignore_ascii_case_append[OF this, of "bd_provider b @ ''.'' @ bd_model b @ ''-''"
        "''-'' @ bd_internal_version b"] Some s'
    show ?thesis by (simp add: bedrock_model_id_display_def)
  qed
qed

definition canonical_ollama :: "ollama_model_id \<Rightarrow> bool" where
  "canonical_ollama m \<longleftrightarrow> CHR '':'' \<notin> set (ol_model m) \<and> ol_tag m \<noteq> Some []"

interpretation ollama_text: text_codec ollama_model_id_display ollama_model_id_from_str canonical_ollama
proof unfold_locales
  fix m assume "canonical_ollama m"
  then show "ollama_model_id_from_str (ollama_model_id_display m) = Inr m"
    by (cases "ol_tag m")
      (auto simp: canonical_ollama_def ollama_model_id_display_def ollama_model_id_from_str_def
        splitn2_no_sep splitn2_append)
qed

lemma ollama_parse_canonical: "ollama_model_id_from_str s = Inr m \<Longrightarrow> canonical_ollama m"
  by (auto simp: ollama_model_id_from_str_def canonical_ollama_def dest!: splitn2_sound
      split: prod.splits option.splits if_splits)

lemma from_str_and_provider_provider:
  "from_str_and_provider ch p s = Inr m \<Longrightarrow> model_inference_provider m = Some p"
  by (cases p) auto

lemma with_version_ok_iff:
  "is_ok (model_id_with_version_from_str ch s) \<longleftrightarrow>
     s \<noteq> [] \<and> last s \<noteq> CHR ''-'' \<and> last s \<noteq> CHR ''.'' \<and> last s \<noteq> CHR ''@''"
proof -
  have e: "ends_with [c] s \<longleftrightarrow> s \<noteq> [] \<and> last s = c" for c
    by (cases s rule: rev_cases) (auto simp: ends_with_iff)
  show ?thesis by (auto simp: model_id_with_version_from_str_def e is_ok_iff split: prod.splits)
qed

lemma bedrock_ok_iff:
  "is_ok (bedrock_model_id_from_str ch s) \<longleftrightarrow>
     (\<exists>provider rest. splitn2 CHR ''.'' s = (provider, Some rest) \<and> str_contains ''-v'' rest)"
  by (auto simp: bedrock_model_id_from_str_def str_contains_def split: prod.split option.split)

section \<open>A calendar\<close>

text \<open>An instance of the calendar: the zero-padded dates, kept as their texts.\<close>

definition day_ok :: "string \<Rightarrow> string \<Rightarrow> bool" where
  "day_ok m d =
     (case (parse_unsigned 8 m, parse_unsigned 8 d) of
        (Some mi, Some di) \<Rightarrow> 1 \<le> mi \<and> mi \<le> 12 \<and> 1 \<le> di \<and> di \<le> 31
      | _ \<Rightarrow> False)"

type_synonym ymd = "string \<times> string \<times> string"

fun split_ymd :: "string \<Rightarrow> string \<Rightarrow> ymd option" where
  "split_ymd t fmt =
     (if fmt = fmt_ymd \<and> padded fmt_ymd t \<and> day_ok (take 2 (drop 5 t)) (drop 8 t)
      then Some (take 4 t, take 2 (drop 5 t), drop 8 t)
      else if fmt = fmt_compact \<and> padded fmt_compact t \<and> day_ok (take 2 (drop 4 t)) (drop 6 t)
      then Some (take 4 t, take 2 (drop 4 t), drop 6 t)
      else None)"

fun join_ymd :: "ymd \<Rightarrow> string \<Rightarrow> string" where
  "join_ymd (y, m, d) fmt =
     (if fmt = fmt_ymd then y @ ''-'' @ m @ ''-'' @ d
      else if fmt = fmt_compact then y @ m @ d else m @ ''-'' @ d)"

definition padded_calendar :: "(ymd, ymd) chrono" where
  "padded_calendar =
     \<lparr>parse_from_str = split_ymd, midnight_utc = Some, format_date = join_ymd, this_year = ''2025''\<rparr>"

lemma length_8_10_chars:
  "length t = 10 \<Longrightarrow> \<exists>a b c d e f g h i j. t = [a, b, c, d, e, f, g, h, i, j]"
  "length t = 8 \<Longrightarrow> \<exists>a b c d e f g h. t = [a, b, c, d, e, f, g, h]"
  "length t = 5 \<Longrightarrow> \<exists>a b c d e. t = [a, b, c, d, e]"
  by (auto simp: numeral_eq_Suc length_Suc_conv)

lemma padded_calendar_law: "chrono_law padded_calendar"
  unfolding chrono_law_def
  by (auto simp: parse_as_def padded_calendar_def padded_def split: if_splits dest!: length_8_10_chars)

lemma padded_calendar_dates: "dates_padded padded_calendar s"
proof -
  have "padded f t" if "parse_date padded_calendar t = Some (d, f)" for t d f
    using that
    by (auto simp: parse_date_def parse_as_def padded_calendar_def padded_def digits_at_def
        split: option.splits if_splits)
  then show ?thesis by (auto simp: dates_padded_def)
qed

lemma ascii_lower_slash [simp]: "ascii_lower c = CHR ''/'' \<longleftrightarrow> c = CHR ''/''"
proof
  assume h: "ascii_lower c = CHR ''/''"
  show "c = CHR ''/''"
  proof (cases "65 \<le> (of_char c :: nat) \<and> (of_char c :: nat) \<le> 90")
    case True
    then have "(of_char (ascii_lower c) :: nat) = of_char c + 32" by (simp add: ascii_lower_def)
    with True h show ?thesis by simp
  qed (use h in \<open>auto simp: ascii_lower_def\<close>)
qed (simp add: ascii_lower_def)

lemma ignore_case_no_slash:
  assumes "eq_ignore_ascii_case s t" "CHR ''/'' \<notin> set t"
  shows "CHR ''/'' \<notin> set s"
proof
  assume "CHR ''/'' \<in> set s"
  then have "ascii_lower CHR ''/'' \<in> ascii_lower ` set s" by (rule imageI)
  then have "ascii_lower CHR ''/'' \<in> ascii_lower ` set t"
    using assms(1) unfolding eq_ignore_ascii_case_def by (metis list.set_map)
  moreover have "ascii_lower CHR ''/'' = CHR ''/''" by simp
  ultimately show False using assms(2) by (metis (no_types, lifting) ascii_lower_slash image_iff)
qed

lemma ollama_display_no_slash:
  "ollama_model_id_from_str s = Inr m \<Longrightarrow> CHR ''/'' \<notin> set s \<Longrightarrow> CHR ''/'' \<notin> set (ollama_model_id_display m)"
  by (auto simp: ollama_model_id_from_str_def ollama_model_id_display_def dest!: splitn2_sound
      split: prod.splits option.splits if_splits)

lemma parsed_model_id:
  assumes "model_id_from_str ch s = Inr m"
  shows "\<exists>p name. s = provider_display p @ ''/'' @ name \<and> name \<noteq> [] \<and> CHR ''/'' \<notin> set (provider_display p) \<and>
    model_inference_provider m = Some p \<and> from_str_and_provider ch p name = Inr m"
proof -
  obtain ps name where sp: "splitn2 CHR ''/'' s = (ps, Some name)" "name \<noteq> []"
    using assms by (auto simp: model_id_from_str_def split: prod.splits option.splits if_splits)
  obtain p where p: "provider_from_str ps = Inr p" "provider_display p = ps"
    using provider_from_str_total by blast
  have m: "from_str_and_provider ch p name = Inr m"
    using assms sp p by (simp add: model_id_from_str_def)
  show ?thesis using splitn2_sound[OF sp(1)] sp(2) p m from_str_and_provider_provider[OF m] by auto
qed

section \<open>Properties\<close>



text \<open>A text that parses has the form \<open>provider/model\<close> with a nonempty model, and the identifier
  belongs to that provider; the unknown identifier is never the result.\<close>

theorem model_id_from_str_provider:
  assumes "model_id_from_str ch s = Inr m"
  shows "\<exists>p name. s = provider_display p @ ''/'' @ name \<and> name \<noteq> [] \<and> CHR ''/'' \<notin> set (provider_display p) \<and>
    model_inference_provider m = Some p \<and> from_str_and_provider ch p name = Inr m"
using assms by (rule parsed_model_id)

theorem model_id_from_str_provider_witness:
  "\<exists>m p name. model_id_from_str padded_calendar ''ollama/llama3:8b'' = Inr m \<and>
     ''ollama/llama3:8b'' = provider_display p @ ''/'' @ name \<and> model_inference_provider m = Some p"
proof -
  obtain m where m: "model_id_from_str padded_calendar ''ollama/llama3:8b'' = Inr m"
    by (simp add: model_id_from_str_def provider_from_str_def ollama_model_id_from_str_def)
  then show ?thesis using model_id_from_str_provider[OF m] by blast
qed

text \<open>The printed form of an identifier has no provider, and the parser asks for one: an
  identifier read from a model name without a slash is rejected when its printed form is read back, so
  serialization and deserialization are not inverse.\<close>

theorem model_id_display_not_parsed:
  assumes "chrono_law ch" "dates_padded ch name" "CHR ''/'' \<notin> set name"
    and "from_str_and_provider ch p name = Inr m"
  shows "\<not> is_ok (model_id_from_str ch (model_id_display ch m))"
proof -
  have "CHR ''/'' \<notin> set (model_id_display ch m)"
  proof (cases "p = P_Ollama")
    case True
    with assms(3,4) show ?thesis by (auto simp: ollama_display_no_slash)
  next
    case False
    with assms have "eq_ignore_ascii_case (model_id_display ch m) name"
      by (cases p) (auto simp: with_version_display_parse bedrock_display_parse)
    with assms(3) show ?thesis by (blast dest: ignore_case_no_slash)
  qed
  then show ?thesis by (simp add: model_id_from_str_def splitn2_no_sep)
qed

theorem model_id_display_not_parsed_witness:
  "\<exists>m. from_str_and_provider padded_calendar P_Ollama ''llama3'' = Inr m \<and>
       \<not> is_ok (model_id_from_str padded_calendar (model_id_display padded_calendar m))"
proof -
  obtain m where m: "from_str_and_provider padded_calendar P_Ollama ''llama3'' = Inr m"
    by (simp add: ollama_model_id_from_str_def)
  have "\<not> is_ok (model_id_from_str padded_calendar (model_id_display padded_calendar m))"
    by (rule model_id_display_not_parsed[OF padded_calendar_law padded_calendar_dates _ m]) simp
  with m show ?thesis by blast
qed

end
