(* ===== verification/Endpoints.thy ===== *)
theory Endpoints
  imports Model_Id
begin

text \<open>
  The endpoints (\<open>endpoints/\<close>): routes of the gateway's own API, the endpoint of a target
  provider for a source endpoint, its upstream path, the registry of body converters
  (\<open>middleware/mapper/registry.rs\<close>) and the parts of a chat request the gateway reads.
\<close>

section \<open>Routes, paths and endpoint types\<close>

datatype endpoint_route = ER_ChatCompletions

fun route_path :: "endpoint_route \<Rightarrow> string" where
  "route_path ER_ChatCompletions = ''/chat/completions''"

definition route_from_path :: "string \<Rightarrow> endpoint_route option" where
  "route_from_path path = (if path = ''/chat/completions'' then Some ER_ChatCompletions else None)"

fun openai_from_route :: "endpoint_route \<Rightarrow> (invalid_request_error, openai_endpoint) result" where
  "openai_from_route ER_ChatCompletions = Inr OpenAI_ChatCompletions"

definition api_endpoint_new :: "string \<Rightarrow> api_endpoint option" where
  "api_endpoint_new path =
     Option.bind (route_from_path path)
       (\<lambda>r. case openai_from_route r of Inr e \<Rightarrow> Some (EP_OpenAI e) | Inl _ \<Rightarrow> None)"

fun anthropic_from_openai :: "openai_endpoint \<Rightarrow> anthropic_endpoint" where
  "anthropic_from_openai OpenAI_ChatCompletions = Anthropic_Messages"
fun google_from_openai :: "openai_endpoint \<Rightarrow> google_endpoint" where
  "google_from_openai OpenAI_ChatCompletions = Google_GenerateContents"
fun ollama_from_openai :: "openai_endpoint \<Rightarrow> ollama_endpoint" where
  "ollama_from_openai OpenAI_ChatCompletions = Ollama_ChatCompletions"
fun bedrock_from_openai :: "openai_endpoint \<Rightarrow> bedrock_endpoint" where
  "bedrock_from_openai OpenAI_ChatCompletions = Bedrock_Converse"

fun openai_from_anthropic :: "anthropic_endpoint \<Rightarrow> openai_endpoint" where
  "openai_from_anthropic Anthropic_Messages = OpenAI_ChatCompletions"
fun openai_from_google :: "google_endpoint \<Rightarrow> openai_endpoint" where
  "openai_from_google Google_GenerateContents = OpenAI_ChatCompletions"
fun openai_from_ollama :: "ollama_endpoint \<Rightarrow> openai_endpoint" where
  "openai_from_ollama Ollama_ChatCompletions = OpenAI_ChatCompletions"

fun openai_path :: "openai_endpoint \<Rightarrow> string" where
  "openai_path OpenAI_ChatCompletions = ''/v1/chat/completions''"
fun anthropic_path :: "anthropic_endpoint \<Rightarrow> string" where
  "anthropic_path Anthropic_Messages = ''/v1/messages''"
fun google_path :: "google_endpoint \<Rightarrow> string" where
  "google_path Google_GenerateContents = ''/v1beta/openai/chat/completions''"
fun ollama_path :: "ollama_endpoint \<Rightarrow> string" where
  "ollama_path Ollama_ChatCompletions = ''/v1/chat/completions''"
fun bedrock_path :: "('n, 'd) chrono \<Rightarrow> bedrock_endpoint \<Rightarrow> 'd model_id \<Rightarrow> bool \<Rightarrow> string" where
  "bedrock_path ch Bedrock_Converse m is_stream =
     (if is_stream then ''/model/'' @ model_id_display ch m @ ''/converse-stream''
      else ''/model/'' @ model_id_display ch m @ ''/converse'')"

fun openai_endpoint_type :: "openai_endpoint \<Rightarrow> endpoint_type" where
  "openai_endpoint_type OpenAI_ChatCompletions = ET_Chat"
fun anthropic_endpoint_type :: "anthropic_endpoint \<Rightarrow> endpoint_type" where
  "anthropic_endpoint_type Anthropic_Messages = ET_Chat"
fun google_endpoint_type :: "google_endpoint \<Rightarrow> endpoint_type" where
  "google_endpoint_type Google_GenerateContents = ET_Chat"
fun ollama_endpoint_type :: "ollama_endpoint \<Rightarrow> endpoint_type" where
  "ollama_endpoint_type Ollama_ChatCompletions = ET_Chat"
fun bedrock_endpoint_type :: "bedrock_endpoint \<Rightarrow> endpoint_type" where
  "bedrock_endpoint_type Bedrock_Converse = ET_Chat"

fun endpoint_type_of :: "api_endpoint \<Rightarrow> endpoint_type" where
  "endpoint_type_of (EP_OpenAI e) = openai_endpoint_type e"
| "endpoint_type_of (EP_Anthropic e) = anthropic_endpoint_type e"
| "endpoint_type_of (EP_Google e) = google_endpoint_type e"
| "endpoint_type_of (EP_Ollama e) = ollama_endpoint_type e"
| "endpoint_type_of (EP_Bedrock e) = bedrock_endpoint_type e"

text \<open>\<open>ApiEndpoint::mapped\<close>.\<close>

definition endpoint_mapped ::
  "api_endpoint \<Rightarrow> inference_provider \<Rightarrow> (invalid_request_error, api_endpoint) result" where
  "endpoint_mapped source target =
     (case (source, target) of
        (EP_OpenAI e, P_Anthropic) \<Rightarrow> Inr (EP_Anthropic (anthropic_from_openai e))
      | (EP_OpenAI e, P_OpenAI) \<Rightarrow> Inr (EP_OpenAI e)
      | (EP_OpenAI e, P_GoogleGemini) \<Rightarrow> Inr (EP_Google (google_from_openai e))
      | (EP_OpenAI e, P_Ollama) \<Rightarrow> Inr (EP_Ollama (ollama_from_openai e))
      | (EP_OpenAI e, P_Bedrock) \<Rightarrow> Inr (EP_Bedrock (bedrock_from_openai e))
      | _ \<Rightarrow> Inl (UnsupportedProvider target))"

fun endpoint_path ::
  "('n, 'd) chrono \<Rightarrow> api_endpoint \<Rightarrow> 'd model_id option \<Rightarrow> bool \<Rightarrow> (internal_error, string) result" where
  "endpoint_path ch (EP_OpenAI e) m is_stream = Inr (openai_path e)"
| "endpoint_path ch (EP_Anthropic e) m is_stream = Inr (anthropic_path e)"
| "endpoint_path ch (EP_Google e) m is_stream = Inr (google_path e)"
| "endpoint_path ch (EP_Ollama e) m is_stream = Inr (ollama_path e)"
| "endpoint_path ch (EP_Bedrock e) m is_stream =
     (case m of
        Some model \<Rightarrow> Inr (bedrock_path ch e model is_stream)
      | None \<Rightarrow> Inl Internal)"

section \<open>Chat requests\<close>

text \<open>The messages of a chat request, with the text parts of the two kinds the gateway reads.\<close>

datatype message_content = MC_Text string | MC_Array "string list"

datatype chat_message =
    CM_Developer message_content
  | CM_System message_content
  | CM_User | CM_Assistant | CM_Tool | CM_Function

record chat_request =
  cr_model :: string
  cr_stream :: "bool option"
  cr_messages :: "chat_message list"

definition request_is_stream :: "chat_request \<Rightarrow> bool" where
  "request_is_stream r = (case cr_stream r of Some b \<Rightarrow> b | None \<Rightarrow> False)"

definition system_prompt :: "chat_request \<Rightarrow> string option" where
  "system_prompt r =
     (case cr_messages r of
        [] \<Rightarrow> None
      | message # _ \<Rightarrow>
          (case message of
             CM_Developer (MC_Text t) \<Rightarrow> Some t
           | CM_Developer (MC_Array ts) \<Rightarrow> Some (join_with [CHR 0x0A] ts)
           | CM_System (MC_Text t) \<Rightarrow> Some t
           | CM_System (MC_Array ts) \<Rightarrow> Some (join_with [CHR 0x0A] ts)
           | _ \<Rightarrow> None))"

section \<open>The converter registry\<close>

datatype converter =
    AnthropicConverter | GoogleGeminiConverter | OpenAIConverter | OllamaConverter | BedrockConverter

type_synonym registry_key = "api_endpoint \<times> api_endpoint"
type_synonym converter_registry = "registry_key \<rightharpoonup> converter"

definition register_converter ::
  "converter_registry \<Rightarrow> registry_key \<Rightarrow> converter \<Rightarrow> converter_registry" where
  "register_converter reg key c = reg(key \<mapsto> c)"

definition registry_new :: converter_registry where
  "registry_new =
     (let src = EP_OpenAI OpenAI_ChatCompletions;
          r1 = register_converter Map.empty (src, EP_Anthropic Anthropic_Messages) AnthropicConverter;
          r2 = register_converter r1 (src, EP_Google Google_GenerateContents) GoogleGeminiConverter;
          r3 = register_converter r2 (src, EP_OpenAI OpenAI_ChatCompletions) OpenAIConverter;
          r4 = register_converter r3 (src, EP_Ollama Ollama_ChatCompletions) OllamaConverter
      in register_converter r4 (src, EP_Bedrock Bedrock_Converse) BedrockConverter)"

definition get_converter :: "converter_registry \<Rightarrow> api_endpoint \<Rightarrow> api_endpoint \<Rightarrow> converter option" where
  "get_converter reg source target = reg (source, target)"

section \<open>Lemmas\<close>

lemma endpoint_types_chat [simp]:
  "openai_endpoint_type e1 = ET_Chat" "anthropic_endpoint_type e2 = ET_Chat"
  "google_endpoint_type e3 = ET_Chat" "ollama_endpoint_type e4 = ET_Chat"
  "bedrock_endpoint_type e5 = ET_Chat"
  by (cases e1, simp, cases e2, simp, cases e3, simp, cases e4, simp, cases e5, simp)

lemma from_openai_values [simp]:
  "anthropic_from_openai e = Anthropic_Messages" "google_from_openai e = Google_GenerateContents"
  "ollama_from_openai e = Ollama_ChatCompletions" "bedrock_from_openai e = Bedrock_Converse"
  by (cases e, simp)+

lemma endpoint_mapped_provider:
  "endpoint_mapped e p = Inr e' \<Longrightarrow> endpoint_provider e' = p \<and> endpoint_type_of e' = endpoint_type_of e"
  by (auto simp: endpoint_mapped_def split: api_endpoint.splits inference_provider.splits)

lemma endpoint_mapped_ok_iff:
  "is_ok (endpoint_mapped e p) \<longleftrightarrow> (\<exists>x. e = EP_OpenAI x) \<and> (\<forall>n. p \<noteq> P_Named n)"
  by (auto simp: endpoint_mapped_def split: api_endpoint.splits inference_provider.splits)

lemma api_endpoint_new_Some: "api_endpoint_new path = Some e \<Longrightarrow> e = EP_OpenAI OpenAI_ChatCompletions"
  by (auto simp: api_endpoint_new_def route_from_path_def split: if_splits)

lemma registry_new_mapped:
  "endpoint_mapped e p = Inr e' \<Longrightarrow> get_converter registry_new e e' \<noteq> None"
  by (auto simp: endpoint_mapped_def get_converter_def registry_new_def register_converter_def Let_def
      split: api_endpoint.splits inference_provider.splits intro: openai_endpoint.exhaust)

end
