(* ===== verification/Helicone_Config.thy ===== *)
theory Helicone_Config
  imports Gateway_Prelude
begin

text \<open>
  The \<open>helicone\<close> section of the configuration (\<open>config/helicone.rs\<close>): the feature levels, the
  hand-written deserializer that still reads the old boolean fields, and the part of
  \<open>Config::try_read\<close> (\<open>config/mod.rs\<close>) that merges the section with the serialized defaults.
  The JSON merge (\<open>json_patch::merge\<close>) and the URL parser are parameters.
\<close>

section \<open>The section and its features\<close>

datatype helicone_features = HF_None | HF_Auth | HF_All

record helicone_config =
  hc_api_key :: string
  hc_base_url :: string
  hc_websocket_url :: string
  hc_features :: helicone_features

definition is_auth_enabled :: "helicone_config \<Rightarrow> bool" where
  "is_auth_enabled c = (hc_features c = HF_Auth \<or> hc_features c = HF_All)"

definition is_auth_disabled :: "helicone_config \<Rightarrow> bool" where
  "is_auth_disabled c = (hc_features c = HF_None)"

definition is_observability_enabled :: "helicone_config \<Rightarrow> bool" where
  "is_observability_enabled c = (hc_features c = HF_All)"

definition default_api_key :: "(string \<rightharpoonup> string) \<Rightarrow> string" where
  "default_api_key env =
     (case env ''HELICONE_CONTROL_PLANE_API_KEY'' of Some k \<Rightarrow> k | None \<Rightarrow> ''sk-helicone-...'')"

definition default_base_url :: string where
  "default_base_url = ''https://api.helicone.ai''"

definition default_websocket_url :: string where
  "default_websocket_url = ''wss://api.helicone.ai/ws/v1/router/control-plane''"

definition helicone_config_default :: "(string \<rightharpoonup> string) \<Rightarrow> helicone_config" where
  "helicone_config_default env =
     \<lparr>hc_api_key = default_api_key env, hc_base_url = default_base_url,
      hc_websocket_url = default_websocket_url, hc_features = HF_None\<rparr>"

section \<open>Deserialization\<close>

datatype json_value = JV_Null | JV_Bool bool | JV_Str string | JV_Other

datatype de_error = DE_DuplicateField string | DE_UnknownField string | DE_InvalidType

datatype helicone_field =
    Field_ApiKey | Field_BaseUrl | Field_WebsocketUrl
  | Field_Features | Field_Authentication | Field_Observability

definition helicone_field_of :: "string \<Rightarrow> (de_error, helicone_field) result" where
  "helicone_field_of key =
     (if key = ''api-key'' then Inr Field_ApiKey
      else if key = ''base-url'' then Inr Field_BaseUrl
      else if key = ''websocket-url'' then Inr Field_WebsocketUrl
      else if key = ''features'' then Inr Field_Features
      else if key = ''authentication'' then Inr Field_Authentication
      else if key = ''observability'' then Inr Field_Observability
      else Inl (DE_UnknownField key))"

fun de_string :: "json_value \<Rightarrow> (de_error, string) result" where
  "de_string (JV_Str s) = Inr s"
| "de_string j = Inl DE_InvalidType"

fun de_bool :: "json_value \<Rightarrow> (de_error, bool) result" where
  "de_bool (JV_Bool b) = Inr b"
| "de_bool j = Inl DE_InvalidType"

definition de_url :: "(string \<rightharpoonup> string) \<Rightarrow> json_value \<Rightarrow> (de_error, string) result" where
  "de_url parse_url j = rbind (de_string j) (\<lambda>s. ok_or DE_InvalidType (parse_url s))"

definition de_features :: "json_value \<Rightarrow> (de_error, helicone_features) result" where
  "de_features j =
     rbind (de_string j) (\<lambda>s.
       if s = ''none'' then Inr HF_None
       else if s = ''auth'' then Inr HF_Auth
       else if s = ''all'' then Inr HF_All
       else Inl DE_InvalidType)"

text \<open>The six variables of \<open>visit_map\<close>, and one turn of its loop.\<close>

record helicone_partial =
  hp_api_key :: "string option"
  hp_base_url :: "string option"
  hp_websocket_url :: "string option"
  hp_features :: "helicone_features option"
  hp_authentication :: "bool option"
  hp_observability :: "bool option"

definition helicone_partial_empty :: helicone_partial where
  "helicone_partial_empty =
     \<lparr>hp_api_key = None, hp_base_url = None, hp_websocket_url = None, hp_features = None,
      hp_authentication = None, hp_observability = None\<rparr>"

fun helicone_field_step ::
  "(string \<rightharpoonup> string) \<Rightarrow> helicone_partial \<Rightarrow> helicone_field \<Rightarrow> json_value \<Rightarrow>
     (de_error, helicone_partial) result" where
  "helicone_field_step url st Field_ApiKey j =
     (if hp_api_key st \<noteq> None then Inl (DE_DuplicateField ''api_key'')
      else rbind (de_string j) (\<lambda>x. Inr (st\<lparr>hp_api_key := Some x\<rparr>)))"
| "helicone_field_step url st Field_BaseUrl j =
     (if hp_base_url st \<noteq> None then Inl (DE_DuplicateField ''base_url'')
      else rbind (de_url url j) (\<lambda>x. Inr (st\<lparr>hp_base_url := Some x\<rparr>)))"
| "helicone_field_step url st Field_WebsocketUrl j =
     (if hp_websocket_url st \<noteq> None then Inl (DE_DuplicateField ''websocket_url'')
      else rbind (de_url url j) (\<lambda>x. Inr (st\<lparr>hp_websocket_url := Some x\<rparr>)))"
| "helicone_field_step url st Field_Features j =
     (if hp_features st \<noteq> None then Inl (DE_DuplicateField ''features'')
      else rbind (de_features j) (\<lambda>x. Inr (st\<lparr>hp_features := Some x\<rparr>)))"
| "helicone_field_step url st Field_Authentication j =
     (if hp_authentication st \<noteq> None then Inl (DE_DuplicateField ''authentication'')
      else rbind (de_bool j) (\<lambda>x. Inr (st\<lparr>hp_authentication := Some x\<rparr>)))"
| "helicone_field_step url st Field_Observability j =
     (if hp_observability st \<noteq> None then Inl (DE_DuplicateField ''observability'')
      else rbind (de_bool j) (\<lambda>x. Inr (st\<lparr>hp_observability := Some x\<rparr>)))"

fun helicone_visit_loop ::
  "(string \<rightharpoonup> string) \<Rightarrow> helicone_partial \<Rightarrow> (string \<times> json_value) list \<Rightarrow>
     (de_error, helicone_partial) result" where
  "helicone_visit_loop url st [] = Inr st"
| "helicone_visit_loop url st ((key, j) # rest) =
     rbind (helicone_field_of key) (\<lambda>f.
     rbind (helicone_field_step url st f j) (\<lambda>st'. helicone_visit_loop url st' rest))"

definition resolve_features :: "helicone_partial \<Rightarrow> helicone_features" where
  "resolve_features st =
     (case hp_features st of
        Some f \<Rightarrow> f
      | None \<Rightarrow>
          (case (hp_authentication st, hp_observability st) of
             (_, Some True) \<Rightarrow> HF_All
           | (Some True, _) \<Rightarrow> HF_Auth
           | _ \<Rightarrow> HF_None))"

definition helicone_visit_map ::
  "(string \<rightharpoonup> string) \<Rightarrow> (string \<rightharpoonup> string) \<Rightarrow> (string \<times> json_value) list \<Rightarrow>
     (de_error, helicone_config) result" where
  "helicone_visit_map env url entries =
     rbind (helicone_visit_loop url helicone_partial_empty entries) (\<lambda>st. Inr
       \<lparr>hc_api_key = (case hp_api_key st of Some k \<Rightarrow> k | None \<Rightarrow> default_api_key env),
        hc_base_url = (case hp_base_url st of Some u \<Rightarrow> u | None \<Rightarrow> default_base_url),
        hc_websocket_url = (case hp_websocket_url st of Some u \<Rightarrow> u | None \<Rightarrow> default_websocket_url),
        hc_features = resolve_features st\<rparr>)"

section \<open>Reading the configuration\<close>

text \<open>
  The derived \<open>Serialize\<close> of the section (a \<open>Secret\<close> prints as stars), and what
  \<open>Config::try_read\<close> does with the section: the defaults are serialized, the input is merged into
  them, the result is deserialized, and the API key is read again from the environment.
\<close>

fun features_name :: "helicone_features \<Rightarrow> string" where
  "features_name HF_None = ''none''"
| "features_name HF_Auth = ''auth''"
| "features_name HF_All = ''all''"

definition helicone_serialize :: "helicone_config \<Rightarrow> (string \<times> json_value) list" where
  "helicone_serialize c =
     [(''api-key'', JV_Str ''*****''), (''base-url'', JV_Str (hc_base_url c)),
      (''websocket-url'', JV_Str (hc_websocket_url c)),
      (''features'', JV_Str (features_name (hc_features c)))]"

type_synonym json_object = "(string \<times> json_value) list"

definition helicone_try_read ::
  "(json_object \<Rightarrow> json_object \<Rightarrow> json_object) \<Rightarrow> (string \<rightharpoonup> string) \<Rightarrow> (string \<rightharpoonup> string) \<Rightarrow>
     json_object \<Rightarrow> (de_error, helicone_config) result" where
  "helicone_try_read merge env url input =
     rbind (helicone_visit_map env url (merge (helicone_serialize (helicone_config_default env)) input))
       (\<lambda>c. Inr (case env ''HELICONE_CONTROL_PLANE_API_KEY'' of
                   Some k \<Rightarrow> c\<lparr>hc_api_key := k\<rparr> | None \<Rightarrow> c))"

text \<open>JSON merge patch (RFC 7396) on members that are not objects.\<close>

definition merge_patch_law :: "(json_object \<Rightarrow> json_object \<Rightarrow> json_object) \<Rightarrow> bool" where
  "merge_patch_law merge =
     (\<forall>target patch k. map_of (merge target patch) k =
        (case map_of patch k of
           None \<Rightarrow> map_of target k
         | Some JV_Null \<Rightarrow> None
         | Some j \<Rightarrow> Some j))"

section \<open>Lemmas\<close>

lemma auth_states: "is_auth_disabled c \<longleftrightarrow> \<not> is_auth_enabled c"
  by (cases "hc_features c") (auto simp: is_auth_disabled_def is_auth_enabled_def)

text \<open>
  What a run of the loop has read of one field: a reader is the variable of the field (\<open>get\<close>), its
  key and its decoder, and the step is the only place that sets the variable.
\<close>

locale field_reader =
  fixes url :: "string \<rightharpoonup> string" and get :: "helicone_partial \<Rightarrow> 'a option"
    and F :: helicone_field and K :: string and dec :: "json_value \<Rightarrow> (de_error, 'a) result"
  assumes step_own: "helicone_field_step url st F j = Inr st' \<Longrightarrow>
      get st = None \<and> (\<exists>x. dec j = Inr x \<and> get st' = Some x)"
    and step_other: "helicone_field_step url st f j = Inr st' \<Longrightarrow> f \<noteq> F \<Longrightarrow> get st' = get st"
    and key: "helicone_field_of k = Inr F \<longleftrightarrow> k = K"
begin

lemma loop_set:
  "helicone_visit_loop url st entries = Inr st' \<Longrightarrow> get st = Some x \<Longrightarrow>
     get st' = Some x \<and> K \<notin> fst ` set entries"
proof (induction entries arbitrary: st)
  case (Cons e es)
  obtain k j f st1 where e: "e = (k, j)" "helicone_field_of k = Inr f"
    "helicone_field_step url st f j = Inr st1" "helicone_visit_loop url st1 es = Inr st'"
    using Cons.prems(1) by (cases e) auto
  have "f \<noteq> F" using step_own e(3) Cons.prems(2) by fastforce
  then have "k \<noteq> K" "get st1 = Some x" using key[of k] e Cons.prems(2) step_other by auto
  then show ?case using Cons.IH[OF e(4)] e(1) by auto
qed simp

lemma loop_unset:
  "helicone_visit_loop url st entries = Inr st' \<Longrightarrow> get st = None \<Longrightarrow>
     (case map_of entries K of
        None \<Rightarrow> get st' = None
      | Some j \<Rightarrow> \<exists>x. dec j = Inr x \<and> get st' = Some x)"
proof (induction entries arbitrary: st)
  case (Cons e es)
  obtain k j f st1 where e: "e = (k, j)" "helicone_field_of k = Inr f"
    "helicone_field_step url st f j = Inr st1" "helicone_visit_loop url st1 es = Inr st'"
    using Cons.prems(1) by (cases e) auto
  show ?case
  proof (cases "f = F")
    case True
    then obtain x where "dec j = Inr x" "get st1 = Some x" using step_own e(3) by blast
    then show ?thesis using loop_set[OF e(4)] True e(1,2) key by auto
  next
    case False
    then have "k \<noteq> K" "get st1 = None" using key[of k] e Cons.prems(2) step_other by auto
    then show ?thesis using Cons.IH[OF e(4)] e(1) by simp
  qed
qed simp

end

text \<open>Each arm of the step sets the variable of its field and no other.\<close>

lemma field_step_frame:
  assumes "helicone_field_step url st f j = Inr st'"
  shows "f \<noteq> Field_Features \<Longrightarrow> hp_features st' = hp_features st"
    and "f \<noteq> Field_Authentication \<Longrightarrow> hp_authentication st' = hp_authentication st"
    and "f \<noteq> Field_Observability \<Longrightarrow> hp_observability st' = hp_observability st"
  using assms by (cases f; auto split: if_splits)+

interpretation features_reader: field_reader url hp_features Field_Features "''features''" de_features
  by unfold_locales (auto simp: helicone_field_of_def field_step_frame split: if_splits)

interpretation authentication_reader:
  field_reader url hp_authentication Field_Authentication "''authentication''" de_bool
  by unfold_locales (auto simp: helicone_field_of_def field_step_frame split: if_splits)

interpretation observability_reader:
  field_reader url hp_observability Field_Observability "''observability''" de_bool
  by unfold_locales (auto simp: helicone_field_of_def field_step_frame split: if_splits)

text \<open>The precedence of the three fields, over the text of the section.\<close>

definition spec_features :: "json_object \<Rightarrow> helicone_features" where
  "spec_features entries =
     (if map_of entries ''features'' \<noteq> None
      then (case de_features (the (map_of entries ''features'')) of Inr f \<Rightarrow> f | Inl _ \<Rightarrow> HF_None)
      else if map_of entries ''observability'' = Some (JV_Bool True) then HF_All
      else if map_of entries ''authentication'' = Some (JV_Bool True) then HF_Auth
      else HF_None)"

lemma de_bool_Ok [simp]: "de_bool j = Inr b \<longleftrightarrow> j = JV_Bool b"
  by (cases j) auto

lemma visit_map_spec:
  assumes "helicone_visit_map env url entries = Inr c"
  shows "hc_features c = spec_features entries"
proof -
  obtain st where st: "helicone_visit_loop url helicone_partial_empty entries = Inr st"
    "hc_features c = resolve_features st"
    using assms by (auto simp: helicone_visit_map_def)
  have e: "hp_features helicone_partial_empty = None" "hp_authentication helicone_partial_empty = None"
    "hp_observability helicone_partial_empty = None" by (simp_all add: helicone_partial_empty_def)
  note r = features_reader.loop_unset[OF st(1) e(1)] authentication_reader.loop_unset[OF st(1) e(2)]
    observability_reader.loop_unset[OF st(1) e(3)]
  show ?thesis unfolding st(2) using r
    by (auto simp: resolve_features_def spec_features_def split: option.splits bool.splits)
qed

section \<open>Properties\<close>

text \<open>The deserializer gives \<open>features\<close> precedence over the old fields, and among those
  \<open>observability\<close> over \<open>authentication\<close>; with none of the three true, no feature is on.\<close>

theorem helicone_features_precedence:
  assumes "helicone_visit_map env url entries = Inr c"
  shows "hc_features c = spec_features entries"
  using assms by (rule visit_map_spec)

theorem helicone_features_precedence_witness:
  "\<exists>c. helicone_visit_map Map.empty Some
         [(''authentication'', JV_Bool True), (''observability'', JV_Bool False)] = Inr c \<and>
       hc_features c = HF_Auth"
proof -
  let ?es = "[(''authentication'', JV_Bool True), (''observability'', JV_Bool False)]"
  obtain c where c: "helicone_visit_map Map.empty Some ?es = Inr c"
    by (simp add: helicone_visit_map_def helicone_field_of_def helicone_partial_empty_def)
  have "hc_features c = spec_features ?es" by (rule helicone_features_precedence[OF c])
  then show ?thesis using c by (simp add: spec_features_def)
qed

text \<open>Read through \<open>Config::try_read\<close>, the old fields have no effect: the serialized defaults
  always contain \<open>features\<close>, so a section that asks for \<open>authentication\<close> or \<open>observability\<close> but does
  not name \<open>features\<close> leaves authentication off.\<close>

theorem try_read_ignores_legacy_fields:
  assumes "merge_patch_law merge" and "map_of input ''features'' = None"
    and "helicone_try_read merge env url input = Inr c"
  shows "is_auth_disabled c \<and> \<not> is_observability_enabled c"
proof -
  let ?es = "merge (helicone_serialize (helicone_config_default env)) input"
  obtain d where d: "helicone_visit_map env url ?es = Inr d" and "hc_features c = hc_features d"
    using assms(3) by (auto simp: helicone_try_read_def split: option.splits)
  moreover have "map_of ?es ''features'' = Some (JV_Str ''none'')"
    using assms(1,2) by (simp add: merge_patch_law_def helicone_serialize_def helicone_config_default_def)
  ultimately show ?thesis using visit_map_spec[OF d]
    by (simp add: spec_features_def de_features_def is_auth_disabled_def is_observability_enabled_def)
qed

definition merge_patch :: "json_object \<Rightarrow> json_object \<Rightarrow> json_object" where
  "merge_patch target patch =
     map (\<lambda>(k, j). (k, the (map_of patch k))) (filter (\<lambda>(k, j). map_of patch k \<noteq> Some JV_Null) patch) @
     filter (\<lambda>(k, j). map_of patch k = None) target"

lemma map_of_filter_key: "map_of (filter (\<lambda>(k, j). P k) xs) k = (if P k then map_of xs k else None)"
  by (induction xs) auto

lemma map_of_map_key: "map_of (map (\<lambda>(k, j). (k, f k)) xs) k = (if k \<in> fst ` set xs then Some (f k) else None)"
  by (induction xs) auto

lemma merge_patch_law_merge_patch: "merge_patch_law merge_patch"
  unfolding merge_patch_law_def merge_patch_def
  by (auto simp: map_add_def map_of_filter_key map_of_map_key map_of_eq_None_iff image_iff
      split: option.splits json_value.splits dest: map_of_SomeD) (force dest: map_of_SomeD)+

theorem try_read_ignores_legacy_fields_witness:
  "\<exists>c. helicone_try_read merge_patch Map.empty Some [(''authentication'', JV_Bool True)] = Inr c \<and>
       is_auth_disabled c"
proof -
  obtain c where c: "helicone_try_read merge_patch Map.empty Some [(''authentication'', JV_Bool True)] = Inr c"
    by (simp add: helicone_try_read_def helicone_visit_map_def merge_patch_def helicone_serialize_def
        helicone_field_of_def helicone_partial_empty_def de_url_def de_features_def helicone_config_default_def)
  have "is_auth_disabled c \<and> \<not> is_observability_enabled c"
    by (rule try_read_ignores_legacy_fields[OF merge_patch_law_merge_patch _ c]) simp
  then show ?thesis using c by blast
qed

end
