(* ===== verification/Config.thy ===== *)
theory Config
  imports Endpoints F64 Helicone_Config
begin

text \<open>
  The configuration (\<open>config/\<close>): load balancers, routers, providers and model mappings, their
  validation at start-up, and the run-time lookup that the validation is for, the model mapper
  (\<open>middleware/mapper/model.rs\<close>). A \<open>HashMap\<close>, \<open>NEMap\<close> or \<open>NESet\<close> is the list of its entries in
  the order in which it iterates, which the program does not control; lemmas hold for each order.
  \<open>rust_decimal\<close> is a parameter, a record of the operations the program calls.
\<close>

section \<open>Aborts\<close>

text \<open>A call that may panic: the panic is an error of its own.\<close>

datatype 'e abort = Panicked | Failed 'e

fun lift_err :: "('e \<Rightarrow> 'f) \<Rightarrow> 'e abort \<Rightarrow> 'f abort" where
  "lift_err f Panicked = Panicked"
| "lift_err f (Failed e) = Failed (f e)"

section \<open>Decimals\<close>

record 'w decimal_ops =
  dec_zero :: 'w
  dec_one :: 'w
  dec_checked_add :: "'w \<Rightarrow> 'w \<Rightarrow> 'w option"
  dec_to_f64 :: "'w \<Rightarrow> f64 option"
  dec_display :: "'w \<Rightarrow> string"

text \<open>\<open>Iterator::sum\<close>; an addition that overflows panics, which is \<open>None\<close> here.\<close>

fun dec_sum :: "'w decimal_ops \<Rightarrow> 'w \<Rightarrow> 'w list \<Rightarrow> 'w option" where
  "dec_sum D acc [] = Some acc"
| "dec_sum D acc (w # ws) = Option.bind (dec_checked_add D acc w) (\<lambda>a. dec_sum D a ws)"

section \<open>Balancers\<close>

record 'w balance_target =
  bt_provider :: inference_provider
  bt_weight :: 'w

datatype 'w balance_config_inner =
    Weighted "'w balance_target list"
  | Latency "inference_provider list"

type_synonym 'w balance_config = "(endpoint_type \<times> 'w balance_config_inner) list"

fun inner_providers :: "'w balance_config_inner \<Rightarrow> inference_provider list" where
  "inner_providers (Weighted targets) = index_set_of (map bt_provider targets)"
| "inner_providers (Latency ps) = index_set_of ps"

definition balance_providers :: "'w balance_config \<Rightarrow> inference_provider list" where
  "balance_providers bc = index_set_of (concat (map (inner_providers \<circ> snd) bc))"

definition balance_config_default :: "'w balance_config" where
  "balance_config_default = [(ET_Chat, Latency [P_OpenAI, P_Anthropic, P_GoogleGemini])]"

section \<open>Routers\<close>

text \<open>Durations are counted in nanoseconds.\<close>

type_synonym duration = nat

abbreviation secs :: "nat \<Rightarrow> duration" where "secs n \<equiv> n * 1000000000"

record cache_config =
  cc_directive :: "string option"
  cc_buckets :: nat
  cc_seed :: "string option"

record gcra_config =
  gc_refill_frequency :: duration
  gc_capacity :: nat

record limits_config =
  lc_per_api_key :: gcra_config

datatype rate_limit_store = RLS_InMemory | RLS_Redis string duration

datatype router_rate_limit_config =
    RRL_None
  | RRL_Custom "rate_limit_store option" limits_config

datatype retry_strategy = Exponential duration duration

record retry_config =
  rt_enabled :: bool
  rt_max_retries :: nat
  rt_strategy :: retry_strategy

type_synonym model_mapping_config = "(string \<times> string list) list"

record 'w router_config =
  rc_load_balance :: "'w balance_config"
  rc_model_mappings :: "model_mapping_config option"
  rc_cache :: "cache_config option"
  rc_retries :: "retry_config option"
  rc_rate_limit :: router_rate_limit_config

definition router_config_default :: "'w router_config" where
  "router_config_default =
     \<lparr>rc_load_balance = balance_config_default, rc_model_mappings = None, rc_cache = None,
      rc_retries = None, rc_rate_limit = RRL_None\<rparr>"

fun rate_limit_is_disabled :: "router_rate_limit_config \<Rightarrow> bool" where
  "rate_limit_is_disabled RRL_None = True"
| "rate_limit_is_disabled (RRL_Custom store limits) = False"

text \<open>\<open>RouterConfig::validate\<close>.\<close>

fun balancer_validate ::
  "'w decimal_ops \<Rightarrow> 'w balance_config_inner \<Rightarrow> (init_error abort, unit) result" where
  "balancer_validate D (Weighted targets) =
     (case dec_sum D (dec_zero D) (map bt_weight targets) of
        None \<Rightarrow> Inl Panicked
      | Some w_total \<Rightarrow>
          (if w_total \<noteq> dec_one D
           then Inl (Failed (InvalidWeightedBalancer
                       (''Balance weights dont sum to 1: '' @ dec_display D w_total)))
           else Inr ()))"
| "balancer_validate D (Latency ps) = Inr ()"

definition router_config_validate ::
  "'w decimal_ops \<Rightarrow> 'w router_config \<Rightarrow> (init_error abort, unit) result" where
  "router_config_validate D rc = try_each (\<lambda>(et, b). balancer_validate D b) (rc_load_balance rc)"

section \<open>Providers and the whole configuration\<close>

record global_provider_config =
  gp_models :: "string list"
  gp_base_url :: string
  gp_version :: "string option"

type_synonym providers_config = "(inference_provider \<times> global_provider_config) list"

definition DEFAULT_ANTHROPIC_VERSION :: string where
  "DEFAULT_ANTHROPIC_VERSION = ''2023-06-01''"

text \<open>Health monitoring, discovery, dispatching, response headers and the middleware stores.\<close>

datatype grace_period = GP_Requests nat

datatype 'w health_monitor_config =
  ErrorRatio (hm_ratio: 'w) (hm_window: duration) (hm_buckets: nat) (hm_interval: duration)
    (hm_grace_period: grace_period)

record 'w monitor_config =
  mc_health :: "'w health_monitor_config"

text \<open>The constant is \<open>0.15\<close> as a double.\<close>

definition DEFAULT_ERROR_THRESHOLD :: f64 where
  "DEFAULT_ERROR_THRESHOLD = f64_of_rat (15 / 100)"

definition error_threshold :: "'w decimal_ops \<Rightarrow> 'w monitor_config \<Rightarrow> f64" where
  "error_threshold D mc =
     (case mc_health mc of ErrorRatio ratio _ _ _ _ \<Rightarrow>
        (case dec_to_f64 D ratio of Some x \<Rightarrow> x | None \<Rightarrow> DEFAULT_ERROR_THRESHOLD))"

definition monitor_grace_period :: "'w monitor_config \<Rightarrow> grace_period" where
  "monitor_grace_period mc = hm_grace_period (mc_health mc)"

definition health_interval :: "'w monitor_config \<Rightarrow> duration" where
  "health_interval mc = hm_interval (mc_health mc)"

definition health_monitor_default :: "'w \<Rightarrow> 'w health_monitor_config" where
  "health_monitor_default default_ratio =
     ErrorRatio default_ratio (secs 60) 10 (secs 5) (GP_Requests 20)"

datatype provider_keys_source = PKS_Env
datatype discover_mode = DM_Config

record 'w discover_config =
  dc_api_keys_source :: provider_keys_source
  dc_discover_mode :: discover_mode
  dc_discover_decay :: duration
  dc_default_rtt :: duration
  dc_monitor :: "'w monitor_config"

definition discover_config_default :: "'w \<Rightarrow> 'w discover_config" where
  "discover_config_default default_ratio =
     \<lparr>dc_api_keys_source = PKS_Env, dc_discover_mode = DM_Config, dc_discover_decay = secs 30,
      dc_default_rtt = secs 1, dc_monitor = \<lparr>mc_health = health_monitor_default default_ratio\<rparr>\<rparr>"

text \<open>\<open>DiscoverConfig::provider_keys\<close>.\<close>

definition discover_provider_keys ::
  "(string \<rightharpoonup> string) \<Rightarrow> 'w discover_config \<Rightarrow> 'w router_config \<Rightarrow> (inference_provider \<rightharpoonup> provider_key)" where
  "discover_provider_keys env dc rc =
     (case dc_api_keys_source dc of
        PKS_Env \<Rightarrow> keys_from_env env (balance_providers (rc_load_balance rc)))"

record dispatcher_config =
  dp_timeout :: duration
  dp_connection_timeout :: duration

definition dispatcher_config_default :: dispatcher_config where
  "dispatcher_config_default = \<lparr>dp_timeout = secs (60 * 15), dp_connection_timeout = secs 10\<rparr>"

record response_headers_config =
  rh_provider :: bool
  rh_provider_request_id :: bool

definition response_headers_config_default :: response_headers_config where
  "response_headers_config_default = \<lparr>rh_provider = True, rh_provider_request_id = True\<rparr>"

datatype deployment_target = DT_Cloud | DT_Sidecar

datatype cache_store = CS_Redis string | CS_InMemory nat

definition cache_store_default :: cache_store where
  "cache_store_default = CS_InMemory (1024 * 1024 * 256)"

record global_rate_limit_config =
  gl_limits :: "limits_config option"
  gl_cleanup_interval :: duration

definition global_rate_limit_config_default :: global_rate_limit_config where
  "global_rate_limit_config_default = \<lparr>gl_limits = None, gl_cleanup_interval = secs (60 * 5)\<rparr>"

record middleware_config =
  mw_cache :: "cache_config option"
  mw_rate_limit :: "global_rate_limit_config option"

text \<open>
  The configuration without the settings of the telemetry (Telemetry.thy) and of the listening socket, the
  object store and the database (Settings.thy), which only reach the libraries that implement those.
\<close>

record 'w config =
  cfg_dispatcher :: dispatcher_config
  cfg_discover :: "'w discover_config"
  cfg_response_headers :: response_headers_config
  cfg_deployment_target :: deployment_target
  cfg_default_model_mapping :: model_mapping_config
  cfg_helicone :: helicone_config
  cfg_providers :: providers_config
  cfg_cache_store :: cache_store
  cfg_rate_limit_store :: rate_limit_store
  cfg_global :: middleware_config
  cfg_routers :: "(router_id \<times> 'w router_config) list"

text \<open>\<open>Index\<close> of an \<open>IndexMap\<close>: a missing key panics.\<close>

definition index_map :: "('k \<times> 'v) list \<Rightarrow> 'k \<Rightarrow> ('e abort, 'v) result" where
  "index_map m k = ok_or Panicked (map_of m k)"

text \<open>\<open>ROUTER_ID_REGEX\<close>, which is \<open>^[A-Za-z0-9_-]{1,12}$\<close>.\<close>

definition router_id_char :: "char \<Rightarrow> bool" where
  "router_id_char c =
     (let n = (of_char c :: nat) in
      (65 \<le> n \<and> n \<le> 90) \<or> (97 \<le> n \<and> n \<le> 122) \<or> (48 \<le> n \<and> n \<le> 57) \<or>
      c = CHR ''_'' \<or> c = CHR ''-'')"

definition router_id_matches :: "string \<Rightarrow> bool" where
  "router_id_matches s = (1 \<le> length s \<and> length s \<le> 12 \<and> list_all router_id_char s)"

section \<open>Validation of the model mappings\<close>

text \<open>\<open>Config::can_map_model\<close>.\<close>

definition any_offered :: "model_mapping_config \<Rightarrow> string \<Rightarrow> string list \<Rightarrow> bool" where
  "any_offered mapping source_model target_models =
     (case map_of mapping source_model of
        Some alternatives \<Rightarrow> list_ex (\<lambda>m. m \<in> set target_models) alternatives
      | None \<Rightarrow> False)"

definition can_map_model ::
  "'w config \<Rightarrow> string \<Rightarrow> inference_provider \<Rightarrow> string list \<Rightarrow> router_id \<Rightarrow> 'w router_config \<Rightarrow>
     (model_mapping_validation_error, unit) result" where
  "can_map_model cfg source_model target_provider target_models router_id router_config =
     (if source_model \<in> set target_models then Inr ()
      else if (case rc_model_mappings router_config of
                 Some mappings \<Rightarrow> any_offered mappings source_model target_models
               | None \<Rightarrow> False)
      then Inr ()
      else if any_offered (cfg_default_model_mapping cfg) source_model target_models then Inr ()
      else Inl (MV_NoValidMapping router_id source_model target_provider))"

text \<open>\<open>Config::validate_mapping_models_exist\<close>.\<close>

definition mapping_models_exist ::
  "string list \<Rightarrow> model_mapping_config \<Rightarrow> (model_mapping_validation_error, unit) result" where
  "mapping_models_exist all_provider_models mapping =
     try_each (\<lambda>(source_model, target_models).
       if source_model \<notin> set all_provider_models then Inl (MV_ModelNotFound source_model)
       else try_each (\<lambda>t. if t \<notin> set all_provider_models then Inl (MV_ModelNotFound t) else Inr ())
              target_models) mapping"

definition validate_mapping_models_exist ::
  "'w config \<Rightarrow> (model_mapping_validation_error, unit) result" where
  "validate_mapping_models_exist cfg =
     (let all_provider_models = index_set_of (concat (map (gp_models \<circ> snd) (cfg_providers cfg)))
      in rbind (mapping_models_exist all_provider_models (cfg_default_model_mapping cfg)) (\<lambda>_.
           try_each (\<lambda>(rid, rc). case rc_model_mappings rc of
                Some mappings \<Rightarrow> mapping_models_exist all_provider_models mappings
              | None \<Rightarrow> Inr ()) (cfg_routers cfg)))"

text \<open>The loop body of \<open>Config::validate_model_mappings\<close> for one router, and the function.\<close>

fun collect_models ::
  "providers_config \<Rightarrow> inference_provider list \<Rightarrow> ('e abort, string list) result" where
  "collect_models providers [] = Inr []"
| "collect_models providers (p # ps) =
     rbind (index_map providers p) (\<lambda>pc.
     rbind (collect_models providers ps) (\<lambda>ms. Inr (gp_models pc @ ms)))"

definition validate_router_mappings ::
  "'w config \<Rightarrow> router_id \<Rightarrow> 'w router_config \<Rightarrow>
     (model_mapping_validation_error abort, unit) result" where
  "validate_router_mappings cfg router_id router_config =
     (let router_providers = balance_providers (rc_load_balance router_config) in
      rbind (try_each (\<lambda>p. if map_of (cfg_providers cfg) p = None
                            then Inl (Failed (MV_ProviderNotConfigured router_id p)) else Inr ())
               router_providers) (\<lambda>_.
      rbind (collect_models (cfg_providers cfg) router_providers) (\<lambda>all_models.
      try_each (\<lambda>target_provider.
        rbind (index_map (cfg_providers cfg) target_provider) (\<lambda>target_config.
        try_each (\<lambda>source_model.
          map_err Failed (can_map_model cfg source_model target_provider (gp_models target_config)
                            router_id router_config)) (index_set_of all_models)))
        router_providers)))"

definition validate_model_mappings ::
  "'w config \<Rightarrow> (model_mapping_validation_error abort, unit) result" where
  "validate_model_mappings cfg =
     rbind (map_err Failed (validate_mapping_models_exist cfg)) (\<lambda>_.
       try_each (\<lambda>(rid, rc). validate_router_mappings cfg rid rc) (cfg_routers cfg))"

text \<open>\<open>Config::validate\<close>.\<close>

definition config_validate ::
  "'w decimal_ops \<Rightarrow> 'w config \<Rightarrow> (init_error abort, unit) result" where
  "config_validate D cfg =
     rbind (try_each (\<lambda>(rid, rc).
       rbind (router_config_validate D rc) (\<lambda>_.
         if \<not> router_id_matches (router_id_display rid)
         then Inl (Failed (InvalidRouterId (router_id_display rid))) else Inr ()))
       (cfg_routers cfg)) (\<lambda>_.
     map_err (lift_err InvalidMappingsConfig) (validate_model_mappings cfg))"

section \<open>The model mapper\<close>

text \<open>\<open>ModelMapper::map_model\<close>; a mapper made without a router has no router configuration.\<close>

definition first_offered :: "model_mapping_config \<Rightarrow> string \<Rightarrow> string list \<Rightarrow> string option" where
  "first_offered mapping source_model offered =
     Option.bind (map_of mapping source_model) (List.find (\<lambda>m. m \<in> set offered))"

definition map_model ::
  "('n, 'd) chrono \<Rightarrow> 'w config \<Rightarrow> 'w router_config option \<Rightarrow> 'd model_id \<Rightarrow> inference_provider \<Rightarrow>
     (mapper_error, 'd model_id) result" where
  "map_model ch cfg router_config source_model target_provider =
     rbind (ok_or (NoProviderConfig target_provider) (map_of (cfg_providers cfg) target_provider))
       (\<lambda>provider_config.
         let offered = gp_models provider_config;
             source_model_name = model_name_from_model source_model;
             router_target =
               Option.bind (Option.bind router_config rc_model_mappings)
                 (\<lambda>m. first_offered m source_model_name offered)
         in if source_model_name \<in> set offered then Inr source_model
            else case router_target of
                Some target_model \<Rightarrow> from_str_and_provider ch target_provider target_model
              | None \<Rightarrow>
                  rbind (ok_or (NoModelMapping target_provider source_model_name)
                           (first_offered (cfg_default_model_mapping cfg) source_model_name offered))
                    (\<lambda>t. from_str_and_provider ch target_provider t))"

section \<open>Lemmas\<close>

lemma set_balance_providers [simp]:
  "set (balance_providers bc) = (\<Union>b \<in> set bc. set (inner_providers (snd b)))"
  by (simp add: balance_providers_def)

lemma collect_models_ok:
  "(\<And>p. p \<in> set ps \<Longrightarrow> map_of providers p \<noteq> None) \<Longrightarrow>
     \<exists>ms. collect_models providers ps = (Inr ms :: ('e abort, string list) result) \<and>
       set ms = (\<Union>p \<in> set ps. set (gp_models (the (map_of providers p))))"
proof (induction ps)
  case (Cons p ps)
  obtain pc where "map_of providers p = Some pc" using Cons.prems by fastforce
  moreover obtain ms where "collect_models providers ps = (Inr ms :: ('e abort, string list) result)"
    "set ms = (\<Union>p \<in> set ps. set (gp_models (the (map_of providers p))))"
    using Cons by auto
  ultimately show ?case by (auto simp: index_map_def)
qed simp

lemma find_Some_ex: "(\<exists>t. List.find P xs = Some t) \<longleftrightarrow> list_ex P xs"
  by (induction xs) auto

lemma any_offered_iff:
  "any_offered mapping s ts \<longleftrightarrow> (\<exists>t. first_offered mapping s ts = Some t)"
  by (simp add: any_offered_def first_offered_def find_Some_ex split: option.split)

lemma first_offered_SomeD: "first_offered mapping s ts = Some t \<Longrightarrow> t \<in> set ts"
  by (auto simp: first_offered_def find_Some_iff split: bind_splits)

lemma can_map_model_ok_iff:
  "can_map_model cfg s p ts rid rc = Inr () \<longleftrightarrow>
     s \<in> set ts \<or> (\<exists>mm. rc_model_mappings rc = Some mm \<and> any_offered mm s ts) \<or>
     any_offered (cfg_default_model_mapping cfg) s ts"
  by (auto simp: can_map_model_def split: option.splits)

lemma try_each_skip [simp]: "try_each (\<lambda>x. Inr ()) xs = Inr ()"
  by simp

lemma try_each_cong_set:
  "xs = ys \<Longrightarrow> (\<And>x. x \<in> set ys \<Longrightarrow> f x = g x) \<Longrightarrow> try_each f xs = try_each g ys"
proof -
  have "(\<And>x. x \<in> set ys \<Longrightarrow> f x = g x) \<Longrightarrow> try_each f ys = try_each g ys"
    by (induction ys) auto
  then show "xs = ys \<Longrightarrow> (\<And>x. x \<in> set ys \<Longrightarrow> f x = g x) \<Longrightarrow> try_each f xs = try_each g ys" by blast
qed

text \<open>
  The validation of one router, once its providers are known to be configured: neither the
  collection of the models nor the indexing panics.
\<close>

definition configured :: "'w config \<Rightarrow> 'w router_config \<Rightarrow> bool" where
  "configured cfg rc =
     (\<forall>p \<in> set (balance_providers (rc_load_balance rc)). map_of (cfg_providers cfg) p \<noteq> None)"

abbreviation models_of :: "'w config \<Rightarrow> inference_provider \<Rightarrow> string list" where
  "models_of cfg p \<equiv> gp_models (the (map_of (cfg_providers cfg) p))"

lemma validate_router_mappings_configured:
  assumes "configured cfg rc"
  obtains ms where "set ms = (\<Union>p \<in> set (balance_providers (rc_load_balance rc)). set (models_of cfg p))"
    and "validate_router_mappings cfg rid rc =
      try_each (\<lambda>p. try_each (\<lambda>s. map_err Failed (can_map_model cfg s p (models_of cfg p) rid rc))
        (index_set_of ms)) (balance_providers (rc_load_balance rc))"
proof -
  let ?ps = "balance_providers (rc_load_balance rc)"
  obtain ms where ms: "collect_models (cfg_providers cfg) ?ps = (Inr ms :: (model_mapping_validation_error abort, _) result)"
    "set ms = (\<Union>p \<in> set ?ps. set (models_of cfg p))"
    using collect_models_ok[of ?ps "cfg_providers cfg"] assms unfolding configured_def by blast
  have "try_each (\<lambda>p. if map_of (cfg_providers cfg) p = None
          then Inl (Failed (MV_ProviderNotConfigured rid p)) else Inr ()) ?ps =
        (Inr () :: (model_mapping_validation_error abort, unit) result)"
    using assms unfolding configured_def try_each_Ok_iff by auto
  moreover have "rbind (index_map (cfg_providers cfg) p) f = f (the (map_of (cfg_providers cfg) p))"
    if "p \<in> set ?ps" for p and f :: "global_provider_config \<Rightarrow> (model_mapping_validation_error abort, unit) result"
    using assms that unfolding configured_def index_map_def
    by (cases "map_of (cfg_providers cfg) p") (auto simp del: set_balance_providers)
  ultimately have "validate_router_mappings cfg rid rc =
      try_each (\<lambda>p. try_each (\<lambda>s. map_err Failed (can_map_model cfg s p (models_of cfg p) rid rc))
        (index_set_of ms)) ?ps"
    unfolding validate_router_mappings_def Let_def ms(1)
    by (simp del: set_balance_providers cong: try_each_cong_set)
  with ms(2) that show thesis by blast
qed

lemma validate_router_mappings_okD:
  "validate_router_mappings cfg rid rc = Inr () \<Longrightarrow> configured cfg rc"
  unfolding configured_def validate_router_mappings_def Let_def rbind_Ok_iff try_each_Ok_iff
  by (force split: if_splits)

lemma validate_router_mappings_ok_iff:
  "validate_router_mappings cfg rid rc = Inr () \<longleftrightarrow>
     configured cfg rc \<and>
     (\<forall>p \<in> set (balance_providers (rc_load_balance rc)).
        \<forall>q \<in> set (balance_providers (rc_load_balance rc)).
        \<forall>s \<in> set (models_of cfg q). can_map_model cfg s p (models_of cfg p) rid rc = Inr ())"
proof (cases "configured cfg rc")
  case True
  then obtain ms where "set ms = (\<Union>p \<in> set (balance_providers (rc_load_balance rc)). set (models_of cfg p))"
    "validate_router_mappings cfg rid rc =
      try_each (\<lambda>p. try_each (\<lambda>s. map_err Failed (can_map_model cfg s p (models_of cfg p) rid rc))
        (index_set_of ms)) (balance_providers (rc_load_balance rc))"
    by (rule validate_router_mappings_configured)
  then show ?thesis using True by (auto simp del: set_balance_providers)
qed (use validate_router_mappings_okD in blast)

lemma config_validate_routers:
  assumes "config_validate D cfg = Inr ()" and "(rid, rc) \<in> set (cfg_routers cfg)"
  shows "router_config_validate D rc = Inr ()" "router_id_matches (router_id_display rid)"
    "validate_router_mappings cfg rid rc = Inr ()"
  using assms by (force simp: config_validate_def validate_model_mappings_def split: if_splits)+

text \<open>
  The mapping the validation and the mapper have in common: the first alternative of the router's
  own mapping that the target offers, else that of the default mapping.
\<close>

definition mapping_choice ::
  "model_mapping_config \<Rightarrow> model_mapping_config option \<Rightarrow> string \<Rightarrow> string list \<Rightarrow> string option" where
  "mapping_choice default_mapping router_mapping name offered =
     (case Option.bind router_mapping (\<lambda>m. first_offered m name offered) of
        Some t \<Rightarrow> Some t
      | None \<Rightarrow> first_offered default_mapping name offered)"

lemma mapping_choice_offered: "mapping_choice dm rm name offered = Some t \<Longrightarrow> t \<in> set offered"
  by (auto simp: mapping_choice_def dest: first_offered_SomeD split: option.splits bind_splits)

lemma can_map_model_choice:
  "can_map_model cfg s p ts rid rc = Inr () \<longleftrightarrow>
     s \<in> set ts \<or> mapping_choice (cfg_default_model_mapping cfg) (rc_model_mappings rc) s ts \<noteq> None"
  by (auto simp: can_map_model_ok_iff any_offered_iff mapping_choice_def split: option.splits bind_splits)

lemma map_model_choice:
  "map_model ch cfg rc m p =
     (case map_of (cfg_providers cfg) p of
        None \<Rightarrow> Inl (NoProviderConfig p)
      | Some pc \<Rightarrow>
          if model_name_from_model m \<in> set (gp_models pc) then Inr m
          else case mapping_choice (cfg_default_model_mapping cfg) (Option.bind rc rc_model_mappings)
                      (model_name_from_model m) (gp_models pc) of
              Some t \<Rightarrow> from_str_and_provider ch p t
            | None \<Rightarrow> Inl (NoModelMapping p (model_name_from_model m)))"
  by (simp add: map_model_def Let_def mapping_choice_def split: option.split)

lemma validated_choice:
  assumes "config_validate D cfg = Inr ()" "(rid, rc) \<in> set (cfg_routers cfg)"
    and "p \<in> set (balance_providers (rc_load_balance rc))"
    and "q \<in> set (balance_providers (rc_load_balance rc))" "s \<in> set (models_of cfg q)"
  shows "\<exists>pc. map_of (cfg_providers cfg) p = Some pc \<and> (s \<in> set (gp_models pc) \<or>
      mapping_choice (cfg_default_model_mapping cfg) (rc_model_mappings rc) s (gp_models pc) \<noteq> None)"
proof -
  have v: "validate_router_mappings cfg rid rc = Inr ()" by (rule config_validate_routers[OF assms(1,2)])
  then obtain pc where "map_of (cfg_providers cfg) p = Some pc"
    using validate_router_mappings_okD assms(3) unfolding configured_def by blast
  moreover have "can_map_model cfg s p (models_of cfg p) rid rc = Inr ()"
    using v assms(3-5) unfolding validate_router_mappings_ok_iff by blast
  ultimately show ?thesis by (simp add: can_map_model_choice)
qed

text \<open>A Bedrock identifier is longer than the model name under which it is looked up.\<close>

lemma bedrock_name_shorter:
  assumes "bedrock_model_id_from_str ch s = Inr b"
  shows "length (bd_model b) < length s"
proof -
  obtain pr rest v where s: "splitn2 CHR ''.'' s = (pr, Some rest)" and v: "rfind ''-v'' rest = Some v"
    and b: "bd_model b = fst (parse_model_and_version ch (take v rest) CHR ''-'')"
    using assms by (auto simp: bedrock_model_id_from_str_def split: prod.splits option.splits)
  have "length (bd_model b) \<le> length (take v rest)"
    using parse_model_and_version_sound[of ch "take v rest"] unfolding b
    by (cases "parse_model_and_version ch (take v rest) CHR ''-''")
       (fastforce split: option.splits dest: arg_cong[where f = length])
  then show ?thesis using splitn2_sound[of "CHR ''.''" s] s by auto
qed

lemma try_each_no_panic:
  "(\<And>x. x \<in> set xs \<Longrightarrow> f x \<noteq> Inl Panicked) \<Longrightarrow> try_each f xs \<noteq> Inl Panicked"
  by (blast dest: try_each_ErrD)

lemma map_err_Failed_no_panic [simp]: "map_err Failed r \<noteq> Inl Panicked"
  by (cases r) auto

lemma validate_router_mappings_no_panic: "validate_router_mappings cfg rid rc \<noteq> Inl Panicked"
proof (cases "configured cfg rc")
  case True
  then show ?thesis
    by (rule validate_router_mappings_configured[of cfg rc rid]) (simp only:, intro try_each_no_panic, simp)
next
  case False
  then show ?thesis
    by (auto simp: validate_router_mappings_def configured_def rbind_Err_iff Let_def
        simp del: set_balance_providers dest!: try_each_ErrD split: if_splits)
qed

section \<open>A concrete configuration\<close>

text \<open>Percentages as weights: an instance of the decimal operations, and a router that uses it.\<close>

definition percent_ops :: "nat decimal_ops" where
  "percent_ops = \<lparr>dec_zero = 0, dec_one = 100,
     dec_checked_add = (\<lambda>a b. if a + b < 2 ^ 96 then Some (a + b) else None),
     dec_to_f64 = (\<lambda>w. Some (f64_of_rat (of_nat w / 100))), dec_display = show_nat\<rparr>"

definition base_config :: "nat config" where
  "base_config =
     \<lparr>cfg_dispatcher = dispatcher_config_default, cfg_discover = discover_config_default 10,
      cfg_response_headers = response_headers_config_default, cfg_deployment_target = DT_Sidecar,
      cfg_default_model_mapping = [], cfg_helicone = helicone_config_default Map.empty,
      cfg_providers = [], cfg_cache_store = cache_store_default, cfg_rate_limit_store = RLS_InMemory,
      cfg_global = \<lparr>mw_cache = None, mw_rate_limit = None\<rparr>, cfg_routers = []\<rparr>"

definition sample_config :: "nat config" where
  "sample_config = base_config
     \<lparr>cfg_default_model_mapping := [(''gpt-4o'', [''claude-3-opus'']), (''claude-3-opus'', [''gpt-4o''])],
      cfg_providers :=
        [(P_OpenAI, \<lparr>gp_models = [''gpt-4o''], gp_base_url = ''https://api.openai.com'', gp_version = None\<rparr>),
         (P_Anthropic, \<lparr>gp_models = [''claude-3-opus''], gp_base_url = ''https://api.anthropic.com'',
                        gp_version = Some ''2023-06-01''\<rparr>)],
      cfg_routers :=
        [(R_Default, \<lparr>rc_load_balance =
            [(ET_Chat, Weighted [\<lparr>bt_provider = P_OpenAI, bt_weight = 75\<rparr>,
                                 \<lparr>bt_provider = P_Anthropic, bt_weight = 25\<rparr>])],
          rc_model_mappings = None, rc_cache = None, rc_retries = None, rc_rate_limit = RRL_None\<rparr>)]\<rparr>"

definition sample_router :: "nat router_config" where
  "sample_router = snd (hd (cfg_routers sample_config))"

lemma sample_config_valid: "config_validate percent_ops sample_config = Inr ()"
  by (simp add: config_validate_def sample_config_def router_config_validate_def percent_ops_def
      router_id_matches_def router_id_char_def validate_model_mappings_def validate_mapping_models_exist_def
      mapping_models_exist_def validate_router_mappings_def balance_providers_def index_map_def
      can_map_model_def any_offered_def)

lemma sample_config_router:
  "(R_Default, sample_router) \<in> set (cfg_routers sample_config)"
  "set (balance_providers (rc_load_balance sample_router)) = {P_OpenAI, P_Anthropic}"
  by (auto simp: sample_router_def sample_config_def)

section \<open>Properties\<close>


definition sample_gpt :: "ymd model_id" where
  "sample_gpt = ModelIdWithVersion P_OpenAI \<lparr>mv_model = ''gpt-4o'', mv_version = ImplicitLatest\<rparr>"


text \<open>A validated configuration has only router ids of one to twelve letters, digits, dashes and
  underscores, and the weights of each weighted balancer add up to one.\<close>

theorem validated_routers_wellformed:
  assumes "config_validate D cfg = Inr ()" "(rid, rc) \<in> set (cfg_routers cfg)"
  shows "router_id_matches (router_id_display rid) \<and>
    (\<forall>et targets. (et, Weighted targets) \<in> set (rc_load_balance rc) \<longrightarrow>
       dec_sum D (dec_zero D) (map bt_weight targets) = Some (dec_one D))"
  using config_validate_routers[OF assms]
  by (force simp: router_config_validate_def split: option.splits if_splits)

theorem validated_routers_wellformed_witness:
  "dec_sum percent_ops (dec_zero percent_ops) [75, 25] = Some (dec_one percent_ops)"
  using validated_routers_wellformed[OF sample_config_valid sample_config_router(1)]
  by (auto simp: sample_router_def sample_config_def)

text \<open>The validation of the model mappings does not panic: each provider it indexes has been
  looked up before.\<close>

theorem validate_model_mappings_no_panic: "validate_model_mappings cfg \<noteq> Inl Panicked"
  unfolding validate_model_mappings_def
  by (auto simp: rbind_Err_iff validate_router_mappings_no_panic dest!: try_each_ErrD)

text \<open>The validation accepts a Bedrock model under its listed name, but the mapper looks it up
  under the stripped name: a Bedrock provider that lists only \<open>s\<close> is valid for the model \<open>s\<close>, and yet,
  unless the stripped name is mapped, the request for \<open>s\<close> has no model mapping.\<close>

theorem bedrock_listed_model_not_found:
  assumes "from_str_and_provider ch P_Bedrock s = Inr m"
    and "map_of (cfg_providers cfg) P_Bedrock = Some pc" "gp_models pc = [s]"
    and "map_of (cfg_default_model_mapping cfg) (model_name_from_model m) = None"
    and "rc_model_mappings rc = None"
  shows "can_map_model cfg s P_Bedrock (gp_models pc) rid rc = Inr () \<and>
    map_model ch cfg (Some rc) m P_Bedrock = Inl (NoModelMapping P_Bedrock (model_name_from_model m))"
proof -
  have "length (model_name_from_model m) < length s" using assms(1) by (auto dest: bedrock_name_shorter)
  then have "model_name_from_model m \<noteq> s" by auto
  then show ?thesis using assms
    by (simp add: can_map_model_choice map_model_choice mapping_choice_def first_offered_def)
qed

definition sample_bedrock_config :: "nat config" where
  "sample_bedrock_config = base_config
     \<lparr>cfg_providers :=
        [(P_Bedrock, \<lparr>gp_models = [''amazon.nova-pro-v1:0''],
           gp_base_url = ''https://bedrock-runtime.us-east-1.amazonaws.com'', gp_version = None\<rparr>)]\<rparr>"

theorem bedrock_listed_model_not_found_witness:
  "\<exists>m. from_str_and_provider padded_calendar P_Bedrock ''amazon.nova-pro-v1:0'' = Inr m \<and>
     map_model padded_calendar sample_bedrock_config (Some (router_config_default :: nat router_config)) m P_Bedrock =
       Inl (NoModelMapping P_Bedrock (model_name_from_model m))"
proof -
  let ?s = "''amazon.nova-pro-v1:0''"
  have "str_contains ''-v'' ''nova-pro-v1:0''"
    by (simp add: str_contains_def rfind_def starts_with_def numeral_eq_Suc upt_rec)
  then obtain m where m: "from_str_and_provider padded_calendar P_Bedrock ?s = Inr m"
    using bedrock_ok_iff[of padded_calendar ?s] by (auto simp: is_ok_iff)
  have "can_map_model sample_bedrock_config ?s P_Bedrock (gp_models (snd (hd (cfg_providers sample_bedrock_config))))
          R_Default router_config_default = Inr () \<and>
        map_model padded_calendar sample_bedrock_config (Some router_config_default) m P_Bedrock =
          Inl (NoModelMapping P_Bedrock (model_name_from_model m))"
    by (rule bedrock_listed_model_not_found[OF m])
       (simp_all add: sample_bedrock_config_def base_config_def router_config_default_def)
  with m show ?thesis by blast
qed

end
