(* ===== verification/Router.thy ===== *)
theory Router
  imports Config
begin

text \<open>
  Routing (\<open>router/\<close>): the meta router that dispatches a request by its path (\<open>meta.rs\<close>), the
  router that chooses between a balancer and the direct proxy (\<open>service.rs\<close>), and the state
  machine of the unified API (\<open>unified_api.rs\<close>). Parameters: \<open>PathAndQuery::from_str\<close> of the
  \<open>http\<close> crate, the JSON parser of the request body, and what the inner services answer to a poll.
\<close>

section \<open>Requests\<close>

record path_and_query =
  pq_path :: string
  pq_query :: "string option"

record 'd mapper_context =
  mx_is_stream :: bool
  mx_model :: "'d model_id option"

record ('b, 'd) request =
  rq_path :: string
  rq_query :: "string option"
  rq_body :: 'b
  ext_path_and_query :: "path_and_query option"
  ext_api_endpoint :: "api_endpoint option"
  ext_mapper_context :: "'d mapper_context option"
  ext_provider :: "inference_provider option"

datatype 'a poll = Pending | Ready 'a

fun is_pending :: "'a poll \<Rightarrow> bool" where
  "is_pending Pending = True"
| "is_pending (Ready x) = False"

section \<open>The URL pattern\<close>

text \<open>
  \<open>URL_REGEX\<close> is \<open>^/router/(?P<id>[A-Za-z0-9_-]{1,12})(?P<path>/[^?]*)?(?P<query>\?.*)?$\<close>. The
  matcher returns the three captures. The group \<open>id\<close> is the whole run of its characters, since
  what may follow it is none of them; the dot matches every character but a line feed.
\<close>

definition query_capture :: "string \<Rightarrow> string option option" where
  "query_capture t =
     (if t = [] then Some None
      else if starts_with ''?'' t \<and> CHR 0x0A \<notin> set t then Some (Some t)
      else None)"

definition path_query_captures :: "string \<Rightarrow> (string option \<times> string option) option" where
  "path_query_captures t =
     (if starts_with ''/'' t
      then map_option (\<lambda>q. (Some (takeWhile (\<lambda>c. c \<noteq> CHR ''?'') t), q))
             (query_capture (dropWhile (\<lambda>c. c \<noteq> CHR ''?'') t))
      else map_option (\<lambda>q. (None, q)) (query_capture t))"

definition url_captures :: "string \<Rightarrow> (string \<times> string option \<times> string option) option" where
  "url_captures s =
     Option.bind (strip_prefix ''/router/'' s) (\<lambda>rest.
       let id_str = takeWhile router_id_char rest in
       if 1 \<le> length id_str \<and> length id_str \<le> 12
       then map_option (\<lambda>pq. (id_str, pq)) (path_query_captures (dropWhile router_id_char rest))
       else None)"

text \<open>What the pattern says, part by part.\<close>

definition url_pattern :: "string \<Rightarrow> string \<Rightarrow> string option \<Rightarrow> string option \<Rightarrow> bool" where
  "url_pattern s id_str path query \<longleftrightarrow>
     s = ''/router/'' @ id_str @ (case path of None \<Rightarrow> [] | Some p \<Rightarrow> p) @
           (case query of None \<Rightarrow> [] | Some q \<Rightarrow> q) \<and>
     router_id_matches id_str \<and>
     (\<forall>p. path = Some p \<longrightarrow> (\<exists>r. p = CHR ''/'' # r \<and> CHR ''?'' \<notin> set r)) \<and>
     (\<forall>q. query = Some q \<longrightarrow> (\<exists>r. q = CHR ''?'' # r \<and> CHR 0x0A \<notin> set r))"

definition router_id_of :: "string \<Rightarrow> router_id" where
  "router_id_of id_str = (if eq_ignore_ascii_case id_str ''default'' then R_Default else R_Named id_str)"

definition extract_router_id_and_path :: "string \<Rightarrow> (api_error, router_id \<times> string) result" where
  "extract_router_id_and_path path =
     (case url_captures path of
        None \<Rightarrow> Inl (AE_InvalidRequest (NotFound path))
      | Some (id_str, path_match, query_match) \<Rightarrow>
          Inr (router_id_of id_str,
               (case path_match of
                  Some p \<Rightarrow> (if p = [] then ''/'' else p)
                | None \<Rightarrow> (case query_match of Some q \<Rightarrow> q | None \<Rightarrow> ''/''))))"

definition extract_path_and_query ::
  "(string \<rightharpoonup> path_and_query) \<Rightarrow> string \<Rightarrow> string option \<Rightarrow> (api_error, path_and_query) result" where
  "extract_path_and_query pq path query =
     ok_or (AE_Internal Internal)
       (case query of Some params \<Rightarrow> pq (path @ ''?'' @ params) | None \<Rightarrow> pq path)"

section \<open>A router\<close>

text \<open>A router has a balancer for each endpoint type of its configuration, and a direct proxy.\<close>

record router =
  ro_inner :: "endpoint_type list"

definition router_of_config :: "'w router_config \<Rightarrow> router" where
  "router_of_config rc = \<lparr>ro_inner = map fst (rc_load_balance rc)\<rparr>"

datatype ('b, 'd) router_future =
    RF_Ready api_error
  | RF_Balancer endpoint_type "('b, 'd) request"
  | RF_DirectProxy "('b, 'd) request"

definition router_call :: "router \<Rightarrow> ('b, 'd) request \<Rightarrow> ('b, 'd) router_future" where
  "router_call r req =
     (case ext_path_and_query req of
        None \<Rightarrow> RF_Ready (AE_Internal (ExtensionNotFound ''PathAndQuery''))
      | Some pq \<Rightarrow>
          (case api_endpoint_new (pq_path pq) of
             Some e \<Rightarrow>
               (if endpoint_type_of e \<in> set (ro_inner r)
                then RF_Balancer (endpoint_type_of e) (req\<lparr>ext_api_endpoint := Some e\<rparr>)
                else RF_Ready (AE_InvalidRequest (NotFound (pq_path pq))))
           | None \<Rightarrow> RF_DirectProxy req))"

definition router_poll_ready :: "'a poll list \<Rightarrow> 'a poll \<Rightarrow> (api_error, unit) result poll" where
  "router_poll_ready balancers direct_proxy =
     (if list_ex is_pending balancers \<or> is_pending direct_proxy then Pending else Ready (Inr ()))"

section \<open>The meta router\<close>

record meta_router =
  mr_inner :: "(router_id \<times> router) list"
  mr_direct_proxies :: "inference_provider list"

definition meta_from_config :: "'w config \<Rightarrow> meta_router" where
  "meta_from_config cfg =
     \<lparr>mr_inner = map (\<lambda>(rid, rc). (rid, router_of_config rc)) (cfg_routers cfg),
      mr_direct_proxies = map fst (cfg_providers cfg)\<rparr>"

datatype ('b, 'd) dispatch =
    MD_Ready api_error
  | MD_RouterRequest router_id "('b, 'd) router_future"
  | MD_UnifiedApi "('b, 'd) request"
  | MD_DirectProxy inference_provider "('b, 'd) request"

definition handle_router_request ::
  "(string \<rightharpoonup> path_and_query) \<Rightarrow> meta_router \<Rightarrow> ('b, 'd) request \<Rightarrow> ('b, 'd) dispatch" where
  "handle_router_request pq mr req =
     (case extract_router_id_and_path (rq_path req) of
        Inl _ \<Rightarrow> MD_Ready (AE_InvalidRequest (NotFound (rq_path req)))
      | Inr (rid, api_path) \<Rightarrow>
          (case extract_path_and_query pq api_path (rq_query req) of
             Inl e \<Rightarrow> MD_Ready e
           | Inr p \<Rightarrow>
               (case map_of (mr_inner mr) rid of
                  Some r \<Rightarrow> MD_RouterRequest rid (router_call r (req\<lparr>ext_path_and_query := Some p\<rparr>))
                | None \<Rightarrow> MD_Ready (AE_InvalidRequest (NotFound (rq_path req))))))"

definition handle_unified_api_request ::
  "(string \<rightharpoonup> path_and_query) \<Rightarrow> ('b, 'd) request \<Rightarrow> ('b, 'd) dispatch" where
  "handle_unified_api_request pq req =
     (case extract_path_and_query pq (trim_start_matches ''/ai'' (rq_path req)) (rq_query req) of
        Inl e \<Rightarrow> MD_Ready e
      | Inr p \<Rightarrow> MD_UnifiedApi (req\<lparr>ext_path_and_query := Some p\<rparr>))"

definition handle_direct_proxy_request ::
  "(string \<rightharpoonup> path_and_query) \<Rightarrow> meta_router \<Rightarrow> ('b, 'd) request \<Rightarrow> ('b, 'd) dispatch" where
  "handle_direct_proxy_request pq mr req =
     (let segments = split_on CHR ''/'' (trim_start_matches ''/'' (rq_path req)) in
      case provider_from_str (hd segments) of
        Inl _ \<Rightarrow> MD_Ready (AE_InvalidRequest (NotFound (rq_path req)))
      | Inr provider \<Rightarrow>
          (case extract_path_and_query pq (join_with ''/'' (tl segments)) (rq_query req) of
             Inl e \<Rightarrow> MD_Ready e
           | Inr p \<Rightarrow>
               (if provider \<in> set (mr_direct_proxies mr)
                then MD_DirectProxy provider
                       (req\<lparr>ext_path_and_query := Some p,
                            ext_mapper_context := Some \<lparr>mx_is_stream = False, mx_model = None\<rparr>\<rparr>)
                else MD_Ready (AE_InvalidRequest (UnsupportedProvider provider)))))"

definition meta_call ::
  "(string \<rightharpoonup> path_and_query) \<Rightarrow> meta_router \<Rightarrow> ('b, 'd) request \<Rightarrow> ('b, 'd) dispatch" where
  "meta_call pq mr req =
     (if starts_with ''/router'' (rq_path req) then handle_router_request pq mr req
      else if starts_with ''/ai'' (rq_path req) then handle_unified_api_request pq req
      else handle_direct_proxy_request pq mr req)"

definition meta_poll_ready :: "'a poll list \<Rightarrow> 'a poll \<Rightarrow> (api_error, unit) result poll" where
  "meta_poll_ready routers unified_api =
     (if list_ex is_pending routers \<or> is_pending unified_api then Pending else Ready (Inr ()))"

section \<open>The unified API\<close>

definition unified_api_try_from :: "string \<Rightarrow> (invalid_request_error, unit) result" where
  "unified_api_try_from path =
     (if path = ''/chat/completions'' then Inr () else Inl (UnsupportedEndpoint path))"

text \<open>
  The states of the response future, with the fields that are taken out of their \<open>Option\<close>. The
  environment of a poll is what the body and the proxied call answer, the body parser and the
  providers that have a proxy.
\<close>

datatype ('b, 'd) ua_state =
    UA_CollectBody "('b, 'd) request option"
  | UA_DetermineProvider "'b option" "('b, 'd) request option"
  | UA_InitProxy "('b, 'd) request option" inference_provider
  | UA_Proxy inference_provider "('b, 'd) request"

record ('b, 'd, 'r) ua_env =
  ua_body :: "(string, 'b) result poll"
  ua_parse_body :: "'b \<Rightarrow> (string, string) result"
  ua_proxies :: "inference_provider list"
  ua_response :: "inference_provider \<Rightarrow> ('b, 'd) request \<Rightarrow> (unit, 'r) result poll"

datatype ('b, 'd, 'r) ua_step =
    UA_Goto "('b, 'd) ua_state"
  | UA_Yield
  | UA_Return "(api_error, 'r) result"
  | UA_Panic

definition determine_provider ::
  "('n, 'd) chrono \<Rightarrow> 'd model_id \<Rightarrow> (api_error, inference_provider) result" where
  "determine_provider ch source_model =
     (case source_model of
        ModelIdWithVersion provider _ \<Rightarrow> Inr provider
      | Bedrock _ \<Rightarrow> Inr P_Bedrock
      | Ollama _ \<Rightarrow> Inr P_Ollama
      | Unknown _ \<Rightarrow>
          Inl (AE_InvalidRequest (UnsupportedEndpoint
                 (''provider for the given model: '' @ [CHR 0x27] @ model_id_display ch source_model @
                  [CHR 0x27] @ '' not supported''))))"

fun unified_step ::
  "('n, 'd) chrono \<Rightarrow> ('b, 'd, 'r) ua_env \<Rightarrow> ('b, 'd) ua_state \<Rightarrow> ('b, 'd, 'r) ua_step" where
  "unified_step ch env (UA_CollectBody parts) =
     (case ua_body env of
        Pending \<Rightarrow> UA_Yield
      | Ready (Inl e) \<Rightarrow> UA_Return (Inl (AE_Internal (CollectBodyError e)))
      | Ready (Inr body) \<Rightarrow>
          (case parts of
             None \<Rightarrow> UA_Panic
           | Some p \<Rightarrow>
               (case ext_path_and_query p of
                  None \<Rightarrow> UA_Return (Inl (AE_Internal (ExtensionNotFound ''PathAndQuery'')))
                | Some pq \<Rightarrow>
                    (case unified_api_try_from (pq_path pq) of
                       Inl e \<Rightarrow> UA_Return (Inl (AE_InvalidRequest e))
                     | Inr _ \<Rightarrow>
                         UA_Goto (UA_DetermineProvider (Some body)
                           (Some (p\<lparr>ext_api_endpoint := Some (EP_OpenAI OpenAI_ChatCompletions)\<rparr>)))))))"
| "unified_step ch env (UA_DetermineProvider collected_body parts) =
     (case collected_body of
        None \<Rightarrow> UA_Panic
      | Some body \<Rightarrow>
          (case ua_parse_body env body of
             Inl e \<Rightarrow> UA_Return (Inl (AE_InvalidRequest (InvalidRequestBody e)))
           | Inr model \<Rightarrow>
               (case model_id_from_str ch model of
                  Inl e \<Rightarrow> UA_Return (Inl (AE_Internal (MapperErr e)))
                | Inr source_model \<Rightarrow>
                    (case parts of
                       None \<Rightarrow> UA_Panic
                     | Some p \<Rightarrow>
                         (case determine_provider ch source_model of
                            Inl e \<Rightarrow> UA_Return (Inl e)
                          | Inr provider \<Rightarrow>
                              UA_Goto (UA_InitProxy
                                (Some (p\<lparr>ext_provider := Some provider, rq_body := body\<rparr>)) provider))))))"
| "unified_step ch env (UA_InitProxy req provider) =
     (case req of
        None \<Rightarrow> UA_Panic
      | Some r \<Rightarrow>
          (if provider \<in> set (ua_proxies env) then UA_Goto (UA_Proxy provider r)
           else UA_Return (Inl (AE_InvalidRequest (UnsupportedProvider provider)))))"
| "unified_step ch env (UA_Proxy provider req) =
     (case ua_response env provider req of
        Pending \<Rightarrow> UA_Yield
      | Ready (Inl _) \<Rightarrow> UA_Return (Inl (AE_Internal Internal))
      | Ready (Inr response) \<Rightarrow> UA_Return (Inr response))"

text \<open>The loop of \<open>poll\<close>: every turn that does not return moves to a later state.\<close>

fun ua_rank :: "('b, 'd) ua_state \<Rightarrow> nat" where
  "ua_rank (UA_CollectBody parts) = 3"
| "ua_rank (UA_DetermineProvider body parts) = 2"
| "ua_rank (UA_InitProxy req provider) = 1"
| "ua_rank (UA_Proxy provider req) = 0"

lemma unified_step_advances:
  "unified_step ch env st = UA_Goto st' \<Longrightarrow> ua_rank st' < ua_rank st"
  by (cases st) (auto split: poll.splits sum.splits option.splits if_splits)

function unified_poll ::
  "('n, 'd) chrono \<Rightarrow> ('b, 'd, 'r) ua_env \<Rightarrow> ('b, 'd) ua_state \<Rightarrow>
     ('b, 'd) ua_state \<times> ('b, 'd, 'r) ua_step" where
  "unified_poll ch env st =
     (case unified_step ch env st of
        UA_Goto st' \<Rightarrow> unified_poll ch env st'
      | outcome \<Rightarrow> (st, outcome))"
  by pat_completeness auto
termination
  by (relation "measure (\<lambda>(ch, env, st). ua_rank st)") (auto dest: unified_step_advances)

declare unified_poll.simps [simp del]

section \<open>Lemmas\<close>

subsection \<open>The pattern\<close>

abbreviation opt_str :: "string option \<Rightarrow> string" where
  "opt_str x \<equiv> (case x of None \<Rightarrow> [] | Some s \<Rightarrow> s)"

definition path_part :: "string option \<Rightarrow> bool" where
  "path_part path \<longleftrightarrow> (\<forall>p. path = Some p \<longrightarrow> (\<exists>r. p = CHR ''/'' # r \<and> CHR ''?'' \<notin> set r))"

definition query_part :: "string option \<Rightarrow> bool" where
  "query_part query \<longleftrightarrow> (\<forall>q. query = Some q \<longrightarrow> (\<exists>r. q = CHR ''?'' # r \<and> CHR 0x0A \<notin> set r))"

lemma query_capture_iff: "query_capture t = Some q \<longleftrightarrow> t = opt_str q \<and> query_part q"
  by (cases q) (auto simp: query_capture_def query_part_def starts_with_iff)

lemma takeWhile_path:
  assumes "CHR ''?'' \<notin> set r" "u = [] \<or> hd u = CHR ''?''"
  shows "takeWhile (\<lambda>c. c \<noteq> CHR ''?'') (r @ u) = r" "dropWhile (\<lambda>c. c \<noteq> CHR ''?'') (r @ u) = u"
  using assms by (induction r) (cases u, auto)+

lemma path_query_captures_iff:
  "path_query_captures t = Some (p, q) \<longleftrightarrow> t = opt_str p @ opt_str q \<and> path_part p \<and> query_part q"
proof (cases p)
  case None
  then show ?thesis
    by (auto simp: path_query_captures_def path_part_def query_capture_iff query_part_def starts_with_iff
        split: option.splits)
next
  case (Some p')
  let ?T = "takeWhile (\<lambda>c. c \<noteq> CHR ''?'') t" and ?D = "dropWhile (\<lambda>c. c \<noteq> CHR ''?'') t"
  have q: "opt_str q = [] \<or> hd (opt_str q) = CHR ''?''" if "query_part q"
    using that by (auto simp: query_part_def split: option.splits)
  show ?thesis
  proof
    assume "path_query_captures t = Some (p, q)"
    then have h: "starts_with ''/'' t" "p' = ?T" "?D = opt_str q" "query_part q"
      using Some by (auto simp: path_query_captures_def query_capture_iff split: if_splits)
    then obtain r where "t = CHR ''/'' # r" by (auto simp: starts_with_iff)
    then have "path_part p" using h(2) Some by (auto simp: path_part_def dest: set_takeWhileD)
    moreover have "t = p' @ opt_str q" using h(2,3) by (metis takeWhile_dropWhile_id)
    ultimately show "t = opt_str p @ opt_str q \<and> path_part p \<and> query_part q" using h(4) Some by simp
  next
    assume h: "t = opt_str p @ opt_str q \<and> path_part p \<and> query_part q"
    then obtain r where r: "p' = CHR ''/'' # r" "CHR ''?'' \<notin> set p'" using Some by (auto simp: path_part_def)
    have "?T = p'" "?D = opt_str q" using takeWhile_path[OF r(2) q] h Some by simp_all
    then show "path_query_captures t = Some (p, q)"
      using h r(1) Some by (simp add: path_query_captures_def query_capture_iff)
  qed
qed

lemma not_id_char [simp]: "\<not> router_id_char CHR ''/''" "\<not> router_id_char CHR ''?''"
  by (simp_all add: router_id_char_def)

lemma id_run:
  assumes "list_all router_id_char i" "path_part p" "query_part q"
  shows "takeWhile router_id_char (i @ opt_str p @ opt_str q) = i"
    "dropWhile router_id_char (i @ opt_str p @ opt_str q) = opt_str p @ opt_str q"
proof -
  have t: "opt_str p @ opt_str q = [] \<or> \<not> router_id_char (hd (opt_str p @ opt_str q))"
    using assms(2,3) by (auto simp: path_part_def query_part_def split: option.splits)
  have "takeWhile router_id_char (i @ u) = i \<and> dropWhile router_id_char (i @ u) = u"
    if "u = [] \<or> \<not> router_id_char (hd u)" for u
    using assms(1) that by (induction i) (cases u, auto)+
  from this[OF t] show "takeWhile router_id_char (i @ opt_str p @ opt_str q) = i"
    "dropWhile router_id_char (i @ opt_str p @ opt_str q) = opt_str p @ opt_str q" by blast+
qed

lemma url_pattern_parts:
  "url_pattern s i p q \<longleftrightarrow>
     s = ''/router/'' @ i @ opt_str p @ opt_str q \<and> router_id_matches i \<and> path_part p \<and> query_part q"
  unfolding url_pattern_def path_part_def query_part_def by blast

lemma url_captures_iff: "url_captures s = Some (i, p, q) \<longleftrightarrow> url_pattern s i p q"
proof
  assume "url_captures s = Some (i, p, q)"
  then obtain rest where s: "s = ''/router/'' @ rest" and i: "i = takeWhile router_id_char rest"
    "1 \<le> length i \<and> length i \<le> 12" and d: "dropWhile router_id_char rest = opt_str p @ opt_str q"
    "path_part p" "query_part q"
    by (auto simp: url_captures_def Let_def bind_eq_Some_conv strip_prefix_Some path_query_captures_iff
        split: if_splits)
  have "list_all router_id_char i" unfolding i(1) list_all_iff by (blast dest: set_takeWhileD)
  moreover have "rest = i @ opt_str p @ opt_str q" unfolding i(1) d(1)[symmetric] by simp
  ultimately show "url_pattern s i p q" using s i(2) d(2,3)
    unfolding url_pattern_parts router_id_matches_def by simp
next
  assume h: "url_pattern s i p q"
  then have "strip_prefix ''/router/'' s = Some (i @ opt_str p @ opt_str q)"
    and m: "list_all router_id_char i" "path_part p" "query_part q" "1 \<le> length i \<and> length i \<le> 12"
    unfolding url_pattern_parts strip_prefix_Some router_id_matches_def by blast+
  moreover have "path_query_captures (opt_str p @ opt_str q) = Some (p, q)"
    using m unfolding path_query_captures_iff by blast
  ultimately show "url_captures s = Some (i, p, q)"
    unfolding url_captures_def Let_def by (simp only: bind.simps id_run[OF m(1-3)] m(4) if_True option.map simp_thms)
qed

lemma extract_router_id_path:
  assumes "router_id_matches i" "CHR ''?'' \<notin> set r"
  shows "extract_router_id_and_path (''/router/'' @ i @ ''/'' @ r) = Inr (router_id_of i, ''/'' @ r)"
proof -
  have "url_captures (''/router/'' @ i @ ''/'' @ r) = Some (i, Some (''/'' @ r), None)"
    using assms unfolding url_captures_iff by (simp add: url_pattern_def)
  then show ?thesis by (simp add: extract_router_id_and_path_def)
qed

lemma extract_never_default_name:
  "extract_router_id_and_path path = Inr (R_Named n, api_path) \<Longrightarrow> \<not> eq_ignore_ascii_case n ''default''"
  by (auto simp: extract_router_id_and_path_def router_id_of_def split: option.splits if_splits)

subsection \<open>The unified API\<close>

lemma determine_provider_parsed:
  "model_id_from_str ch model = Inr m \<Longrightarrow>
     \<exists>p. determine_provider ch m = Inr p \<and> model_inference_provider m = Some p"
  by (drule parsed_model_id) (cases m; auto simp: determine_provider_def)

text \<open>Nothing has been taken out of a state that the loop yields in.\<close>

fun ua_intact :: "('b, 'd) ua_state \<Rightarrow> bool" where
  "ua_intact (UA_CollectBody parts) = (parts \<noteq> None)"
| "ua_intact (UA_DetermineProvider body parts) = (body \<noteq> None \<and> parts \<noteq> None)"
| "ua_intact (UA_InitProxy req provider) = (req \<noteq> None)"
| "ua_intact (UA_Proxy provider req) = True"

lemma unified_step_intact:
  "ua_intact st \<Longrightarrow> unified_step ch env st \<noteq> UA_Panic \<and>
     (\<forall>st'. unified_step ch env st = UA_Goto st' \<longrightarrow> ua_intact st')"
  by (cases st) (auto split: poll.splits sum.splits option.splits if_splits)

lemma unified_poll_intact:
  "ua_intact st \<Longrightarrow> unified_poll ch env st = (st', outcome) \<Longrightarrow>
     ua_intact st' \<and> outcome \<noteq> UA_Panic \<and> (\<forall>s. outcome \<noteq> UA_Goto s)"
proof (induction ch env st rule: unified_poll.induct)
  case (1 ch env st)
  note step = unified_step_intact[OF "1.prems"(1), of ch env]
  show ?case
  proof (cases "unified_step ch env st")
    case (UA_Goto s)
    then show ?thesis
      using "1.IH"[OF UA_Goto] "1.prems"(2) step by (simp add: unified_poll.simps[of ch env st])
  qed (use "1.prems" step in \<open>auto simp: unified_poll.simps[of ch env st]\<close>)
qed

text \<open>The whole run, as one expression.\<close>

definition unified_request :: "('b, 'd) request \<Rightarrow> 'b \<Rightarrow> inference_provider \<Rightarrow> ('b, 'd) request" where
  "unified_request req body provider =
     req\<lparr>ext_api_endpoint := Some (EP_OpenAI OpenAI_ChatCompletions), ext_provider := Some provider,
         rq_body := body\<rparr>"

definition unified_provider ::
  "('n, 'd) chrono \<Rightarrow> ('b, 'd, 'r) ua_env \<Rightarrow> ('b, 'd) request \<Rightarrow> 'b \<Rightarrow> (api_error, inference_provider) result" where
  "unified_provider ch env req body =
     rbind (ok_or (AE_Internal (ExtensionNotFound ''PathAndQuery'')) (ext_path_and_query req)) (\<lambda>pq.
     rbind (map_err AE_InvalidRequest (unified_api_try_from (pq_path pq))) (\<lambda>_.
     rbind (map_err (\<lambda>e. AE_InvalidRequest (InvalidRequestBody e)) (ua_parse_body env body)) (\<lambda>model.
     rbind (map_err (\<lambda>e. AE_Internal (MapperErr e)) (model_id_from_str ch model)) (\<lambda>m.
     rbind (determine_provider ch m) (\<lambda>p.
       if p \<in> set (ua_proxies env) then Inr p else Inl (AE_InvalidRequest (UnsupportedProvider p)))))))"

lemma unified_poll_spec:
  assumes "ua_body env = Ready (Inr body)"
  shows "unified_poll ch env (UA_CollectBody (Some req)) = r \<Longrightarrow>
    (case unified_provider ch env req body of
       Inl e \<Rightarrow> snd r = UA_Return (Inl e)
     | Inr p \<Rightarrow> r = (UA_Proxy p (unified_request req body p),
         case ua_response env p (unified_request req body p) of
           Pending \<Rightarrow> UA_Yield
         | Ready (Inl _) \<Rightarrow> UA_Return (Inl (AE_Internal Internal))
         | Ready (Inr response) \<Rightarrow> UA_Return (Inr response)))"
  using assms
  by (auto simp: unified_poll.simps unified_provider_def unified_request_def
      split: option.splits sum.splits poll.splits if_splits)

section \<open>Properties\<close>


text \<open>The relevant behaviour of \<open>PathAndQuery::from_str\<close>: an absolute path of letters, digits and the
  characters \<open>/\<close>, \<open>-\<close>, \<open>_\<close> and \<open>.\<close> is its own path, without a query.\<close>

definition plain_path :: "string \<Rightarrow> bool" where
  "plain_path p \<longleftrightarrow> (\<exists>r. p = CHR ''/'' # r \<and> list_all (\<lambda>c. router_id_char c \<or> c = CHR ''/'' \<or> c = CHR ''.'') r)"

definition pq_law :: "(string \<rightharpoonup> path_and_query) \<Rightarrow> bool" where
  "pq_law pq \<longleftrightarrow> (\<forall>p. plain_path p \<longrightarrow> pq p = Some \<lparr>pq_path = p, pq_query = None\<rparr>)"


definition sample_pq :: "string \<rightharpoonup> path_and_query" where
  "sample_pq s = (case splitn2 CHR ''?'' s of (p, q) \<Rightarrow> Some \<lparr>pq_path = p, pq_query = q\<rparr>)"

lemma sample_pq_law: "pq_law sample_pq"
proof -
  have "CHR ''?'' \<notin> set p" if "plain_path p" for p
    using that not_id_char(2) by (fastforce simp: plain_path_def list_all_iff)
  then show ?thesis by (simp add: pq_law_def sample_pq_def splitn2_no_sep)
qed

definition sample_request :: "string \<Rightarrow> (string, ymd) request" where
  "sample_request path =
     \<lparr>rq_path = path, rq_query = None, rq_body = ''{}'', ext_path_and_query = None,
      ext_api_endpoint = None, ext_mapper_context = None, ext_provider = None\<rparr>"


text \<open>A router whose configured name is another spelling of \<open>default\<close> passes the validation of
  names, and no request reaches it: its URL selects the default router.\<close>

theorem default_spelling_unreachable:
  assumes "eq_ignore_ascii_case n ''default''"
  shows "meta_call pq mr req \<noteq> MD_RouterRequest (R_Named n) f"
  using assms extract_never_default_name
  by (auto simp: meta_call_def handle_router_request_def handle_unified_api_request_def
      handle_direct_proxy_request_def Let_def split: sum.splits option.splits prod.splits)

lemma default_spelling: "eq_ignore_ascii_case ''Default'' ''default''"
  by code_simp

theorem default_spelling_unreachable_witness:
  "router_id_matches ''Default'' \<and>
   (\<forall>f. meta_call sample_pq (meta_from_config sample_config) (sample_request ''/router/Default'') \<noteq>
     MD_RouterRequest (R_Named ''Default'') f)"
  by (intro conjI allI default_spelling_unreachable[OF default_spelling])
     (simp add: router_id_matches_def router_id_char_def)

text \<open>The prefix tests shadow direct proxies: a request whose first path segment starts with
  \<open>ai\<close> or \<open>router\<close> is never sent to a provider of that name.\<close>

theorem prefix_shadows_direct_proxy:
  assumes "starts_with ''/ai'' (rq_path req) \<or> starts_with ''/router'' (rq_path req)"
  shows "meta_call pq mr req \<noteq> MD_DirectProxy p req'"
  using assms
  by (auto simp: meta_call_def handle_router_request_def handle_unified_api_request_def
      split: sum.splits option.splits prod.splits)

theorem prefix_shadows_direct_proxy_witness:
  "\<forall>r. meta_call sample_pq (meta_from_config sample_config) (sample_request ''/ai21/v1/chat'') \<noteq>
     MD_DirectProxy (P_Named ''ai21'') r"
  using prefix_shadows_direct_proxy[of "sample_request ''/ai21/v1/chat''" sample_pq]
  by (simp add: sample_request_def)

text \<open>A poll of the unified API runs to an answer or yields, and never panics, also when it is
  polled again after it has yielded.\<close>

theorem unified_poll_total:
  assumes "unified_poll ch env1 (UA_CollectBody (Some req)) = (st, UA_Yield)"
  shows "\<exists>st' outcome. unified_poll ch env2 st = (st', outcome) \<and>
    (outcome = UA_Yield \<or> (\<exists>r. outcome = UA_Return r))"
proof -
  obtain st' outcome where e: "unified_poll ch env2 st = (st', outcome)" by (cases "unified_poll ch env2 st")
  have "ua_intact st" using unified_poll_intact[OF _ assms] by simp
  from unified_poll_intact[OF this e] e show ?thesis by (cases outcome) auto
qed

definition sample_env :: "(string, string) result poll \<Rightarrow> (string, ymd, nat) ua_env" where
  "sample_env body =
     \<lparr>ua_body = body, ua_parse_body = (\<lambda>b. Inr ''ollama/llama3''), ua_proxies = [P_Ollama],
      ua_response = (\<lambda>p r. Ready (Inr 200))\<rparr>"

definition sample_unified :: "(string, ymd) request" where
  "sample_unified = (sample_request ''/ai/chat/completions'')
     \<lparr>ext_path_and_query := Some \<lparr>pq_path = ''/chat/completions'', pq_query = None\<rparr>\<rparr>"

theorem unified_poll_total_witness:
  "\<exists>st st' outcome. unified_poll padded_calendar (sample_env Pending) (UA_CollectBody (Some sample_unified)) = (st, UA_Yield) \<and>
     unified_poll padded_calendar (sample_env (Ready (Inr ''{}''))) st = (st', outcome) \<and>
     (outcome = UA_Yield \<or> (\<exists>r. outcome = UA_Return r))"
proof -
  have e: "unified_poll padded_calendar (sample_env Pending) (UA_CollectBody (Some sample_unified)) =
      (UA_CollectBody (Some sample_unified), UA_Yield)"
    by (simp add: unified_poll.simps sample_env_def)
  show ?thesis using unified_poll_total[OF e, of "sample_env (Ready (Inr ''{}''))"] e by blast
qed



end
