(* ===== verification/Rolling_Counter.thy ===== *)
theory Rolling_Counter
  imports Config
begin

text \<open>
  The lock-free event counter of the health monitor (\<open>metrics/rolling_counter.rs\<close>) and the
  registry of endpoint metrics (\<open>discover/monitor/metrics.rs\<close>). An \<open>Instant\<close> is a number of
  nanoseconds. The sequential model gives the counter its meaning, the number of events of the
  current lap; a small-step model of concurrent increments shows what the lap change can do to it.
\<close>

section \<open>The counter\<close>

record rolling_counter =
  rl_buckets :: nat
  rl_bucket_duration :: f64
  rl_start :: nat
  rl_counters :: "32 word list"
  rl_laps :: "64 word list"

text \<open>\<open>Duration::as_secs_f64\<close> of the standard library.\<close>

definition as_secs_f64 :: "duration \<Rightarrow> f64" where
  "as_secs_f64 d = f_add (f64_of_nat (d div 10 ^ 9)) (f_div (f64_of_nat (d mod 10 ^ 9)) (f64_of_nat (10 ^ 9)))"

text \<open>\<open>RollingCounter::new\<close> asserts that there is a bucket.\<close>

definition rolling_counter_new :: "duration \<Rightarrow> nat \<Rightarrow> nat \<Rightarrow> ('e abort, rolling_counter) result" where
  "rolling_counter_new window buckets now =
     (if \<not> (0 < buckets) then Inl Panicked
      else Inr \<lparr>rl_buckets = buckets,
                rl_bucket_duration = f_div (as_secs_f64 window) (f64_of_nat buckets),
                rl_start = now, rl_counters = replicate buckets 0, rl_laps = replicate buckets 0\<rparr>)"

definition rolling_counter_default :: "nat \<Rightarrow> ('e abort, rolling_counter) result" where
  "rolling_counter_default now = rolling_counter_new (secs 60) 10 now"

text \<open>\<open>now.duration_since(start)\<close> saturates at zero, as the subtraction of naturals does.\<close>

definition get_index_and_lap :: "rolling_counter \<Rightarrow> nat \<Rightarrow> nat \<times> 64 word" where
  "get_index_and_lap rc now =
     (let elapsed = as_secs_f64 (now - rl_start rc);
          lap = f_as_unsigned 64 (f_floor (f_div elapsed
                  (f_mul (rl_bucket_duration rc) (f64_of_nat (rl_buckets rc)))));
          idx = f_as_unsigned 64 (f_div elapsed (rl_bucket_duration rc)) mod rl_buckets rc
      in (idx, of_nat lap))"

text \<open>
  \<open>incr\<close> and \<open>total\<close> on the two arrays, run by one thread: the compare-and-exchange succeeds. The
  sum of \<open>u32\<close> values wraps.
\<close>

type_synonym cells = "32 word list \<times> 64 word list"

fun bump :: "nat \<Rightarrow> 64 word \<Rightarrow> cells \<Rightarrow> cells" where
  "bump idx lap (counters, laps) =
     (let last_lap = laps ! idx;
          (counters', laps') = (if last_lap \<noteq> lap then (counters[idx := 0], laps[idx := lap])
                                else (counters, laps))
      in (counters'[idx := counters' ! idx + 1], laps'))"

fun lap_total :: "64 word \<Rightarrow> cells \<Rightarrow> 32 word" where
  "lap_total now_lap (counters, laps) =
     sum_list (List.map_filter (\<lambda>(c, l). if l = now_lap then Some c else None) (zip counters laps))"

definition rl_incr :: "rolling_counter \<Rightarrow> nat \<Rightarrow> rolling_counter" where
  "rl_incr rc now =
     (case get_index_and_lap rc now of (idx, lap) \<Rightarrow>
        case bump idx lap (rl_counters rc, rl_laps rc) of (counters, laps) \<Rightarrow>
          rc\<lparr>rl_counters := counters, rl_laps := laps\<rparr>)"

definition rl_total :: "rolling_counter \<Rightarrow> nat \<Rightarrow> 32 word" where
  "rl_total rc now = lap_total (snd (get_index_and_lap rc now)) (rl_counters rc, rl_laps rc)"

section \<open>Endpoint metrics\<close>

record endpoint_metrics =
  em_request_count :: rolling_counter
  em_remote_internal_error_count :: rolling_counter

definition endpoint_metrics_new :: "duration \<Rightarrow> nat \<Rightarrow> nat \<Rightarrow> ('e abort, endpoint_metrics) result" where
  "endpoint_metrics_new window buckets now =
     rbind (rolling_counter_new window buckets now) (\<lambda>c.
       Inr \<lparr>em_request_count = c, em_remote_internal_error_count = c\<rparr>)"

definition endpoint_metrics_default :: "nat \<Rightarrow> ('e abort, endpoint_metrics) result" where
  "endpoint_metrics_default now =
     rbind (rolling_counter_default now) (\<lambda>c.
       Inr \<lparr>em_request_count = c, em_remote_internal_error_count = c\<rparr>)"

definition incr_req_count :: "endpoint_metrics \<Rightarrow> nat \<Rightarrow> endpoint_metrics" where
  "incr_req_count em now = em\<lparr>em_request_count := rl_incr (em_request_count em) now\<rparr>"

definition incr_remote_internal_error_count :: "endpoint_metrics \<Rightarrow> nat \<Rightarrow> endpoint_metrics" where
  "incr_remote_internal_error_count em now =
     em\<lparr>em_remote_internal_error_count := rl_incr (em_remote_internal_error_count em) now\<rparr>"

fun incr_for_stream_error :: "endpoint_metrics \<Rightarrow> eventsource_error \<Rightarrow> nat \<Rightarrow> endpoint_metrics" where
  "incr_for_stream_error em (ES_StreamEnded t) now = em"
| "incr_for_stream_error em (ES_InvalidStatusCode status t) now =
     (if is_server_error status then incr_remote_internal_error_count em now else em)"
| "incr_for_stream_error em (ES_Utf8 t) now = incr_remote_internal_error_count em now"
| "incr_for_stream_error em (ES_Parser t) now = incr_remote_internal_error_count em now"
| "incr_for_stream_error em (ES_Transport t) now = incr_remote_internal_error_count em now"
| "incr_for_stream_error em (ES_InvalidContentType t) now = incr_remote_internal_error_count em now"
| "incr_for_stream_error em (ES_InvalidLastEventId t) now = incr_remote_internal_error_count em now"

text \<open>\<open>EndpointMetricsRegistry::default\<close>: an entry for each endpoint of each provider.\<close>

definition metrics_registry_default :: "endpoint_metrics \<Rightarrow> (api_endpoint \<rightharpoonup> endpoint_metrics)" where
  "metrics_registry_default fresh =
     foldl (\<lambda>reg e. reg(e \<mapsto> fresh)) Map.empty (concat (map provider_endpoints inference_provider_iter))"

definition health_metrics ::
  "(api_endpoint \<rightharpoonup> endpoint_metrics) \<Rightarrow> api_endpoint \<Rightarrow> (internal_error, endpoint_metrics) result" where
  "health_metrics reg e = ok_or (MetricsNotConfigured e) (reg e)"

section \<open>Laps and slots\<close>

text \<open>
  The interface of the clock: a time has a slot among \<open>n\<close> and a lap, and laps do not go back up to
  the horizon. The counter counts the events of the current lap.
\<close>

lemma lap_total_sum:
  "length cs = length ls \<Longrightarrow>
     lap_total L (cs, ls) = (\<Sum>i < length cs. if ls ! i = L then cs ! i else 0)"
proof (induction cs ls rule: list_induct2)
  case (Cons c cs l ls)
  have "(\<Sum>i < length (c # cs). if (l # ls) ! i = L then (c # cs) ! i else 0) =
      (if l = L then c else 0) + (\<Sum>i < length cs. if ls ! i = L then cs ! i else 0)"
    by (simp add: sum.lessThan_Suc_shift del: sum.lessThan_Suc cong: if_cong)
  with Cons show ?case by (auto simp: map_filter_simps)
qed (simp add: map_filter_simps)

lemma sum_slots:
  "(\<And>t. t \<in> set ts \<Longrightarrow> slot t < (n :: nat)) \<Longrightarrow>
     (\<Sum>i < n. length (filter (\<lambda>t. slot t = i \<and> P t) ts)) = length (filter P ts)"
proof (induction ts)
  case (Cons t ts)
  then have "(\<Sum>i < n. length (filter (\<lambda>t. slot t = i \<and> P t) ts)) = length (filter P ts)" by simp
  moreover have "(\<Sum>i < n. length (filter (\<lambda>t. slot t = i \<and> P t) (t # ts))) =
      (\<Sum>i < n. (if slot t = i then (if P t then 1 else 0) else 0) +
         length (filter (\<lambda>t. slot t = i \<and> P t) ts))"
    by (rule sum.cong) auto
  moreover have "(\<Sum>i < n. if slot t = i then (if P t then 1 else 0) else 0) = (if P t then 1 else (0 :: nat))"
    using Cons.prems by (subst sum.delta') simp_all
  ultimately show ?case by (simp add: sum.distrib)
qed simp

lemma sorted_last: "sorted xs \<Longrightarrow> u \<in> set xs \<Longrightarrow> u \<le> last xs"
  by (cases xs rule: rev_cases) (auto simp: sorted_append)

locale lap_clock =
  fixes slot :: "nat \<Rightarrow> nat" and lap :: "nat \<Rightarrow> nat" and n :: nat and horizon :: nat
  assumes slot_bound: "slot t < n"
    and lap_mono: "t \<le> u \<Longrightarrow> u \<le> horizon \<Longrightarrow> lap t \<le> lap u"
    and lap_word: "lap t < 2 ^ 64"
begin

definition run :: "nat list \<Rightarrow> cells" where
  "run ts = foldl (\<lambda>c t. bump (slot t) (of_nat (lap t)) c) (replicate n 0, replicate n 0) ts"

abbreviation in_slot :: "nat \<Rightarrow> nat list \<Rightarrow> nat list" where
  "in_slot i ts \<equiv> filter (\<lambda>t. slot t = i) ts"

definition cell_ok :: "nat list \<Rightarrow> nat \<Rightarrow> 32 word \<Rightarrow> 64 word \<Rightarrow> bool" where
  "cell_ok ts i c l =
     (if in_slot i ts = [] then c = 0 \<and> l = 0
      else l = of_nat (lap (last (in_slot i ts))) \<and>
           c = of_nat (length (filter (\<lambda>t. lap t = lap (last (in_slot i ts))) (in_slot i ts))))"

lemma lap_eq: "(of_nat (lap t) :: 64 word) = of_nat (lap u) \<longleftrightarrow> lap t = lap u"
  using lap_word[of t] lap_word[of u] by (simp add: word_of_nat_eq_iff take_bit_nat_def)

lemma run_Nil: "run [] = (replicate n 0, replicate n 0)"
  by (simp add: run_def)

lemma run_snoc: "run (ts @ [t]) = bump (slot t) (of_nat (lap t)) (run ts)"
  by (simp add: run_def)

lemma cell_other:
  "slot t \<noteq> i \<Longrightarrow> cell_ok ts i c l \<Longrightarrow> cell_ok (ts @ [t]) i c l"
  by (simp add: cell_ok_def)

lemma cell_same:
  assumes "sorted (ts @ [t])" "t \<le> horizon" "cell_ok ts (slot t) c l"
  shows "cell_ok (ts @ [t]) (slot t)
    ((if l \<noteq> of_nat (lap t) then 0 else c) + 1) (of_nat (lap t))"
proof (cases "in_slot (slot t) ts = []")
  case True
  then show ?thesis using assms(3) by (auto simp: cell_ok_def filter_empty_conv)
next
  case False
  let ?es = "in_slot (slot t) ts"
  have l: "l = of_nat (lap (last ?es))"
    and c: "c = of_nat (length (filter (\<lambda>u. lap u = lap (last ?es)) ?es))"
    using assms(3) False by (auto simp: cell_ok_def)
  have le: "u \<le> last ?es \<and> last ?es \<le> t" if "u \<in> set ?es" for u
  proof -
    have "sorted ?es" using assms(1) by (simp add: sorted_append sorted_wrt_filter)
    then have "u \<le> last ?es" using that by (rule sorted_last)
    moreover have "last ?es \<in> set ts" using False by (meson filter_is_subset last_in_set subsetD)
    ultimately show ?thesis using assms(1) by (auto simp: sorted_append)
  qed
  show ?thesis
  proof (cases "lap (last ?es) = lap t")
    case True
    then show ?thesis using l c by (simp add: cell_ok_def)
  next
    case neq: False
    have "lap u \<noteq> lap t" if "u \<in> set ?es" for u
    proof -
      have "lap u \<le> lap (last ?es)" "lap (last ?es) \<le> lap t"
        using le[OF that] assms(2) by (auto intro!: lap_mono)
      with neq show ?thesis by simp
    qed
    then have "filter (\<lambda>u. lap u = lap t) ?es = []" by (simp add: filter_empty_conv)
    then show ?thesis using neq l by (simp add: cell_ok_def lap_eq)
  qed
qed

lemma run_cells:
  "sorted ts \<Longrightarrow> (\<forall>t \<in> set ts. t \<le> horizon) \<Longrightarrow>
     length (fst (run ts)) = n \<and> length (snd (run ts)) = n \<and>
     (\<forall>i < n. cell_ok ts i (fst (run ts) ! i) (snd (run ts) ! i))"
proof (induction ts rule: rev_induct)
  case Nil
  then show ?case by (simp add: run_def cell_ok_def)
next
  case (snoc t ts)
  obtain cs ls where r: "run ts = (cs, ls)" by (cases "run ts")
  have IH: "length cs = n" "length ls = n" "\<forall>i < n. cell_ok ts i (cs ! i) (ls ! i)"
    using snoc r by (auto simp: sorted_append)
  have s: "cell_ok (ts @ [t]) (slot t)
      ((if ls ! slot t \<noteq> of_nat (lap t) then 0 else cs ! slot t) + 1) (of_nat (lap t))"
    using cell_same snoc.prems IH(3) slot_bound by auto
  have "cell_ok (ts @ [t]) i (fst (run (ts @ [t])) ! i) (snd (run (ts @ [t])) ! i)" if "i < n" for i
  proof (cases "i = slot t")
    case True
    then show ?thesis using s IH(1,2) slot_bound[of t] by (auto simp: run_snoc r Let_def split: if_splits)
  next
    case False
    then show ?thesis using cell_other[of t i ts] IH(3) that by (simp add: run_snoc r Let_def)
  qed
  then show ?case using IH(1,2) by (simp add: run_snoc r Let_def)
qed

lemma total_current_lap:
  assumes "sorted ts" "\<forall>t \<in> set ts. t \<le> now" "now \<le> horizon"
  shows "lap_total (of_nat (lap now)) (run ts) = of_nat (length (filter (\<lambda>t. lap t = lap now) ts))"
proof -
  obtain cs ls where r: "run ts = (cs, ls)" by (cases "run ts")
  have c: "length cs = n" "length ls = n" "\<forall>i < n. cell_ok ts i (cs ! i) (ls ! i)"
    using run_cells[of ts] assms r by fastforce+
  let ?k = "\<lambda>i. length (filter (\<lambda>t. slot t = i \<and> lap t = lap now) ts)"
  have cell: "(if ls ! i = of_nat (lap now) then cs ! i else 0) = of_nat (?k i)" if "i < n" for i
  proof (cases "in_slot i ts = []")
    case True
    then have "?k i = 0" by (auto simp: filter_empty_conv)
    moreover have "cs ! i = 0" using c(3) that True by (simp add: cell_ok_def)
    ultimately show ?thesis by simp
  next
    case False
    let ?e = "last (in_slot i ts)"
    have ok: "ls ! i = of_nat (lap ?e)" "cs ! i = of_nat (length (filter (\<lambda>t. lap t = lap ?e) (in_slot i ts)))"
      using c(3) that False by (auto simp: cell_ok_def)
    show ?thesis
    proof (cases "lap ?e = lap now")
      case True
      then show ?thesis using ok by (simp add: filter_filter conj_commute)
    next
      case neq: False
      have "lap u \<noteq> lap now" if u: "u \<in> set (in_slot i ts)" for u
      proof
        assume "lap u = lap now"
        have "sorted (in_slot i ts)" using assms(1) by (simp add: sorted_wrt_filter)
        then have "u \<le> ?e" using u by (rule sorted_last)
        moreover have "?e \<le> now" using assms(2) False by (meson filter_is_subset last_in_set subsetD)
        ultimately have "lap u \<le> lap ?e" "lap ?e \<le> lap now" using assms(3) by (auto intro!: lap_mono)
        with \<open>lap u = lap now\<close> neq show False by simp
      qed
      then have "?k i = 0" by (auto simp: filter_empty_conv)
      then show ?thesis using neq ok by (simp add: lap_eq)
    qed
  qed
  have "lap_total (of_nat (lap now)) (run ts) = (\<Sum>i < n. of_nat (?k i))"
    using lap_total_sum[of cs ls] c(1,2) r cell by simp
  also have "\<dots> = of_nat (\<Sum>i < n. ?k i)" by simp
  finally show ?thesis using sum_slots[of ts slot n "\<lambda>t. lap t = lap now"] slot_bound by simp
qed

end

section \<open>The clock of the counter\<close>

lemma f64_of_nat_nonneg: "f_le (F_Fin 0) (f64_of_nat n)"
  by (simp add: f64_of_nat_def f64_of_rat_nonneg)

lemma f_add_nonneg: "f_le (F_Fin 0) x \<Longrightarrow> f_le (F_Fin 0) y \<Longrightarrow> f_le (F_Fin 0) (f_add x y)"
  by (cases x; cases y) (auto simp: f64_of_rat_nonneg)

lemma f_div_nonneg_pos: "f_le (F_Fin 0) x \<Longrightarrow> 0 < c \<Longrightarrow> f_le (F_Fin 0) (f_div x (F_Fin c))"
  by (cases x) (auto simp: f64_of_rat_nonneg)

lemma f_mul_nonneg_pos: "f_le (F_Fin 0) x \<Longrightarrow> 0 < c \<Longrightarrow> f_le (F_Fin 0) (f_mul x (F_Fin c))"
  by (cases x) (auto simp: f64_of_rat_nonneg)

lemma nanos_f64: "f64_of_nat (10 ^ 9) = F_Fin (10 ^ 9)"
  using f64_of_nat_exact[of "10 ^ 9"] by simp

lemma f64_of_rat_eq_1: "f64_of_rat 1 = F_Fin 1"
  using f64_of_nat_exact[of 1] by (simp add: f64_of_nat_def)

text \<open>The fraction of a second as a double: between 0 and 1, and monotone.\<close>

definition nanos_part :: "nat \<Rightarrow> f64" where
  "nanos_part k = f_div (f64_of_nat k) (f64_of_nat (10 ^ 9))"

lemma nanos_part:
  assumes "k < 10 ^ 9"
  obtains r where "nanos_part k = F_Fin r" "0 \<le> r" "r \<le> 1"
proof -
  have "nanos_part k = f64_of_rat (of_nat k / 10 ^ 9)"
    using assms f64_of_nat_exact[of k] by (simp add: nanos_part_def nanos_f64[simplified])
  moreover have "f_le (f64_of_rat (of_nat k / 10 ^ 9)) (f64_of_rat 1)" "f_le (F_Fin 0) (f64_of_rat (of_nat k / 10 ^ 9))"
    using assms by (auto intro!: f64_of_rat_mono_nonneg f64_of_rat_nonneg)
  ultimately have "f_le (nanos_part k) (F_Fin 1)" "f_le (F_Fin 0) (nanos_part k)"
    by (simp_all add: f64_of_rat_eq_1)
  then show thesis using that by (cases "nanos_part k") auto
qed

lemma nanos_part_mono: "j \<le> k \<Longrightarrow> k < 10 ^ 9 \<Longrightarrow> f_le (nanos_part j) (nanos_part k)"
  using f64_of_nat_exact[of j] f64_of_nat_exact[of k]
  by (auto simp: nanos_part_def nanos_f64[simplified] intro!: f64_of_rat_mono_nonneg divide_right_mono)

lemma as_secs_f64_parts:
  assumes "d < secs (2 ^ 53)"
  obtains r where "nanos_part (d mod 10 ^ 9) = F_Fin r" "0 \<le> r" "r \<le> 1"
    "as_secs_f64 d = f64_of_rat (of_nat (d div 10 ^ 9) + r)"
proof -
  obtain r where "nanos_part (d mod 10 ^ 9) = F_Fin r" "0 \<le> r" "r \<le> 1"
    by (rule nanos_part[of "d mod 10 ^ 9"]) auto
  moreover have "d div 10 ^ 9 < 2 ^ 53" using assms by (simp add: div_less_iff_less_mult)
  then have "f64_of_nat (d div 10 ^ 9) = F_Fin (of_nat (d div 10 ^ 9))" by (rule f64_of_nat_exact)
  ultimately show thesis using that by (simp add: as_secs_f64_def nanos_part_def)
qed

lemma as_secs_f64_mono:
  assumes "d \<le> e" "e < secs (2 ^ 53)"
  shows "f_le (as_secs_f64 d) (as_secs_f64 e)"
proof -
  let ?q = "\<lambda>x. x div 10 ^ 9 :: nat" and ?m = "\<lambda>x. x mod 10 ^ 9 :: nat"
  obtain r where r: "nanos_part (?m d) = F_Fin r" "0 \<le> r" "r \<le> 1" "as_secs_f64 d = f64_of_rat (of_nat (?q d) + r)"
    using assms by (auto intro: as_secs_f64_parts[of d])
  obtain s where s: "nanos_part (?m e) = F_Fin s" "0 \<le> s" "s \<le> 1" "as_secs_f64 e = f64_of_rat (of_nat (?q e) + s)"
    using assms(2) by (rule as_secs_f64_parts)
  have "?q d \<le> ?q e" using assms(1) by (rule div_le_mono)
  then consider "?q d < ?q e" | "?q d = ?q e" by linarith
  then have "(of_nat (?q d) + r :: rat) \<le> of_nat (?q e) + s"
  proof cases
    case 1
    then have "(of_nat (?q d) + 1 :: rat) \<le> of_nat (?q e)" by (metis Suc_leI of_nat_Suc of_nat_le_iff add.commute)
    with r s show ?thesis by linarith
  next
    case 2
    then have "?m d \<le> ?m e" using assms(1) by (metis div_mult_mod_eq nat_add_left_cancel_le)
    then have "f_le (nanos_part (?m d)) (nanos_part (?m e))" by (rule nanos_part_mono) simp
    with 2 r s show ?thesis by simp
  qed
  then show ?thesis unfolding r(4) s(4) using r(2) by (intro f64_of_rat_mono_nonneg) auto
qed

lemma as_secs_f64_nonneg: "f_le (F_Fin 0) (as_secs_f64 d)"
  unfolding as_secs_f64_def nanos_f64
  by (intro f_add_nonneg f_div_nonneg_pos f64_of_nat_nonneg) simp

text \<open>Division by a nonnegative double is monotone once it is cast: a zero divisor gives zero or the
  largest integer, an infinite one zero.\<close>

lemma as_unsigned_floor_div_mono:
  assumes "f_le (F_Fin 0) x" "f_le x y" "f_le (F_Fin 0) d"
  shows "f_as_unsigned 64 (f_floor (f_div x d)) \<le> f_as_unsigned 64 (f_floor (f_div y d))"
proof (cases d)
  case (F_Fin c)
  show ?thesis
  proof (cases "c = 0")
    case True
    then show ?thesis using assms F_Fin f_as_unsigned_bound[of 64 "f_floor (f_div x d)"]
      by (cases x; cases y) (auto simp: less_Suc_eq_le)
  next
    case False
    then have "0 < c" using assms(3) F_Fin by simp
    then show ?thesis unfolding F_Fin
      by (intro f_as_unsigned_mono f_floor_mono f_div_mono_pos assms)
  qed
qed (use assms in \<open>cases x; cases y; auto\<close>)+

definition fresh_counter :: "duration \<Rightarrow> nat \<Rightarrow> nat \<Rightarrow> rolling_counter" where
  "fresh_counter window k start =
     \<lparr>rl_buckets = Suc k, rl_bucket_duration = f_div (as_secs_f64 window) (f64_of_nat (Suc k)),
      rl_start = start, rl_counters = replicate (Suc k) 0, rl_laps = replicate (Suc k) 0\<rparr>"

abbreviation slot_of :: "rolling_counter \<Rightarrow> nat \<Rightarrow> nat" where
  "slot_of rc t \<equiv> fst (get_index_and_lap rc t)"

abbreviation lap_of :: "rolling_counter \<Rightarrow> nat \<Rightarrow> nat" where
  "lap_of rc t \<equiv> unat (snd (get_index_and_lap rc t))"

lemma bucket_span_nonneg:
  assumes "k < 2 ^ 32"
  shows "f_le (F_Fin 0) (f_mul (f_div (as_secs_f64 window) (f64_of_nat (Suc k))) (f64_of_nat (Suc k)))"
proof -
  have "f64_of_nat (Suc k) = F_Fin (of_nat (Suc k))" using assms by (intro f64_of_nat_exact) simp
  moreover have "(0 :: rat) < of_nat (Suc k)" by simp
  ultimately show ?thesis by (metis f_mul_nonneg_pos f_div_nonneg_pos as_secs_f64_nonneg)
qed

lemma lap_of_mono:
  assumes "t \<le> u" "u < start + secs (2 ^ 53)" "k < 2 ^ 32"
  shows "lap_of (fresh_counter window k start) t \<le> lap_of (fresh_counter window k start) u"
proof -
  have "f_le (as_secs_f64 (t - start)) (as_secs_f64 (u - start))"
    using assms(1,2) by (intro as_secs_f64_mono) auto
  from as_unsigned_floor_div_mono[OF as_secs_f64_nonneg this bucket_span_nonneg[OF assms(3), of window]]
  show ?thesis using f_as_unsigned_bound[of 64]
    by (simp add: get_index_and_lap_def Let_def fresh_counter_def of_nat_inverse unat_of_nat take_bit_nat_def)
qed

text \<open>The number of buckets is a nonzero \<open>u32\<close>, one more than the word \<open>b\<close>.\<close>

interpretation rl_clock: lap_clock
  "slot_of (fresh_counter window (unat (b :: 32 word)) start)"
  "lap_of (fresh_counter window (unat b) start)" "Suc (unat b)" "start + secs (2 ^ 53) - 1"
proof unfold_locales
  show "slot_of (fresh_counter window (unat b) start) t < Suc (unat b)" for t
    by (simp add: get_index_and_lap_def Let_def fresh_counter_def)
  show "lap_of (fresh_counter window (unat b) start) t \<le> lap_of (fresh_counter window (unat b) start) u"
    if "t \<le> u" "u \<le> start + secs (2 ^ 53) - 1" for t u
    using that unsigned_less[of b, where ?'a = nat] by (intro lap_of_mono) auto
  show "lap_of (fresh_counter window (unat b) start) t < 2 ^ 64" for t
    using unsigned_less[of "snd (get_index_and_lap (fresh_counter window (unat b) start) t)", where ?'a = nat]
    by simp
qed

text \<open>An increment changes the arrays only, so every event is placed by the clock of the new counter.\<close>

lemma get_index_and_lap_arrays [simp]:
  "get_index_and_lap (rc\<lparr>rl_counters := cs, rl_laps := ls\<rparr>) = get_index_and_lap rc"
  by (simp add: get_index_and_lap_def fun_eq_iff)

lemma rl_incr_run:
  "foldl rl_incr (fresh_counter window (unat (b :: 32 word)) start) ts =
     (fresh_counter window (unat b) start)
       \<lparr>rl_counters := fst (rl_clock.run window b start ts), rl_laps := snd (rl_clock.run window b start ts)\<rparr>"
proof (induction ts rule: rev_induct)
  case Nil
  then show ?case unfolding rl_clock.run_Nil by (simp add: fresh_counter_def)
next
  case (snoc t ts)
  obtain cs ls where r: "rl_clock.run window b start ts = (cs, ls)"
    by (cases "rl_clock.run window b start ts")
  have "rl_clock.run window b start (ts @ [t]) =
      bump (slot_of (fresh_counter window (unat b) start) t) (snd (get_index_and_lap (fresh_counter window (unat b) start) t)) (cs, ls)"
    by (simp add: rl_clock.run_snoc r del: bump.simps)
  then show ?case using snoc r
    by (simp add: rl_incr_def case_prod_beta del: bump.simps)
qed

lemma rolling_counter_new_ok:
  assumes "rolling_counter_new window buckets start = (Inr rc :: ('e abort, _) result)" "buckets < 2 ^ 32"
  obtains b :: "32 word" where "rc = fresh_counter window (unat b) start"
proof -
  obtain k where k: "buckets = Suc k"
    using assms(1) by (auto simp: rolling_counter_new_def gr0_conv_Suc split: if_splits)
  then have "unat (of_nat k :: 32 word) = k" using assms(2) by (simp add: unat_of_nat take_bit_nat_def)
  then have "rc = fresh_counter window (unat (of_nat k :: 32 word)) start"
    using assms(1) k by (simp add: rolling_counter_new_def fresh_counter_def)
  then show thesis by (rule that)
qed

lemma metrics_registry_covers: "metrics_registry_default fresh e = Some fresh"
  by (cases e; rename_tac x; case_tac x)
     (simp_all add: metrics_registry_default_def inference_provider_iter_def)

section \<open>Concurrent increments\<close>

text \<open>
  One bucket that several threads increment in the same lap, with one step per atomic operation
  of \<open>incr\<close>: the load of the lap, the compare-and-exchange, the store of zero and the addition.
\<close>

datatype incr_pc = PC_Load | PC_Cas "64 word" | PC_Store | PC_Add | PC_Done

record 't bucket_state =
  bs_lap :: "64 word"
  bs_count :: nat
  bs_pc :: "'t \<Rightarrow> incr_pc"

inductive incr_step :: "64 word \<Rightarrow> 't bucket_state \<Rightarrow> 't bucket_state \<Rightarrow> bool" for lap where
  load_same: "bs_pc s t = PC_Load \<Longrightarrow> bs_lap s = lap \<Longrightarrow>
    incr_step lap s (s\<lparr>bs_pc := (bs_pc s)(t := PC_Add)\<rparr>)"
| load_other: "bs_pc s t = PC_Load \<Longrightarrow> bs_lap s \<noteq> lap \<Longrightarrow>
    incr_step lap s (s\<lparr>bs_pc := (bs_pc s)(t := PC_Cas (bs_lap s))\<rparr>)"
| cas_ok: "bs_pc s t = PC_Cas last_lap \<Longrightarrow> bs_lap s = last_lap \<Longrightarrow>
    incr_step lap s (s\<lparr>bs_lap := lap, bs_pc := (bs_pc s)(t := PC_Store)\<rparr>)"
| cas_fail: "bs_pc s t = PC_Cas last_lap \<Longrightarrow> bs_lap s \<noteq> last_lap \<Longrightarrow>
    incr_step lap s (s\<lparr>bs_pc := (bs_pc s)(t := PC_Add)\<rparr>)"
| store: "bs_pc s t = PC_Store \<Longrightarrow>
    incr_step lap s (s\<lparr>bs_count := 0, bs_pc := (bs_pc s)(t := PC_Add)\<rparr>)"
| add: "bs_pc s t = PC_Add \<Longrightarrow>
    incr_step lap s (s\<lparr>bs_count := bs_count s + 1, bs_pc := (bs_pc s)(t := PC_Done)\<rparr>)"

inductive incr_steps :: "64 word \<Rightarrow> 't bucket_state \<Rightarrow> 't bucket_state \<Rightarrow> bool" for lap where
  incr_refl: "incr_steps lap s s"
| incr_more: "incr_steps lap s s' \<Longrightarrow> incr_step lap s' s'' \<Longrightarrow> incr_steps lap s s''"

definition incr_start :: "64 word \<Rightarrow> nat \<Rightarrow> 't bucket_state" where
  "incr_start old_lap old_count = \<lparr>bs_lap = old_lap, bs_count = old_count, bs_pc = (\<lambda>t. PC_Load)\<rparr>"

abbreviation done_threads :: "'t bucket_state \<Rightarrow> 't set" where
  "done_threads s \<equiv> {t. bs_pc s t = PC_Done}"

text \<open>
  The invariant of a lap change from \<open>old\<close> to \<open>lap\<close>: before the exchange nobody has stored or added;
  after it, one thread at most is about to store; once it has stored, the count is at most the number
  of finished increments.
\<close>

definition lap_change_inv :: "64 word \<Rightarrow> 64 word \<Rightarrow> 't bucket_state \<Rightarrow> bool" where
  "lap_change_inv old lap s \<longleftrightarrow>
     (\<forall>t l. bs_pc s t = PC_Cas l \<longrightarrow> l = old) \<and>
     (if bs_lap s = lap
      then (\<forall>t u. bs_pc s t = PC_Store \<longrightarrow> bs_pc s u = PC_Store \<longrightarrow> t = u) \<and>
           ((\<forall>t. bs_pc s t \<noteq> PC_Store) \<longrightarrow> bs_count s \<le> card (done_threads s))
      else bs_lap s = old \<and> (\<forall>t. bs_pc s t = PC_Load \<or> bs_pc s t = PC_Cas old))"

lemma done_insert:
  "bs_pc s t \<noteq> PC_Done \<Longrightarrow>
     card (done_threads (s\<lparr>bs_count := c, bs_pc := (bs_pc s)(t := PC_Done)\<rparr>)) = Suc (card (done_threads s))"
  for s :: "('t :: finite) bucket_state"
proof -
  assume "bs_pc s t \<noteq> PC_Done"
  moreover have "done_threads (s\<lparr>bs_count := c, bs_pc := (bs_pc s)(t := PC_Done)\<rparr>) = insert t (done_threads s)"
    by auto
  ultimately show ?thesis by simp
qed

lemma lap_change_pc:
  assumes inv: "lap_change_inv old lap s"
    and "bs_pc s t \<noteq> PC_Store" "bs_pc s t \<noteq> PC_Done" "pc \<noteq> PC_Store" "pc \<noteq> PC_Done"
    and cas: "\<And>l. pc = PC_Cas l \<Longrightarrow> l = old"
    and early: "bs_lap s \<noteq> lap \<Longrightarrow> pc = PC_Load \<or> pc = PC_Cas old"
  shows "lap_change_inv old lap (s\<lparr>bs_pc := (bs_pc s)(t := pc)\<rparr>)"
proof -
  let ?pc = "(bs_pc s)(t := pc)"
  have eq: "?pc u = PC_Store \<longleftrightarrow> bs_pc s u = PC_Store" "?pc u = PC_Done \<longleftrightarrow> bs_pc s u = PC_Done" for u
    using assms(2-5) by auto
  have "\<forall>u l. ?pc u = PC_Cas l \<longrightarrow> l = old" using inv cas by (auto simp: lap_change_inv_def)
  moreover have "\<forall>u. ?pc u = PC_Load \<or> ?pc u = PC_Cas old" if "bs_lap s \<noteq> lap"
    using inv early that by (auto simp: lap_change_inv_def)
  moreover have sel: "bs_pc (s\<lparr>bs_pc := ?pc\<rparr>) = ?pc" "bs_lap (s\<lparr>bs_pc := ?pc\<rparr>) = bs_lap s"
    "bs_count (s\<lparr>bs_pc := ?pc\<rparr>) = bs_count s" by simp_all
  ultimately show ?thesis using inv unfolding lap_change_inv_def sel eq by meson
qed

lemma lap_change_started:
  "lap_change_inv old lap s \<Longrightarrow> bs_pc s t \<noteq> PC_Load \<Longrightarrow> bs_pc s t \<noteq> PC_Cas old \<Longrightarrow> bs_lap s = lap"
  unfolding lap_change_inv_def by (meson)

lemma lap_change_step:
  fixes s :: "('t :: finite) bucket_state"
  assumes "incr_step lap s s'" and inv: "lap_change_inv old lap s" and "old \<noteq> lap"
  shows "lap_change_inv old lap s'"
  using assms(1)
proof cases
  case (load_same t)
  then show ?thesis unfolding load_same(1) by (intro lap_change_pc[OF inv]) auto
next
  case (load_other t)
  then have "bs_lap s = old" using inv by (auto simp: lap_change_inv_def split: if_splits)
  with load_other show ?thesis unfolding load_other(1) by (intro lap_change_pc[OF inv]) auto
next
  case (cas_ok t last_lap)
  then have "last_lap = old" using inv by (auto simp: lap_change_inv_def)
  with cas_ok(3) assms(3) have "bs_lap s \<noteq> lap" by simp
  then have "\<forall>u. bs_pc s u = PC_Load \<or> bs_pc s u = PC_Cas old"
    using inv unfolding lap_change_inv_def by simp
  then have "bs_pc s u \<noteq> PC_Store" for u by (metis incr_pc.distinct)
  moreover have "\<forall>u l. bs_pc s u = PC_Cas l \<longrightarrow> l = old" using inv by (simp add: lap_change_inv_def)
  ultimately show ?thesis unfolding lap_change_inv_def cas_ok(1) by auto
next
  case (cas_fail t last_lap)
  then have "last_lap = old" using inv by (auto simp: lap_change_inv_def)
  moreover have "bs_lap s \<noteq> lap \<Longrightarrow> bs_lap s = old" using inv unfolding lap_change_inv_def by simp
  ultimately have "bs_lap s = lap" using cas_fail(3) by blast
  with cas_fail show ?thesis unfolding cas_fail(1) by (intro lap_change_pc[OF inv]) auto
next
  case (store t)
  then have "bs_lap s = lap" using lap_change_started[OF inv, of t] by simp
  then show ?thesis using store inv by (auto simp: lap_change_inv_def)
next
  case (add t)
  then have "bs_lap s = lap" using lap_change_started[OF inv, of t] by simp
  moreover have "(\<forall>u. u \<noteq> t \<longrightarrow> bs_pc s u \<noteq> PC_Store) \<longleftrightarrow> (\<forall>u. bs_pc s u \<noteq> PC_Store)"
    using add by (metis incr_pc.distinct)
  ultimately show ?thesis using add inv done_insert[of s t "bs_count s + 1"]
    by (auto simp: lap_change_inv_def)
qed

lemma lap_change_steps:
  fixes s :: "('t :: finite) bucket_state"
  assumes "incr_steps lap s s'" "lap_change_inv old lap s" "old \<noteq> lap"
  shows "lap_change_inv old lap s'"
  using assms by induction (auto intro: lap_change_step)

lemma quiescent_count:
  fixes s :: "('t :: finite) bucket_state"
  assumes "incr_steps lap (incr_start old c) s" "old \<noteq> lap" "\<forall>t. bs_pc s t = PC_Done"
  shows "bs_lap s = lap \<and> bs_count s \<le> card (UNIV :: 't set)"
proof -
  have "lap_change_inv old lap (incr_start old c :: 't bucket_state)"
    using assms(2) by (simp add: lap_change_inv_def incr_start_def)
  then have inv: "lap_change_inv old lap s" using lap_change_steps[OF assms(1)] assms(2) by blast
  have "bs_lap s = lap" using lap_change_started[OF inv] assms(3) by simp
  then show ?thesis using inv assms(3) by (simp add: lap_change_inv_def)
qed

text \<open>The next step of a thread, and the run of a schedule of threads.\<close>

definition incr_next :: "64 word \<Rightarrow> 't bucket_state \<Rightarrow> 't \<Rightarrow> 't bucket_state" where
  "incr_next lap s t =
     (case bs_pc s t of
        PC_Load \<Rightarrow> s\<lparr>bs_pc := (bs_pc s)(t := if bs_lap s = lap then PC_Add else PC_Cas (bs_lap s))\<rparr>
      | PC_Cas last_lap \<Rightarrow>
          (if bs_lap s = last_lap then s\<lparr>bs_lap := lap, bs_pc := (bs_pc s)(t := PC_Store)\<rparr>
           else s\<lparr>bs_pc := (bs_pc s)(t := PC_Add)\<rparr>)
      | PC_Store \<Rightarrow> s\<lparr>bs_count := 0, bs_pc := (bs_pc s)(t := PC_Add)\<rparr>
      | PC_Add \<Rightarrow> s\<lparr>bs_count := bs_count s + 1, bs_pc := (bs_pc s)(t := PC_Done)\<rparr>
      | PC_Done \<Rightarrow> s)"

lemma incr_next_step: "bs_pc s t \<noteq> PC_Done \<Longrightarrow> incr_step lap s (incr_next lap s t)"
  by (cases "bs_pc s t") (auto simp: incr_next_def intro: incr_step.intros incr_step.add[simplified])

lemma incr_next_done: "bs_pc s t = PC_Done \<Longrightarrow> incr_next lap s t = s"
  by (simp add: incr_next_def)

lemma incr_schedule: "incr_steps lap s (foldl (incr_next lap) s ts)"
proof (induction ts rule: rev_induct)
  case (snoc t ts)
  let ?s = "foldl (incr_next lap) s ts"
  show ?case
  proof (cases "bs_pc ?s t = PC_Done")
    case True
    then show ?thesis using snoc by (simp add: incr_next_done)
  next
    case False
    then show ?thesis using incr_more[OF snoc incr_next_step[OF False]] by simp
  qed
qed (simp add: incr_refl)

section \<open>Properties\<close>

text \<open>C25. Run by one thread, the counter returns the number of events of the lap that the current time
  is in, modulo \<open>2 ^ 32\<close>: it is a count over the window that began at the last lap boundary, not
  over the last window's length.\<close>

theorem rolling_total_current_lap:
  assumes "rolling_counter_new window buckets start = (Inr rc :: (unit abort, _) result)" "buckets < 2 ^ 32"
    and "sorted ts" "\<forall>t \<in> set ts. t \<le> now" "now < start + secs (2 ^ 53)"
  shows "rl_total (foldl rl_incr rc ts) now = of_nat (length (filter (\<lambda>t. lap_of rc t = lap_of rc now) ts))"
proof -
  obtain b :: "32 word" where rc: "rc = fresh_counter window (unat b) start"
    by (rule rolling_counter_new_ok[OF assms(1,2)])
  have "now \<le> start + secs (2 ^ 53) - 1" using assms(5) by simp
  from rl_clock.total_current_lap[OF assms(3,4) this] show ?thesis
    unfolding rc rl_incr_run rl_total_def by simp
qed

theorem rolling_total_current_lap_witness:
  "\<exists>rc. rolling_counter_new (secs 60) 10 0 = (Inr rc :: (unit abort, _) result) \<and>
     rl_total (foldl rl_incr rc [7, 7]) 7 = 2"
proof -
  obtain rc where rc: "rolling_counter_new (secs 60) 10 0 = (Inr rc :: (unit abort, _) result)"
    by (simp add: rolling_counter_new_def)
  have "rl_total (foldl rl_incr rc [7, 7]) 7 = of_nat (length (filter (\<lambda>t. lap_of rc t = lap_of rc 7) [7, 7]))"
    by (rule rolling_total_current_lap[OF rc]) simp_all
  with rc show ?thesis by auto
qed

text \<open>Every bucket index that the clock computes is within the arrays, whatever the elapsed time and
  the bucket duration are, and an increment keeps the arrays' lengths: no access panics.\<close>

definition counter_wf :: "rolling_counter \<Rightarrow> bool" where
  "counter_wf rc \<longleftrightarrow> 0 < rl_buckets rc \<and> length (rl_counters rc) = rl_buckets rc \<and>
     length (rl_laps rc) = rl_buckets rc"

theorem rolling_counter_in_bounds:
  assumes "counter_wf rc"
  shows "counter_wf (rl_incr rc now) \<and> fst (get_index_and_lap rc now) < length (rl_counters rc) \<and>
    fst (get_index_and_lap rc now) < length (rl_laps rc)"
  using assms
  by (auto simp: counter_wf_def rl_incr_def get_index_and_lap_def Let_def split: prod.splits if_splits)

theorem rolling_counter_in_bounds_witness:
  "counter_wf (rl_incr (fresh_counter (secs 60) 9 0) 12345)"
  using rolling_counter_in_bounds[of "fresh_counter (secs 60) 9 0" 12345]
  by (simp add: counter_wf_def fresh_counter_def)

text \<open>Concurrent increments of a bucket at a lap change never leave it with more than one count per
  thread, once all of them have finished.\<close>

theorem lap_change_count_bound:
  fixes s :: "('t :: finite) bucket_state"
  assumes "incr_steps lap (incr_start old c) s" "old \<noteq> lap" "\<forall>t. bs_pc s t = PC_Done"
  shows "bs_lap s = lap \<and> bs_count s \<le> card (UNIV :: 't set)"
  using assms by (rule quiescent_count)

theorem lap_change_count_bound_witness:
  "\<exists>s :: bool bucket_state. incr_steps 1 (incr_start 0 5) s \<and> (\<forall>t. bs_pc s t = PC_Done) \<and>
     bs_count s \<le> card (UNIV :: bool set)"
proof -
  let ?s = "foldl (incr_next 1) (incr_start 0 5) [True, True, True, True, False, False]"
  have d: "\<forall>t. bs_pc ?s t = PC_Done" by (simp add: incr_next_def incr_start_def all_bool_eq)
  have "bs_lap ?s = 1 \<and> bs_count ?s \<le> card (UNIV :: bool set)"
    by (rule lap_change_count_bound[OF incr_schedule _ d]) simp
  then show ?thesis using incr_schedule d by blast
qed

text \<open>A lap change can lose an increment and, before that, show a stale count: with two threads, a
  schedule ends with the count 1 although both have finished, and passes a state in which the lap is
  the new one while the count still includes the five events of the old lap.\<close>

theorem lap_change_loses_increment:
  "\<exists>s s' :: bool bucket_state. incr_steps 1 (incr_start 0 5) s \<and> bs_lap s = 1 \<and> bs_count s = 6 \<and>
     incr_steps 1 s s' \<and> (\<forall>t. bs_pc s' t = PC_Done) \<and> bs_count s' = 1"
proof -
  let ?s = "foldl (incr_next 1) (incr_start 0 5) [True, True, False, False]"
  let ?s' = "foldl (incr_next 1) ?s [True, True]"
  have "bs_lap ?s = 1" "bs_count ?s = 6" "\<forall>t. bs_pc ?s' t = PC_Done" "bs_count ?s' = 1"
    by (simp_all add: incr_next_def incr_start_def all_bool_eq)
  then show ?thesis using incr_schedule[of 1 "incr_start 0 5"] incr_schedule[of 1 ?s] by blast
qed

text \<open>The registry has metrics for every endpoint, so the error of a missing entry does not occur.\<close>

theorem metrics_always_configured: "health_metrics (metrics_registry_default fresh) e = Inr fresh"
  by (simp add: health_metrics_def metrics_registry_covers)

end
