(* ===== verification/Weighted_Balance.thy ===== *)
theory Weighted_Balance
  imports Router
begin

text \<open>
  The crate \<open>weighted-balance\<close>: weights as integers (\<open>weight.rs\<close>) and the balancer that samples a
  ready service by weight (\<open>balance/mod.rs\<close>). Parameters: \<open>ReadyCache\<close> of \<open>tower\<close> and
  \<open>sample_weighted\<close> of \<open>rand\<close>, each with the behaviour its documentation states.
\<close>

section \<open>Weights\<close>

type_synonym weight = "32 word"

definition W_MIN :: weight where "W_MIN = 0"
definition W_UNIT :: weight where "W_UNIT = 10000"
definition W_MAX :: weight where "W_MAX = - 1"

definition weight_from_f64 :: "f64 \<Rightarrow> weight" where
  "weight_from_f64 w =
     (if f_lt w (F_Fin 0) \<or> f_is_nan w then W_MIN
      else if f_is_infinite w then W_MAX
      else of_nat (f_as_unsigned 32 (f_round (f_mul w (f64_of_nat (unat W_UNIT))))))"

definition f64_from_weight :: "weight \<Rightarrow> f64" where
  "f64_from_weight w = f_div (f64_of_nat (unat w)) (f64_of_nat (unat W_UNIT))"

definition div_weight :: "f64 \<Rightarrow> weight \<Rightarrow> f64" where
  "div_weight x w = (if w = W_MIN then F_PInf else f_div x (f64_from_weight w))"

section \<open>The services of a balancer\<close>

datatype check_result = CR_Ready | CR_NotReady | CR_Failed

record ('c, 'k, 's) ready_cache =
  rcc_empty :: 'c
  rcc_ready_len :: "'c \<Rightarrow> nat"
  rcc_pending_len :: "'c \<Rightarrow> nat"
  rcc_get_ready :: "'c \<Rightarrow> nat \<Rightarrow> 'k option"
  rcc_check_ready :: "'c \<Rightarrow> nat \<Rightarrow> 'c \<times> check_result"
  rcc_push :: "'c \<Rightarrow> 'k \<Rightarrow> 's \<Rightarrow> 'c"
  rcc_evict :: "'c \<Rightarrow> 'k \<Rightarrow> 'c"
  rcc_poll_pending :: "'c \<Rightarrow> 'c \<times> (unit, unit) result poll"
  rcc_call_ready :: "'c \<Rightarrow> nat \<Rightarrow> 'c \<times> 'k option"

datatype sample_error = SampleInsufficientNonZero | SampleInvalidWeight

datatype wb_error = WB_Discover string | WB_SampleFailed sample_error

datatype ('k, 's) change = Insert 'k 's | Remove 'k

record ('c, 'g) weighted_balance =
  wb_services :: 'c
  wb_ready_index :: "nat option"
  wb_rng :: 'g

definition wb_new :: "('c, 'k, 's) ready_cache \<Rightarrow> 'g \<Rightarrow> ('c, 'g) weighted_balance" where
  "wb_new R g = \<lparr>wb_services = rcc_empty R, wb_ready_index = None, wb_rng = g\<rparr>"

text \<open>
  \<open>update_pending_from_discover\<close>: \<open>changes\<close> are the changes that the discovery stream has to give
  before it is pending or ends. Then \<open>promote_pending_to_ready\<close>: a service that fails while it is
  pending is dropped, so that there is one poll per pending service and a last one.
\<close>

fun update_pending_from_discover ::
  "('c, 'k, 's) ready_cache \<Rightarrow> 'c \<Rightarrow> ('k, 's) change list \<Rightarrow> 'c" where
  "update_pending_from_discover R c [] = c"
| "update_pending_from_discover R c (Remove k # rest) = update_pending_from_discover R (rcc_evict R c k) rest"
| "update_pending_from_discover R c (Insert k s # rest) = update_pending_from_discover R (rcc_push R c k s) rest"

fun promote_loop :: "('c, 'k, 's) ready_cache \<Rightarrow> nat \<Rightarrow> 'c \<Rightarrow> 'c" where
  "promote_loop R 0 c = c"
| "promote_loop R (Suc n) c =
     (case rcc_poll_pending R c of
        (c', Ready (Inl _)) \<Rightarrow> promote_loop R n c'
      | (c', _) \<Rightarrow> c')"

definition promote_pending_to_ready :: "('c, 'k, 's) ready_cache \<Rightarrow> 'c \<Rightarrow> 'c" where
  "promote_pending_to_ready R c = promote_loop R (Suc (rcc_pending_len R c)) c"

type_synonym 'g sampler = "'g \<Rightarrow> weight list \<Rightarrow> 'g \<times> (sample_error, nat) result"

definition ready_weights :: "('c, 'k, 's) ready_cache \<Rightarrow> ('k \<Rightarrow> weight) \<Rightarrow> 'c \<Rightarrow> weight list" where
  "ready_weights R wt c = map (\<lambda>i. wt (the (rcc_get_ready R c i))) [0..<rcc_ready_len R c]"

text \<open>\<open>ready_index\<close>: nothing, the only ready service, or a sampled one.\<close>

definition choose_index ::
  "('c, 'k, 's) ready_cache \<Rightarrow> 'g sampler \<Rightarrow> ('k \<Rightarrow> weight) \<Rightarrow> ('c, 'g) weighted_balance \<Rightarrow>
     'g \<times> (wb_error, nat option) result" where
  "choose_index R sample wt b =
     (let len = rcc_ready_len R (wb_services b) in
      if len = 0 then (wb_rng b, Inr None)
      else if len = 1 then (wb_rng b, Inr (Some 0))
      else (case sample (wb_rng b) (ready_weights R wt (wb_services b)) of
              (g, Inl e) \<Rightarrow> (g, Inl (WB_SampleFailed e))
            | (g, Inr i) \<Rightarrow> (g, Inr (Some i))))"

text \<open>The loop of \<open>poll_ready\<close>, with fuel; \<open>None\<close> is a loop that has not ended.\<close>

fun ready_loop ::
  "nat \<Rightarrow> ('c, 'k, 's) ready_cache \<Rightarrow> 'g sampler \<Rightarrow> ('k \<Rightarrow> weight) \<Rightarrow> ('c, 'g) weighted_balance \<Rightarrow>
     (('c, 'g) weighted_balance \<times> (wb_error, unit) result poll) option" where
  "ready_loop 0 R sample wt b = None"
| "ready_loop (Suc n) R sample wt b =
     (let select = (\<lambda>b. case choose_index R sample wt b of
             (g, Inl e) \<Rightarrow> Some (b\<lparr>wb_rng := g\<rparr>, Ready (Inl e))
           | (g, Inr None) \<Rightarrow> Some (b\<lparr>wb_rng := g\<rparr>, Pending)
           | (g, Inr (Some i)) \<Rightarrow> ready_loop n R sample wt (b\<lparr>wb_rng := g, wb_ready_index := Some i\<rparr>))
      in case wb_ready_index b of
           None \<Rightarrow> select b
         | Some index \<Rightarrow>
             (case rcc_check_ready R (wb_services b) index of
                (c, CR_Ready) \<Rightarrow> Some (b\<lparr>wb_services := c, wb_ready_index := Some index\<rparr>, Ready (Inr ()))
              | (c, _) \<Rightarrow> select (b\<lparr>wb_services := c, wb_ready_index := None\<rparr>)))"

definition wb_poll_ready ::
  "nat \<Rightarrow> ('c, 'k, 's) ready_cache \<Rightarrow> 'g sampler \<Rightarrow> ('k \<Rightarrow> weight) \<Rightarrow> ('k, 's) change list \<Rightarrow>
     ('c, 'g) weighted_balance \<Rightarrow> (('c, 'g) weighted_balance \<times> (wb_error, unit) result poll) option" where
  "wb_poll_ready fuel R sample wt changes b =
     ready_loop fuel R sample wt
       (b\<lparr>wb_services := promote_pending_to_ready R
            (update_pending_from_discover R (wb_services b) changes)\<rparr>)"

definition wb_call ::
  "('c, 'k, 's) ready_cache \<Rightarrow> ('c, 'g) weighted_balance \<Rightarrow>
     ('e abort, ('c, 'g) weighted_balance \<times> 'k option) result" where
  "wb_call R b =
     (case wb_ready_index b of
        None \<Rightarrow> Inl Panicked
      | Some i \<Rightarrow>
          (case rcc_call_ready R (wb_services b) i of
             (c, k) \<Rightarrow> Inr (b\<lparr>wb_services := c, wb_ready_index := None\<rparr>, k)))"

section \<open>What the balancer relies on\<close>

text \<open>
  \<open>check_ready_index\<close> documents that a ready service stays where it is, that one that is no longer
  ready leaves the ready set, and that an index without a service is not ready. The key of each
  ready index can be read, and \<open>poll_pending\<close> drops the pending service whose error it returns.
\<close>

definition ready_cache_law :: "('c, 'k, 's) ready_cache \<Rightarrow> bool" where
  "ready_cache_law R \<longleftrightarrow>
     (\<forall>c i c'. rcc_check_ready R c i = (c', CR_Ready) \<longrightarrow>
        i < rcc_ready_len R c \<and> rcc_ready_len R c' = rcc_ready_len R c \<and>
        (\<forall>j. rcc_get_ready R c' j = rcc_get_ready R c j)) \<and>
     (\<forall>c i c' r. rcc_check_ready R c i = (c', r) \<longrightarrow> r \<noteq> CR_Ready \<longrightarrow> i < rcc_ready_len R c \<longrightarrow>
        Suc (rcc_ready_len R c') = rcc_ready_len R c) \<and>
     (\<forall>c i c' r. rcc_check_ready R c i = (c', r) \<longrightarrow> r \<noteq> CR_Ready \<longrightarrow> rcc_ready_len R c \<le> i \<longrightarrow> c' = c) \<and>
     (\<forall>c i. i < rcc_ready_len R c \<longleftrightarrow> rcc_get_ready R c i \<noteq> None) \<and>
     (\<forall>c i. snd (rcc_call_ready R c i) = rcc_get_ready R c i) \<and>
     (\<forall>c c' e. rcc_poll_pending R c = (c', Ready (Inl e)) \<longrightarrow> rcc_pending_len R c' < rcc_pending_len R c)"

text \<open>
  \<open>sample_weighted\<close> with one sample: an index of nonzero weight, or an error exactly when all weights
  are zero.
\<close>

definition sampler_law :: "'g sampler \<Rightarrow> bool" where
  "sampler_law sample \<longleftrightarrow>
     (\<forall>g ws g' i. sample g ws = (g', Inr i) \<longrightarrow> i < length ws \<and> ws ! i \<noteq> 0) \<and>
     (\<forall>g ws g' e. sample g ws = (g', Inl e) \<longrightarrow> (\<forall>w \<in> set ws. w = 0))"

section \<open>Lemmas\<close>

lemma promote_enough:
  "ready_cache_law R \<Longrightarrow> Suc (rcc_pending_len R c) \<le> n \<Longrightarrow> promote_loop R n c = promote_pending_to_ready R c"
proof -
  assume law: "ready_cache_law R" and n: "Suc (rcc_pending_len R c) \<le> n"
  have "Suc (rcc_pending_len R c) \<le> n \<Longrightarrow> Suc (rcc_pending_len R c) \<le> m \<Longrightarrow> promote_loop R n c = promote_loop R m c" for m n
  proof (induction n arbitrary: c m)
    case (Suc n)
    then obtain m' where m: "m = Suc m'" by (cases m) auto
    have "rcc_pending_len R c' < rcc_pending_len R c" if "rcc_poll_pending R c = (c', Ready (Inl e))" for c' e
      using law that unfolding ready_cache_law_def by blast
    then show ?case using Suc.IH Suc.prems m
      by (fastforce split: prod.splits poll.splits sum.splits)
  qed simp
  then show ?thesis using n unfolding promote_pending_to_ready_def by blast
qed

lemma choose_index_cases:
  assumes "choose_index R sample wt b = (g, r)" "sampler_law sample" "ready_cache_law R"
  shows "case r of
      Inl e \<Rightarrow> 2 \<le> rcc_ready_len R (wb_services b) \<and> (\<forall>w \<in> set (ready_weights R wt (wb_services b)). w = 0)
    | Inr None \<Rightarrow> rcc_ready_len R (wb_services b) = 0
    | Inr (Some i) \<Rightarrow> i < rcc_ready_len R (wb_services b) \<and>
        (rcc_ready_len R (wb_services b) = 1 \<or> wt (the (rcc_get_ready R (wb_services b) i)) \<noteq> 0)"
proof -
  let ?len = "rcc_ready_len R (wb_services b)"
  consider "?len = 0" | "?len = 1" | "2 \<le> ?len" by linarith
  then show ?thesis
  proof cases
    case 3
    obtain g' s where sm: "sample (wb_rng b) (ready_weights R wt (wb_services b)) = (g', s)"
      by (cases "sample (wb_rng b) (ready_weights R wt (wb_services b))")
    show ?thesis
    proof (cases s)
      case (Inl e)
      then have "\<forall>w \<in> set (ready_weights R wt (wb_services b)). w = 0"
        using assms(2) sm unfolding sampler_law_def by blast
      then show ?thesis using assms(1) 3 sm Inl by (auto simp: choose_index_def Let_def)
    next
      case (Inr i)
      then have "i < length (ready_weights R wt (wb_services b)) \<and> ready_weights R wt (wb_services b) ! i \<noteq> 0"
        using assms(2) sm unfolding sampler_law_def by blast
      then show ?thesis using assms(1) 3 sm Inr by (auto simp: choose_index_def Let_def ready_weights_def)
    qed
  qed (use assms(1) in \<open>auto simp: choose_index_def\<close>)
qed

lemma choose_index_bound:
  "choose_index R sample wt b = (g, Inr (Some i)) \<Longrightarrow> sampler_law sample \<Longrightarrow> ready_cache_law R \<Longrightarrow>
     i < rcc_ready_len R (wb_services b)"
  using choose_index_cases by fastforce

lemma select_returns:
  assumes "sampler_law sample" "ready_cache_law R"
    and next_ok: "\<And>g i. i < rcc_ready_len R (wb_services b) \<Longrightarrow>
      \<exists>r. ready_loop n R sample wt (b\<lparr>wb_rng := g, wb_ready_index := Some i\<rparr>) = Some r"
  shows "\<exists>r. (case choose_index R sample wt b of
             (g, Inl e) \<Rightarrow> Some (b\<lparr>wb_rng := g\<rparr>, Ready (Inl e))
           | (g, Inr None) \<Rightarrow> Some (b\<lparr>wb_rng := g\<rparr>, Pending)
           | (g, Inr (Some i)) \<Rightarrow> ready_loop n R sample wt (b\<lparr>wb_rng := g, wb_ready_index := Some i\<rparr>)) = Some r"
  using choose_index_bound[of R sample wt b, OF _ assms(1,2)] next_ok
  by (auto split: prod.splits sum.splits option.splits)

lemma ready_loop_in_range:
  assumes laws: "sampler_law sample" "ready_cache_law R"
  shows "wb_ready_index b = Some i \<Longrightarrow> i < rcc_ready_len R (wb_services b) \<Longrightarrow>
    rcc_ready_len R (wb_services b) \<le> n \<Longrightarrow> \<exists>r. ready_loop n R sample wt b = Some r"
proof (induction n arbitrary: b i)
  case (Suc n)
  obtain c r where ck: "rcc_check_ready R (wb_services b) i = (c, r)"
    by (cases "rcc_check_ready R (wb_services b) i")
  show ?case
  proof (cases "r = CR_Ready")
    case True
    then show ?thesis using Suc.prems ck by simp
  next
    case False
    then have len: "Suc (rcc_ready_len R c) = rcc_ready_len R (wb_services b)"
      using laws(2) ck Suc.prems(2) unfolding ready_cache_law_def by blast
    have "\<exists>r. (case choose_index R sample wt (b\<lparr>wb_services := c, wb_ready_index := None\<rparr>) of
        (g, Inl e) \<Rightarrow> Some (b\<lparr>wb_services := c, wb_ready_index := None\<rparr>\<lparr>wb_rng := g\<rparr>, Ready (Inl e))
      | (g, Inr None) \<Rightarrow> Some (b\<lparr>wb_services := c, wb_ready_index := None\<rparr>\<lparr>wb_rng := g\<rparr>, Pending)
      | (g, Inr (Some i)) \<Rightarrow> ready_loop n R sample wt
          (b\<lparr>wb_services := c, wb_ready_index := None\<rparr>\<lparr>wb_rng := g, wb_ready_index := Some i\<rparr>)) = Some r"
      by (rule select_returns[OF laws]) (use Suc.IH Suc.prems(3) len in force)
    then show ?thesis using Suc.prems(1) ck False by (cases r) (simp_all add: Let_def)
  qed
qed simp

lemma ready_loop_returns:
  assumes laws: "sampler_law sample" "ready_cache_law R"
    and fuel: "Suc (rcc_ready_len R (wb_services b)) \<le> n"
  shows "\<exists>r. ready_loop n R sample wt b = Some r"
proof -
  obtain m where n: "n = Suc m" "rcc_ready_len R (wb_services b) \<le> m" using fuel by (cases n) auto
  have sel: "\<exists>r. (case choose_index R sample wt b' of
        (g, Inl e) \<Rightarrow> Some (b'\<lparr>wb_rng := g\<rparr>, Ready (Inl e))
      | (g, Inr None) \<Rightarrow> Some (b'\<lparr>wb_rng := g\<rparr>, Pending)
      | (g, Inr (Some i)) \<Rightarrow> ready_loop m R sample wt (b'\<lparr>wb_rng := g, wb_ready_index := Some i\<rparr>)) = Some r"
    if "wb_services b' = wb_services b" for b'
    by (rule select_returns[OF laws]) (rule ready_loop_in_range[OF laws], use that n in auto)
  show ?thesis
  proof (cases "wb_ready_index b")
    case None
    then show ?thesis using sel[of b] n(1) by (simp add: Let_def)
  next
    case (Some i)
    show ?thesis
    proof (cases "i < rcc_ready_len R (wb_services b)")
      case True
      then show ?thesis using fuel by (intro ready_loop_in_range[OF laws Some]) auto
    next
      case False
      obtain c r where ck: "rcc_check_ready R (wb_services b) i = (c, r)"
        by (cases "rcc_check_ready R (wb_services b) i")
      have "r \<noteq> CR_Ready" "c = wb_services b"
        using laws(2) ck False unfolding ready_cache_law_def by (metis, metis leI)
      then show ?thesis using Some ck n(1) sel[of "b\<lparr>wb_ready_index := None\<rparr>"]
        by (cases r) (simp_all add: Let_def)
    qed
  qed
qed

lemma ready_loop_ready:
  assumes "ready_cache_law R"
  shows "ready_loop n R sample wt b = Some (b', Ready (Inr ())) \<Longrightarrow>
    \<exists>i. wb_ready_index b' = Some i \<and> i < rcc_ready_len R (wb_services b')"
proof (induction n arbitrary: b)
  case (Suc n)
  show ?case
  proof (cases "\<exists>i c. wb_ready_index b = Some i \<and> rcc_check_ready R (wb_services b) i = (c, CR_Ready)")
    case True
    then obtain i c where ic: "wb_ready_index b = Some i" "rcc_check_ready R (wb_services b) i = (c, CR_Ready)"
      by blast
    then have "i < rcc_ready_len R c" using assms unfolding ready_cache_law_def by metis
    then show ?thesis using Suc.prems ic by auto
  next
    case False
    then show ?thesis using Suc.prems Suc.IH
      by (auto simp: Let_def split: option.splits prod.splits sum.splits check_result.splits)
  qed
qed simp

subsection \<open>Weights\<close>

lemma unat_W_UNIT: "unat W_UNIT = 10000"
  by (simp add: W_UNIT_def)

lemma f64_W_UNIT: "f64_of_nat (unat W_UNIT) = F_Fin 10000"
  using f64_of_nat_exact[of 10000] by (simp add: unat_W_UNIT)

lemma weight_from_f64_finite:
  "0 \<le> q \<Longrightarrow> weight_from_f64 (F_Fin q) = of_nat (f_as_unsigned 32 (f_round (f64_of_rat (q * 10000))))"
  by (simp add: weight_from_f64_def f64_W_UNIT)

lemma unat_as_unsigned: "unat (of_nat (f_as_unsigned 32 x) :: 32 word) = f_as_unsigned 32 x"
  using f_as_unsigned_bound[of 32 x] by (simp add: unat_of_nat take_bit_nat_def)

lemma weight_from_f64_mono_finite:
  assumes "0 \<le> p" "p \<le> q"
  shows "weight_from_f64 (F_Fin p) \<le> weight_from_f64 (F_Fin q)"
proof -
  have "f_as_unsigned 32 (f_round (f64_of_rat (p * 10000))) \<le> f_as_unsigned 32 (f_round (f64_of_rat (q * 10000)))"
    using assms by (intro f_as_unsigned_mono f_round_mono_nonneg f64_of_rat_nonneg f64_of_rat_mono_nonneg) auto
  then show ?thesis using assms by (simp add: weight_from_f64_finite word_le_nat_alt unat_as_unsigned)
qed

text \<open>Rounding moves a normal value by at most one part in \<open>2 ^ 53\<close>.\<close>

lemma round_pos_relative:
  assumes "2 powi (- 1022) \<le> q"
  shows "\<bar>round_pos q - q\<bar> \<le> q / 2 ^ 53"
proof -
  have q: "0 < q" using assms pow2_pos[of "- 1022"] by linarith
  have "(2 :: rat) powi (- 1022) < 2 powi (ilog2 q + 1)" using ilog2_bounds[OF q] assms by linarith
  then have "- 1022 < ilog2 q + 1" by (rule pow2_lessD)
  then have e: "lsb_exp q = ilog2 q - 52" by (simp add: lsb_exp_def)
  define u where "u = (2 :: rat) powi lsb_exp q"
  have u: "0 < u" by (simp add: u_def)
  have "round_pos q - q = (of_int (rne (q / u)) - q / u) * u"
    using u by (simp add: round_pos_def u_def[symmetric] left_diff_distrib)
  then have "\<bar>round_pos q - q\<bar> = \<bar>of_int (rne (q / u)) - q / u\<bar> * u" using u by (simp only: abs_mult abs_of_pos)
  also have "\<dots> \<le> 1 / 2 * u" using rne_error[of "q / u"] u by (intro mult_right_mono) auto
  also have "\<dots> = 2 powi ilog2 q / 2 ^ 53"
  proof -
    have "u * 2 ^ 52 = 2 powi ilog2 q" using pow2_add[of "lsb_exp q" 52] e by (simp add: u_def)
    then show ?thesis by (simp add: field_simps)
  qed
  also have "\<dots> \<le> q / 2 ^ 53" using ilog2_bounds[OF q] by (intro divide_right_mono) auto
  finally show ?thesis .
qed

lemma f64_of_rat_relative:
  assumes "1 / 2 ^ 20 \<le> q" "q < 2 ^ 60"
  obtains r where "f64_of_rat q = F_Fin r" "\<bar>r - q\<bar> \<le> q / 2 ^ 53"
proof -
  have "(2 :: rat) powi (- 1022) \<le> 2 powi (- 20)" by (rule pow2_le) simp
  moreover have "(2 :: rat) powi (- 20) = 1 / 2 ^ 20"
    unfolding power_int_minus power_int_numeral by (rule inverse_eq_divide)
  ultimately have "2 powi (- 1022) \<le> q" using assms(1) by (simp only: order_trans)
  then have le: "\<bar>round_pos q - q\<bar> \<le> q / 2 ^ 53" by (rule round_pos_relative)
  have pos: "0 < q" using assms(1) by (simp add: order_less_le_trans[of 0 "1 / 2 ^ 20"])
  have "q / 2 ^ 53 \<le> q" using pos by (simp add: divide_le_eq)
  then have "round_pos q \<le> q + q" using le by linarith
  also have "q + q < 2 powi 61" using assms(2) by simp
  also have "(2 :: rat) powi 61 \<le> 2 powi 1024" by (rule pow2_le) simp
  finally have "f64_of_rat q = F_Fin (round_pos q)" using pos unfolding f64_of_rat_def by simp
  then show thesis using that le by blast
qed

lemma f_round_near:
  assumes "\<bar>r - of_nat n\<bar> < 1 / 2"
  shows "0 \<le> r \<Longrightarrow> f_round (F_Fin r) = F_Fin (of_nat n)"
proof -
  assume "0 \<le> r"
  moreover have "of_nat n - 1 / 2 < r" "r < of_nat n + 1 / 2" using assms by linarith+
  then have "\<lfloor>r + 1 / 2\<rfloor> = int n" by (intro floor_unique) (unfold of_int_of_nat_eq, linarith+)
  ultimately show ?thesis by simp
qed

lemma weight_roundtrip_pos:
  assumes "0 < n" "n < 2 ^ 32"
  shows "weight_from_f64 (f_div (F_Fin (of_nat n)) (F_Fin 10000)) = of_nat n"
proof -
  define q :: rat where "q = of_nat n / 10000"
  have n: "(1 :: rat) \<le> of_nat n" "(of_nat n :: rat) < 2 ^ 32"
    using assms by (simp, metis of_nat_less_iff of_nat_numeral of_nat_power)
  have q: "1 / 2 ^ 20 \<le> q" "q < 2 ^ 60" "0 < q" using n by (simp_all add: q_def)
  obtain r where r: "f64_of_rat q = F_Fin r" "\<bar>r - q\<bar> \<le> q / 2 ^ 53" using f64_of_rat_relative[OF q(1,2)] by blast
  have "\<bar>r * 10000 - of_nat n\<bar> = \<bar>r - q\<bar> * 10000" by (simp add: q_def abs_if algebra_simps)
  then have e1: "\<bar>r * 10000 - of_nat n\<bar> \<le> of_nat n / 2 ^ 53" using r(2) by (simp add: q_def)
  have p53: "(2 :: rat) ^ 53 = 9007199254740992" "(2 :: rat) ^ 32 = 4294967296" "(2 :: rat) ^ 33 = 8589934592"
    "(2 :: rat) ^ 20 = 1048576" by simp_all
  have b: "1 / 2 ^ 20 \<le> r * 10000" "r * 10000 < 2 ^ 33" "0 \<le> r"
    using n e1 unfolding p53 by linarith+
  have "r * 10000 < 2 ^ 60" using b(2) by (rule order_less_trans) simp
  then obtain t where t: "f64_of_rat (r * 10000) = F_Fin t" "\<bar>t - r * 10000\<bar> \<le> r * 10000 / 2 ^ 53"
    by (rule f64_of_rat_relative[OF b(1)])
  have "\<bar>t - of_nat n\<bar> \<le> r * 10000 / 2 ^ 53 + of_nat n / 2 ^ 53" using t(2) e1 by linarith
  also have "\<dots> < 1 / 2" using b n unfolding p53 by linarith
  finally have near: "\<bar>t - of_nat n\<bar> < 1 / 2" .
  then have "0 \<le> t" using n(1) by linarith
  then have "f_round (F_Fin t) = F_Fin (of_nat n)" using near by (rule f_round_near[rotated])
  moreover have "f_as_unsigned 32 (F_Fin (of_nat n)) = n" using assms(2) by simp
  ultimately show ?thesis using b(3) r(1) t(1) q(3)
    by (simp add: weight_from_f64_finite q_def[symmetric])
qed

lemma weight_0: "weight_from_f64 (F_Fin 0) = 0"
  by (simp add: weight_from_f64_finite)

section \<open>An instance\<close>

text \<open>A cache of services that are ready or have failed, and a sampler that takes the first weight that
  is not zero.\<close>

definition list_cache :: "((nat \<times> bool) list, nat, unit) ready_cache" where
  "list_cache =
     \<lparr>rcc_empty = [], rcc_ready_len = length, rcc_pending_len = (\<lambda>c. 0),
      rcc_get_ready = (\<lambda>c i. if i < length c then Some (fst (c ! i)) else None),
      rcc_check_ready = (\<lambda>c i. if i < length c then
           (if snd (c ! i) then (c, CR_Ready) else (take i c @ drop (Suc i) c, CR_Failed)) else (c, CR_NotReady)),
      rcc_push = (\<lambda>c k s. c @ [(k, True)]), rcc_evict = (\<lambda>c k. filter (\<lambda>x. fst x \<noteq> k) c),
      rcc_poll_pending = (\<lambda>c. (c, Ready (Inr ()))),
      rcc_call_ready = (\<lambda>c i. (c, if i < length c then Some (fst (c ! i)) else None))\<rparr>"

definition first_sampler :: "unit sampler" where
  "first_sampler g ws =
     (g, case List.find (\<lambda>i. ws ! i \<noteq> 0) [0..<length ws] of
           None \<Rightarrow> Inl SampleInsufficientNonZero | Some i \<Rightarrow> Inr i)"

lemma list_cache_law: "ready_cache_law list_cache"
  by (auto simp: ready_cache_law_def list_cache_def split: if_splits)

lemma first_sampler_law: "sampler_law first_sampler"
  by (auto simp: sampler_law_def first_sampler_def find_Some_iff find_None_iff in_set_conv_nth
      split: option.splits)

definition sample_balance :: "((nat \<times> bool) list, unit) weighted_balance" where
  "sample_balance = \<lparr>wb_services = [(7, False), (8, True), (9, True)], wb_ready_index = Some 5, wb_rng = ()\<rparr>"

section \<open>Properties\<close>

text \<open>A weight survives the conversion to a double and back.\<close>

theorem weight_f64_roundtrip: "weight_from_f64 (f64_from_weight w) = w"
proof (cases "w = 0")
  case True
  have "f64_of_nat 0 = F_Fin 0" by (simp add: f64_of_nat_def)
  then show ?thesis using True by (simp only: f64_from_weight_def f64_W_UNIT) (simp add: weight_0)
next
  case False
  have n: "0 < unat w" "unat w < 2 ^ 32" using False unsigned_less[of w, where ?'a = nat] by (simp_all add: unat_gt_0)
  then have "f64_of_nat (unat w) = F_Fin (of_nat (unat w))" by (intro f64_of_nat_exact) simp
  then show ?thesis using weight_roundtrip_pos[OF n] by (simp only: f64_from_weight_def f64_W_UNIT) simp
qed

text \<open>The conversion from doubles keeps the order; zero, negative values and NaN have the weight
  zero, and infinity the largest.\<close>

theorem weight_from_f64_order:
  assumes "f_le x y"
  shows "weight_from_f64 x \<le> weight_from_f64 y"
proof -
  have low: "weight_from_f64 z = 0" if "f_lt z (F_Fin 0)" for z using that by (simp add: weight_from_f64_def W_MIN_def)
  have high: "weight_from_f64 F_PInf = - 1" by (simp add: weight_from_f64_def W_MAX_def)
  show ?thesis
  proof (cases "f_lt x (F_Fin 0)")
    case False
    then show ?thesis using assms weight_from_f64_mono_finite high
      by (cases x; cases y) auto
  qed (simp add: low)
qed

theorem weight_from_f64_order_witness:
  "weight_from_f64 F_NInf \<le> weight_from_f64 (F_Fin 1)"
  by (rule weight_from_f64_order) simp

text \<open>C31. The loop of \<open>poll_ready\<close> ends: with one turn more than there are ready services it has
  returned, since each service that fails its check leaves the ready set.\<close>

theorem wb_poll_ready_terminates:
  assumes "sampler_law sample" "ready_cache_law R"
    and "Suc (rcc_ready_len R (promote_pending_to_ready R
           (update_pending_from_discover R (wb_services b) changes))) \<le> fuel"
  shows "\<exists>r. wb_poll_ready fuel R sample wt changes b = Some r"
  unfolding wb_poll_ready_def by (rule ready_loop_returns[OF assms(1,2)]) (use assms(3) in simp)

theorem wb_poll_ready_terminates_witness:
  "\<exists>r. wb_poll_ready 5 list_cache first_sampler (\<lambda>k. if k = 7 then 0 else 1) [Insert 3 ()] sample_balance = Some r"
  by (rule wb_poll_ready_terminates[OF first_sampler_law list_cache_law])
     (simp add: promote_pending_to_ready_def list_cache_def sample_balance_def)

text \<open>C5. After \<open>poll_ready\<close> has returned ready, \<open>call\<close> does not panic and sends the request to a
  service that is in the ready set.\<close>

theorem wb_call_after_ready:
  assumes "ready_cache_law R"
    and "wb_poll_ready fuel R sample wt changes b = Some (b', Ready (Inr ()))"
  shows "\<exists>b'' k i. wb_call R b' = (Inr (b'', Some k) :: (unit abort, _) result) \<and>
    i < rcc_ready_len R (wb_services b') \<and> rcc_get_ready R (wb_services b') i = Some k"
proof -
  obtain i where i: "wb_ready_index b' = Some i" "i < rcc_ready_len R (wb_services b')"
    using ready_loop_ready[OF assms(1)] assms(2) unfolding wb_poll_ready_def by blast
  then obtain k where k: "rcc_get_ready R (wb_services b') i = Some k"
    using assms(1) unfolding ready_cache_law_def by blast
  then have "snd (rcc_call_ready R (wb_services b') i) = Some k" using assms(1) unfolding ready_cache_law_def by simp
  then show ?thesis using i k by (auto simp: wb_call_def split: prod.splits)
qed

theorem wb_call_after_ready_witness:
  "\<exists>b' b'' k. wb_poll_ready 5 list_cache first_sampler (\<lambda>k. 1) [] sample_balance = Some (b', Ready (Inr ())) \<and>
     wb_call list_cache b' = (Inr (b'', Some k) :: (unit abort, _) result)"
proof -
  obtain b' where b: "wb_poll_ready 5 list_cache first_sampler (\<lambda>k. 1) [] sample_balance = Some (b', Ready (Inr ()))"
    by (simp add: wb_poll_ready_def promote_pending_to_ready_def list_cache_def sample_balance_def
        choose_index_def first_sampler_def ready_weights_def eval_nat_numeral upt_rec)
  then show ?thesis using wb_call_after_ready[OF list_cache_law b] by blast
qed

text \<open>Among two or more ready services, one of weight zero is never chosen, and the choice fails
  only if all the weights are zero; a single ready service is chosen whatever its weight is.\<close>

theorem choose_index_weighted:
  assumes "sampler_law sample" "ready_cache_law R" "choose_index R sample wt b = (g, r)"
  shows "case r of
      Inl e \<Rightarrow> 2 \<le> rcc_ready_len R (wb_services b) \<and> (\<forall>w \<in> set (ready_weights R wt (wb_services b)). w = 0)
    | Inr None \<Rightarrow> rcc_ready_len R (wb_services b) = 0
    | Inr (Some i) \<Rightarrow> i < rcc_ready_len R (wb_services b) \<and>
        (rcc_ready_len R (wb_services b) = 1 \<or> wt (the (rcc_get_ready R (wb_services b) i)) \<noteq> 0)"
  using assms(3,1,2) by (rule choose_index_cases)

theorem choose_index_weighted_witness:
  "\<exists>i. choose_index list_cache first_sampler (\<lambda>k. if k = 7 then 0 else 1) sample_balance = ((), Inr (Some i)) \<and>
     fst (wb_services sample_balance ! i) \<noteq> 7"
proof -
  let ?wt = "\<lambda>k :: nat. if k = 7 then 0 else (1 :: weight)"
  have c: "choose_index list_cache first_sampler ?wt sample_balance = ((), Inr (Some 1))"
    by (simp add: choose_index_def list_cache_def sample_balance_def first_sampler_def ready_weights_def upt_rec)
  have "?wt (the (rcc_get_ready list_cache (wb_services sample_balance) 1)) \<noteq> 0"
    using choose_index_weighted[OF first_sampler_law list_cache_law c] by (simp add: list_cache_def sample_balance_def)
  then show ?thesis using c by (auto simp: list_cache_def sample_balance_def split: if_splits)
qed

end
