(* ===== verification/Discovery.thy ===== *)
theory Discovery
  imports Weighted_Balance
begin

text \<open>
  Service discovery (\<open>discover/\<close>): the keys of the services, the discovery that yields the
  configured services once and then the changes that monitors send (\<open>provider/config.rs\<close>), and the
  interface of a monitor that takes keys out of a balancer and puts them back. The construction of a
  dispatcher, which may fail, is a parameter.
\<close>

section \<open>Keys\<close>

record key =
  k_provider :: inference_provider
  k_endpoint_type :: endpoint_type

record weighted_key =
  wk_provider :: inference_provider
  wk_endpoint_type :: endpoint_type
  wk_weight :: weight

text \<open>\<open>Weight::from(target.weight.to_f64()?)\<close>.\<close>

definition target_weight :: "'w decimal_ops \<Rightarrow> 'w balance_target \<Rightarrow> weight option" where
  "target_weight D t = map_option weight_from_f64 (dec_to_f64 D (bt_weight t))"

definition target_key :: "endpoint_type \<Rightarrow> weight \<Rightarrow> 'w balance_target \<Rightarrow> weighted_key" where
  "target_key et w t = \<lparr>wk_provider = bt_provider t, wk_endpoint_type = et, wk_weight = w\<rparr>"

section \<open>The initial services\<close>

text \<open>What makes a dispatcher again while the gateway runs, and at its start, where a key that is no header
  value panics.\<close>

type_synonym 's mk_dispatcher = "inference_provider \<Rightarrow> (init_error, 's) result"
type_synonym 's first_dispatcher = "inference_provider \<Rightarrow> (init_error abort, 's) result"

fun insert_services ::
  "'s first_dispatcher \<Rightarrow> endpoint_type \<Rightarrow> inference_provider list \<Rightarrow> (key \<times> 's) list \<Rightarrow>
     (init_error abort, (key \<times> 's) list) result" where
  "insert_services mk et [] service_map = Inr service_map"
| "insert_services mk et (p # ps) service_map =
     rbind (mk p) (\<lambda>d. insert_services mk et ps
       (assoc_insert \<lparr>k_provider = p, k_endpoint_type = et\<rparr> d service_map))"

fun discovery_services ::
  "'s first_dispatcher \<Rightarrow> 'w balance_config \<Rightarrow> (key \<times> 's) list \<Rightarrow> (init_error abort, (key \<times> 's) list) result" where
  "discovery_services mk [] service_map = Inr service_map"
| "discovery_services mk ((et, b) # rest) service_map =
     rbind (insert_services mk et (inner_providers b) service_map) (\<lambda>m. discovery_services mk rest m)"

fun insert_weighted ::
  "'w decimal_ops \<Rightarrow> 's first_dispatcher \<Rightarrow> endpoint_type \<Rightarrow> 'w balance_target list \<Rightarrow> (weighted_key \<times> 's) list \<Rightarrow>
     (init_error abort, (weighted_key \<times> 's) list) result" where
  "insert_weighted D mk et [] service_map = Inr service_map"
| "insert_weighted D mk et (t # ts) service_map =
     rbind (ok_or (Failed (InvalidWeight (bt_provider t))) (target_weight D t)) (\<lambda>w.
     rbind (mk (bt_provider t)) (\<lambda>d.
       insert_weighted D mk et ts (assoc_insert (target_key et w t) d service_map)))"

fun weighted_services ::
  "'w decimal_ops \<Rightarrow> 's first_dispatcher \<Rightarrow> 'w balance_config \<Rightarrow> (weighted_key \<times> 's) list \<Rightarrow>
     (init_error abort, (weighted_key \<times> 's) list) result" where
  "weighted_services D mk [] service_map = Inr service_map"
| "weighted_services D mk ((et, b) # rest) service_map =
     (case b of
        Latency _ \<Rightarrow> Inl (Failed (InvalidWeightedBalancer ''P2C balancer not supported for weighted discovery''))
      | Weighted targets \<Rightarrow>
          rbind (insert_weighted D mk et targets service_map) (\<lambda>m. weighted_services D mk rest m))"

section \<open>The stream of changes\<close>

record ('k, 's) config_discovery =
  cd_initial :: "('k \<times> 's) list"
  cd_events :: "('k, 's) change list"
  cd_closed :: bool

definition config_discovery_new ::
  "'s first_dispatcher \<Rightarrow> 'w router_config \<Rightarrow> (init_error abort, (key, 's) config_discovery) result" where
  "config_discovery_new mk rc =
     rbind (discovery_services mk (rc_load_balance rc) []) (\<lambda>m.
       Inr \<lparr>cd_initial = m, cd_events = [], cd_closed = False\<rparr>)"

definition config_discovery_new_weighted ::
  "'w decimal_ops \<Rightarrow> 's first_dispatcher \<Rightarrow> 'w router_config \<Rightarrow>
     (init_error abort, (weighted_key, 's) config_discovery) result" where
  "config_discovery_new_weighted D mk rc =
     rbind (weighted_services D mk (rc_load_balance rc) []) (\<lambda>m.
       Inr \<lparr>cd_initial = m, cd_events = [], cd_closed = False\<rparr>)"

text \<open>\<open>poll_next\<close>: the initial services first, then what the channel holds.\<close>

fun service_map_next :: "('k \<times> 's) list \<Rightarrow> ('k, 's) change option \<times> ('k \<times> 's) list" where
  "service_map_next [] = (None, [])"
| "service_map_next ((k, s) # rest) = (Some (Insert k s), rest)"

definition discovery_poll_next ::
  "('k, 's) config_discovery \<Rightarrow> ('k, 's) config_discovery \<times> ('k, 's) change option poll" where
  "discovery_poll_next d =
     (case service_map_next (cd_initial d) of
        (Some c, rest) \<Rightarrow> (d\<lparr>cd_initial := rest\<rparr>, Ready (Some c))
      | (None, _) \<Rightarrow>
          (case cd_events d of
             c # cs \<Rightarrow> (d\<lparr>cd_events := cs\<rparr>, Ready (Some c))
           | [] \<Rightarrow> (d, if cd_closed d then Ready None else Pending)))"

text \<open>The changes that a consumer gets before the stream is pending or ends.\<close>

fun discovery_drain :: "nat \<Rightarrow> ('k, 's) config_discovery \<Rightarrow> ('k, 's) change list" where
  "discovery_drain 0 d = []"
| "discovery_drain (Suc n) d =
     (case discovery_poll_next d of
        (d', Ready (Some c)) \<Rightarrow> c # discovery_drain n d'
      | _ \<Rightarrow> [])"

section \<open>Members of a balancer\<close>

fun apply_change :: "'k set \<Rightarrow> ('k, 's) change \<Rightarrow> 'k set" where
  "apply_change M (Insert k s) = insert k M"
| "apply_change M (Remove k) = M - {k}"

abbreviation apply_changes :: "'k set \<Rightarrow> ('k, 's) change list \<Rightarrow> 'k set" where
  "apply_changes \<equiv> foldl apply_change"

text \<open>
  The interface of a monitor: \<open>step s cs s'\<close> is one of its moves, which sends the changes \<open>cs\<close>, and
  \<open>held s\<close> are the keys that it holds out of the balancer. What it sends has to tell exactly how
  \<open>held\<close> changes.
\<close>

locale removal_monitor =
  fixes step :: "'st \<Rightarrow> ('k, 's) change list \<Rightarrow> 'st \<Rightarrow> bool"
    and held :: "'st \<Rightarrow> 'k set"
    and universe :: "'k set"
  assumes sends: "step st cs st' \<Longrightarrow> held st \<subseteq> universe \<Longrightarrow>
      held st' \<subseteq> universe \<and> apply_changes (universe - held st) cs = universe - held st'"
begin

inductive run :: "'st \<Rightarrow> ('k, 's) change list \<Rightarrow> 'st \<Rightarrow> bool" where
  run_done: "run st [] st"
| run_more: "run st cs st' \<Longrightarrow> step st' ds st'' \<Longrightarrow> run st (cs @ ds) st''"

lemma run_members:
  "run st cs st' \<Longrightarrow> held st \<subseteq> universe \<Longrightarrow>
     held st' \<subseteq> universe \<and> apply_changes (universe - held st) cs = universe - held st'"
  by (induction rule: run.induct) (auto simp: sends)

end

section \<open>Lemmas\<close>

lemma insert_services_keys:
  "insert_services mk et ps m = Inr m' \<Longrightarrow>
     fst ` set m' = fst ` set m \<union> (\<lambda>p. \<lparr>k_provider = p, k_endpoint_type = et\<rparr>) ` set ps"
proof (induction ps arbitrary: m)
  case (Cons p ps)
  then obtain d where d: "insert_services mk et ps (assoc_insert \<lparr>k_provider = p, k_endpoint_type = et\<rparr> d m) = Inr m'"
    by auto
  show ?case unfolding Cons.IH[OF d] keys_assoc_insert by auto
qed simp

lemma discovery_services_keys:
  "discovery_services mk bc m = Inr m' \<Longrightarrow>
     fst ` set m' = fst ` set m \<union>
       {\<lparr>k_provider = p, k_endpoint_type = et\<rparr> |p et b. (et, b) \<in> set bc \<and> p \<in> set (inner_providers b)}"
proof (induction bc arbitrary: m)
  case (Cons e bc)
  obtain et b where e: "e = (et, b)" by (cases e)
  then obtain m1 where "insert_services mk et (inner_providers b) m = Inr m1" "discovery_services mk bc m1 = Inr m'"
    using Cons.prems by auto
  then show ?case using Cons.IH[of m1] insert_services_keys[of mk et "inner_providers b" m m1] e by auto
qed simp

lemma insert_weighted_keys:
  "insert_weighted D mk et ts m = Inr m' \<Longrightarrow>
     (\<forall>t \<in> set ts. target_weight D t \<noteq> None) \<and>
     fst ` set m' = fst ` set m \<union> {target_key et w t |w t. t \<in> set ts \<and> target_weight D t = Some w}"
proof (induction ts arbitrary: m)
  case (Cons t ts)
  then obtain w d where w: "target_weight D t = Some w"
    "insert_weighted D mk et ts (assoc_insert (target_key et w t) d m) = Inr m'" by auto
  show ?case using Cons.IH[OF w(2)] w(1) by auto
qed simp

definition weighted_keys :: "'w decimal_ops \<Rightarrow> 'w balance_config \<Rightarrow> weighted_key set" where
  "weighted_keys D bc =
     {target_key et w t |et w t targets. (et, Weighted targets) \<in> set bc \<and> t \<in> set targets \<and>
        target_weight D t = Some w}"

lemma weighted_services_keys:
  "weighted_services D mk bc m = Inr m' \<Longrightarrow>
     fst ` set m' = fst ` set m \<union> weighted_keys D bc \<and>
     (\<forall>(et, b) \<in> set bc. \<exists>targets. b = Weighted targets \<and> (\<forall>t \<in> set targets. target_weight D t \<noteq> None))"
proof (induction bc arbitrary: m)
  case (Cons e bc)
  obtain et b where e: "e = (et, b)" by (cases e)
  then obtain targets m1 where t: "b = Weighted targets" "insert_weighted D mk et targets m = Inr m1"
    "weighted_services D mk bc m1 = Inr m'"
    using Cons.prems by (cases b) auto
  have "weighted_keys D (e # bc) = {target_key et w t |w t. t \<in> set targets \<and> target_weight D t = Some w} \<union>
      weighted_keys D bc"
    by (auto simp: weighted_keys_def e t(1))
  then show ?case using Cons.IH[OF t(3)] insert_weighted_keys[OF t(2)] e t(1) by auto
qed (simp add: weighted_keys_def)

lemma drain_all:
  "length (cd_initial d) + length (cd_events d) \<le> n \<Longrightarrow>
     discovery_drain n d = map (\<lambda>(k, s). Insert k s) (cd_initial d) @ cd_events d"
proof (induction n arbitrary: d)
  case (Suc n)
  show ?case
  proof (cases "cd_initial d")
    case Nil
    then show ?thesis using Suc by (cases "cd_events d") (auto simp: discovery_poll_next_def)
  next
    case (Cons x xs)
    then show ?thesis using Suc by (cases x) (auto simp: discovery_poll_next_def)
  qed
qed auto

lemma apply_inserts: "apply_changes M (map (\<lambda>(k, s). Insert k s) xs) = M \<union> fst ` set xs"
  by (induction xs arbitrary: M) auto

section \<open>Properties\<close>

text \<open>A weighted discovery is created only if every entry of the balancer is weighted and every
  weight has a double; it yields exactly the configured keys and then the changes of the monitors,
  in the order they were sent.\<close>

theorem weighted_discovery_members:
  assumes "config_discovery_new_weighted D mk rc = Inr d"
    and "length (cd_initial d) + length events \<le> n"
  shows "apply_changes {} (discovery_drain n (d\<lparr>cd_events := events\<rparr>)) =
      apply_changes (weighted_keys D (rc_load_balance rc)) events \<and>
    (\<forall>(et, b) \<in> set (rc_load_balance rc). \<exists>targets. b = Weighted targets)"
proof -
  have m: "weighted_services D mk (rc_load_balance rc) [] = Inr (cd_initial d)"
    using assms(1) by (auto simp: config_discovery_new_weighted_def)
  have "discovery_drain n (d\<lparr>cd_events := events\<rparr>) = map (\<lambda>(k, s). Insert k s) (cd_initial d) @ events"
    using drain_all[of "d\<lparr>cd_events := events\<rparr>" n] assms(2) by simp
  then show ?thesis using weighted_services_keys[OF m] by (fastforce simp: apply_inserts)
qed

theorem weighted_discovery_members_witness:
  "\<exists>d. config_discovery_new_weighted percent_ops (\<lambda>p. Inr ()) sample_router = Inr d \<and>
     apply_changes {} (discovery_drain 2 (d\<lparr>cd_events := []\<rparr>)) =
       weighted_keys percent_ops (rc_load_balance sample_router)"
proof -
  obtain d :: "(weighted_key, unit) config_discovery" where
    d: "config_discovery_new_weighted percent_ops (\<lambda>p. Inr ()) sample_router = Inr d" "length (cd_initial d) = 2"
    by (auto simp: config_discovery_new_weighted_def sample_router_def sample_config_def target_weight_def
        target_key_def percent_ops_def)
  show ?thesis using weighted_discovery_members[OF d(1), of "[]" 2] d by auto
qed

end
