(* ===== verification/Health_Monitor.thy ===== *)
theory Health_Monitor
  imports Discovery Rolling_Counter
begin

text \<open>
  The health monitor (\<open>discover/monitor/health/provider.rs\<close>): the error ratio of a provider's
  endpoints against the threshold, and the checks that remove unhealthy providers from a balancer
  and put them back. A check reads the counters at one time; the channel to the balancer takes what
  is sent (a send that fails is only logged).
\<close>

section \<open>The health of a provider\<close>

text \<open>The loop of \<open>check_health\<close> over the endpoints of the provider.\<close>

definition over_threshold :: "f64 \<Rightarrow> 32 word \<Rightarrow> 32 word \<Rightarrow> bool" where
  "over_threshold threshold errors requests =
     f_lt threshold (f_div (f64_of_nat (unat errors)) (f64_of_nat (unat requests)))"

fun check_endpoints ::
  "f64 \<Rightarrow> grace_period \<Rightarrow> (api_endpoint \<rightharpoonup> endpoint_metrics) \<Rightarrow> nat \<Rightarrow> api_endpoint list \<Rightarrow> bool \<Rightarrow>
     (internal_error, bool) result" where
  "check_endpoints threshold grace reg now [] all_healthy = Inr all_healthy"
| "check_endpoints threshold grace reg now (e # es) all_healthy =
     rbind (health_metrics reg e) (\<lambda>em.
       let requests = rl_total (em_request_count em) now in
       case grace of GP_Requests min_requests \<Rightarrow>
         if unat requests < min_requests then check_endpoints threshold grace reg now es all_healthy
         else let errors = rl_total (em_remote_internal_error_count em) now
              in check_endpoints threshold grace reg now es
                   (if over_threshold threshold errors requests then False else all_healthy))"

definition check_health ::
  "'w decimal_ops \<Rightarrow> 'w monitor_config \<Rightarrow> (api_endpoint \<rightharpoonup> endpoint_metrics) \<Rightarrow> nat \<Rightarrow> inference_provider \<Rightarrow>
     (internal_error, bool) result" where
  "check_health D mc reg now p =
     check_endpoints (error_threshold D mc) (monitor_grace_period mc) reg now (provider_endpoints p) True"

section \<open>The checks\<close>

record ('k, 's) health_monitor =
  hm_unhealthy :: "'k set"
  hm_sent :: "('k, 's) change list"

text \<open>The body of the loops of \<open>check_weighted_monitor\<close> and \<open>check_p2c_monitor\<close>, from the health of
  the provider on.\<close>

definition check_key ::
  "'s mk_dispatcher \<Rightarrow> 'k \<Rightarrow> inference_provider \<Rightarrow> bool \<Rightarrow> ('k, 's) health_monitor \<Rightarrow>
     (runtime_error, ('k, 's) health_monitor) result" where
  "check_key mk k provider is_healthy m =
     (let was_unhealthy = k \<in> hm_unhealthy m in
      if \<not> is_healthy \<and> \<not> was_unhealthy
      then Inr (m\<lparr>hm_sent := hm_sent m @ [Remove k], hm_unhealthy := insert k (hm_unhealthy m)\<rparr>)
      else if is_healthy \<and> was_unhealthy
      then rbind (map_err RE_Init (mk provider)) (\<lambda>service.
             Inr (m\<lparr>hm_unhealthy := hm_unhealthy m - {k}, hm_sent := hm_sent m @ [Insert k service]\<rparr>))
      else Inr m)"

type_synonym health_fun = "inference_provider \<Rightarrow> (internal_error, bool) result"

fun check_p2c_providers ::
  "'s mk_dispatcher \<Rightarrow> health_fun \<Rightarrow> endpoint_type \<Rightarrow> inference_provider list \<Rightarrow> (key, 's) health_monitor \<Rightarrow>
     (runtime_error, (key, 's) health_monitor) result" where
  "check_p2c_providers mk health et [] m = Inr m"
| "check_p2c_providers mk health et (p # ps) m =
     rbind (map_err RE_Internal (health p)) (\<lambda>is_healthy.
     rbind (check_key mk \<lparr>k_provider = p, k_endpoint_type = et\<rparr> p is_healthy m) (\<lambda>m'.
       check_p2c_providers mk health et ps m'))"

fun check_p2c_monitor ::
  "'s mk_dispatcher \<Rightarrow> health_fun \<Rightarrow> 'w balance_config \<Rightarrow> (key, 's) health_monitor \<Rightarrow>
     (runtime_error, (key, 's) health_monitor) result" where
  "check_p2c_monitor mk health [] m = Inr m"
| "check_p2c_monitor mk health ((et, b) # rest) m =
     (case b of
        Latency ps \<Rightarrow> rbind (check_p2c_providers mk health et ps m) (\<lambda>m'. check_p2c_monitor mk health rest m')
      | Weighted _ \<Rightarrow> Inl (RE_Internal Internal))"

fun check_weighted_targets ::
  "'w decimal_ops \<Rightarrow> 's mk_dispatcher \<Rightarrow> health_fun \<Rightarrow> endpoint_type \<Rightarrow> 'w balance_target list \<Rightarrow>
     (weighted_key, 's) health_monitor \<Rightarrow> (runtime_error, (weighted_key, 's) health_monitor) result" where
  "check_weighted_targets D mk health et [] m = Inr m"
| "check_weighted_targets D mk health et (t # ts) m =
     rbind (ok_or (RE_Init (InvalidWeight (bt_provider t))) (target_weight D t)) (\<lambda>w.
     rbind (map_err RE_Internal (health (bt_provider t))) (\<lambda>is_healthy.
     rbind (check_key mk (target_key et w t) (bt_provider t) is_healthy m) (\<lambda>m'.
       check_weighted_targets D mk health et ts m')))"

fun check_weighted_monitor ::
  "'w decimal_ops \<Rightarrow> 's mk_dispatcher \<Rightarrow> health_fun \<Rightarrow> 'w balance_config \<Rightarrow> (weighted_key, 's) health_monitor \<Rightarrow>
     (runtime_error, (weighted_key, 's) health_monitor) result" where
  "check_weighted_monitor D mk health [] m = Inr m"
| "check_weighted_monitor D mk health ((et, b) # rest) m =
     (case b of
        Weighted targets \<Rightarrow> rbind (check_weighted_targets D mk health et targets m)
          (\<lambda>m'. check_weighted_monitor D mk health rest m')
      | Latency _ \<Rightarrow> Inl (RE_Internal Internal))"

section \<open>Lemmas\<close>

definition endpoint_healthy :: "f64 \<Rightarrow> nat \<Rightarrow> nat \<Rightarrow> endpoint_metrics \<Rightarrow> bool" where
  "endpoint_healthy th k now em \<longleftrightarrow>
     unat (rl_total (em_request_count em) now) < k \<or>
     \<not> over_threshold th (rl_total (em_remote_internal_error_count em) now) (rl_total (em_request_count em) now)"

lemma check_endpoints_all:
  "(\<And>e. e \<in> set es \<Longrightarrow> reg e \<noteq> None) \<Longrightarrow>
     check_endpoints th (GP_Requests k) reg now es ok =
       Inr (ok \<and> (\<forall>e \<in> set es. endpoint_healthy th k now (the (reg e))))"
proof (induction es arbitrary: ok)
  case (Cons e es)
  obtain em where em: "reg e = Some em" using Cons.prems[of e] by auto
  have IH: "check_endpoints th (GP_Requests k) reg now es ok' =
      Inr (ok' \<and> (\<forall>e \<in> set es. endpoint_healthy th k now (the (reg e))))" for ok'
    using Cons.prems by (intro Cons.IH) simp
  have raw: "check_endpoints th (GP_Requests k) reg now (e # es) ok =
      (if unat (rl_total (em_request_count em) now) < k then check_endpoints th (GP_Requests k) reg now es ok
       else check_endpoints th (GP_Requests k) reg now es
         (if over_threshold th (rl_total (em_remote_internal_error_count em) now) (rl_total (em_request_count em) now)
          then False else ok))"
    unfolding check_endpoints.simps health_metrics_def em ok_or.simps rbind.simps Let_def grace_period.case
    by (rule refl)
  have step: "check_endpoints th (GP_Requests k) reg now (e # es) ok =
      check_endpoints th (GP_Requests k) reg now es (ok \<and> endpoint_healthy th k now em)"
    unfolding raw endpoint_healthy_def
    by (cases "unat (rl_total (em_request_count em) now) < k";
        cases "over_threshold th (rl_total (em_remote_internal_error_count em) now) (rl_total (em_request_count em) now)")
       (simp_all only: if_True if_False simp_thms)
  show ?case unfolding step IH using em by simp
qed simp

text \<open>
  One key: what is sent keeps the balancer's members the complement of the unhealthy keys, and
  afterwards the key is unhealthy exactly if its provider is.
\<close>

definition in_sync :: "'k set \<Rightarrow> 'k set \<Rightarrow> ('k, 's) health_monitor \<Rightarrow> bool" where
  "in_sync U M m \<longleftrightarrow> hm_unhealthy m \<subseteq> U \<and> apply_changes M (hm_sent m) = U - hm_unhealthy m"

lemma check_key_sync:
  assumes "check_key mk k p h m = Inr m'" "k \<in> U" "in_sync U M m"
  shows "in_sync U M m' \<and> (k \<in> hm_unhealthy m' \<longleftrightarrow> \<not> h) \<and>
    (\<forall>k'. k' \<noteq> k \<longrightarrow> (k' \<in> hm_unhealthy m' \<longleftrightarrow> k' \<in> hm_unhealthy m))"
proof (cases "h \<longleftrightarrow> k \<in> hm_unhealthy m")
  case False
  then have "m' = m" using assms(1) by (simp add: check_key_def)
  then show ?thesis using assms(3) False by simp
next
  case same: True
  show ?thesis
  proof (cases h)
    case True
    then obtain sv where "m' = m\<lparr>hm_unhealthy := hm_unhealthy m - {k}, hm_sent := hm_sent m @ [Insert k sv]\<rparr>"
      using assms(1) same by (auto simp: check_key_def)
    then have m': "hm_unhealthy m' = hm_unhealthy m - {k}" "hm_sent m' = hm_sent m @ [Insert k sv]" by simp_all
    show ?thesis unfolding in_sync_def m' using assms(2,3) True by (simp add: in_sync_def) blast
  next
    case False
    then have "m' = m\<lparr>hm_sent := hm_sent m @ [Remove k], hm_unhealthy := insert k (hm_unhealthy m)\<rparr>"
      using assms(1) same by (auto simp: check_key_def)
    then have m': "hm_unhealthy m' = insert k (hm_unhealthy m)" "hm_sent m' = hm_sent m @ [Remove k]" by simp_all
    show ?thesis unfolding in_sync_def m' using assms(2,3) False by (simp add: in_sync_def) blast
  qed
qed

text \<open>
  A sequence of checks, each with its key, its provider and the health that was read: the two loops
  are such sequences.
\<close>

inductive checks ::
  "'s mk_dispatcher \<Rightarrow> ('k \<times> inference_provider \<times> bool) list \<Rightarrow> ('k, 's) health_monitor \<Rightarrow>
     ('k, 's) health_monitor \<Rightarrow> bool" for mk where
  checks_Nil: "checks mk [] m m"
| checks_Cons: "check_key mk k p h m = Inr m' \<Longrightarrow> checks mk ks m' m'' \<Longrightarrow> checks mk ((k, p, h) # ks) m m''"

lemma checks_append: "checks mk xs m m' \<Longrightarrow> checks mk ys m' m'' \<Longrightarrow> checks mk (xs @ ys) m m''"
  by (induction rule: checks.induct) (auto intro: checks_Cons)

lemma checks_sync:
  "checks mk ks m m' \<Longrightarrow> in_sync U M m \<Longrightarrow> fst ` set ks \<subseteq> U \<Longrightarrow> in_sync U M m'"
  by (induction rule: checks.induct) (auto dest: check_key_sync)

lemma checks_health:
  assumes "checks mk ks m m'" "in_sync U M m" "fst ` set ks \<subseteq> U"
    and consistent: "\<And>k p h p' h'. (k, p, h) \<in> set ks \<Longrightarrow> (k, p', h') \<in> set ks \<Longrightarrow> h = h'"
  shows "(\<forall>(k, p, h) \<in> set ks. k \<in> hm_unhealthy m' \<longleftrightarrow> \<not> h) \<and>
    (\<forall>k. k \<notin> fst ` set ks \<longrightarrow> (k \<in> hm_unhealthy m' \<longleftrightarrow> k \<in> hm_unhealthy m))"
  using assms
proof (induction rule: checks.induct)
  case (checks_Cons k p h m m1 ks m2)
  have s: "in_sync U M m1" "k \<in> hm_unhealthy m1 \<longleftrightarrow> \<not> h"
    "\<forall>k'. k' \<noteq> k \<longrightarrow> (k' \<in> hm_unhealthy m1 \<longleftrightarrow> k' \<in> hm_unhealthy m)"
    using check_key_sync[OF checks_Cons.hyps(1)] checks_Cons.prems(1,2) by auto
  have sub: "fst ` set ks \<subseteq> U" using checks_Cons.prems(2) by auto
  have con: "h = h'" if "(k, p, h) \<in> set ks" "(k, p', h') \<in> set ks" for k p h p' h'
    using checks_Cons.prems(3)[of k p h p' h'] that by simp
  have "(\<forall>(k, p, h) \<in> set ks. k \<in> hm_unhealthy m2 \<longleftrightarrow> \<not> h) \<and>
    (\<forall>k. k \<notin> fst ` set ks \<longrightarrow> (k \<in> hm_unhealthy m2 \<longleftrightarrow> k \<in> hm_unhealthy m1))"
    by (rule checks_Cons.IH[OF s(1) sub]) (rule con)
  then have IH: "(\<forall>(k, p, h) \<in> set ks. k \<in> hm_unhealthy m2 \<longleftrightarrow> \<not> h)"
    "\<And>k. k \<notin> fst ` set ks \<Longrightarrow> (k \<in> hm_unhealthy m2 \<longleftrightarrow> k \<in> hm_unhealthy m1)"
    by blast+
  have "k \<in> hm_unhealthy m2 \<longleftrightarrow> \<not> h"
  proof (cases "k \<in> fst ` set ks")
    case True
    then obtain p' h' where "(k, p', h') \<in> set ks" by auto
    moreover from this have "h = h'" using checks_Cons.prems(3)[of k p h p' h'] by simp
    ultimately show ?thesis using IH(1) by auto
  next
    case False
    then show ?thesis using IH(2) s(2) by simp
  qed
  then show ?case using IH s(3) by auto
qed simp

text \<open>What a run of checks sends does not depend on what was sent before.\<close>

lemma check_key_frame:
  assumes "check_key mk k p h m = Inr m'"
  obtains cs where "hm_sent m' = hm_sent m @ cs"
    "check_key mk k p h (m\<lparr>hm_sent := S\<rparr>) = Inr (m'\<lparr>hm_sent := S @ cs\<rparr>)"
proof (cases "h \<longleftrightarrow> k \<in> hm_unhealthy m")
  case False
  then have "m' = m" using assms by (simp add: check_key_def)
  then show thesis using that[of "[]"] False by (simp add: check_key_def)
next
  case same: True
  show thesis
  proof (cases h)
    case True
    then obtain sv where sv: "mk p = Inr sv"
      "m' = m\<lparr>hm_unhealthy := hm_unhealthy m - {k}, hm_sent := hm_sent m @ [Insert k sv]\<rparr>"
      using assms same by (auto simp: check_key_def)
    then show thesis using that[of "[Insert k sv]"] True same by (simp add: check_key_def)
  next
    case False
    then have "m' = m\<lparr>hm_sent := hm_sent m @ [Remove k], hm_unhealthy := insert k (hm_unhealthy m)\<rparr>"
      using assms same by (auto simp: check_key_def)
    then show thesis using that[of "[Remove k]"] False same by (simp add: check_key_def)
  qed
qed

lemma checks_frame:
  "checks mk ks m m' \<Longrightarrow>
     \<exists>cs. hm_sent m' = hm_sent m @ cs \<and> checks mk ks (m\<lparr>hm_sent := S\<rparr>) (m'\<lparr>hm_sent := S @ cs\<rparr>)"
proof (induction arbitrary: S rule: checks.induct)
  case (checks_Nil m)
  then show ?case by (auto intro: checks.checks_Nil)
next
  case (checks_Cons k p h m m1 ks m2)
  obtain cs where cs: "hm_sent m1 = hm_sent m @ cs"
    "check_key mk k p h (m\<lparr>hm_sent := S\<rparr>) = Inr (m1\<lparr>hm_sent := S @ cs\<rparr>)"
    using checks_Cons.hyps(1) by (rule check_key_frame)
  obtain ds where "hm_sent m2 = hm_sent m1 @ ds"
    "checks mk ks (m1\<lparr>hm_sent := S @ cs\<rparr>) (m2\<lparr>hm_sent := (S @ cs) @ ds\<rparr>)"
    using checks_Cons.IH by blast
  then show ?case using cs checks.checks_Cons[OF cs(2)] by fastforce
qed

lemma checks_sends:
  assumes "checks mk ks m m'" "fst ` set ks \<subseteq> U" "hm_unhealthy m \<subseteq> U" "hm_sent m' = hm_sent m @ cs"
  shows "hm_unhealthy m' \<subseteq> U \<and> apply_changes (U - hm_unhealthy m) cs = U - hm_unhealthy m'"
proof -
  obtain ds where ds: "hm_sent m' = hm_sent m @ ds" "checks mk ks (m\<lparr>hm_sent := []\<rparr>) (m'\<lparr>hm_sent := ds\<rparr>)"
    using checks_frame[OF assms(1), of "[]"] by auto
  have "in_sync U (U - hm_unhealthy m) (m\<lparr>hm_sent := []\<rparr>)" using assms(3) by (simp add: in_sync_def)
  then have "in_sync U (U - hm_unhealthy m) (m'\<lparr>hm_sent := ds\<rparr>)" by (rule checks_sync[OF ds(2) _ assms(2)])
  then show ?thesis using ds(1) assms(4) by (simp add: in_sync_def)
qed

subsection \<open>The two monitors as runs of checks\<close>

definition health_value :: "health_fun \<Rightarrow> inference_provider \<Rightarrow> bool" where
  "health_value health p = (health p = Inr True)"

fun p2c_entries :: "health_fun \<Rightarrow> 'w balance_config \<Rightarrow> (key \<times> inference_provider \<times> bool) list" where
  "p2c_entries health [] = []"
| "p2c_entries health ((et, b) # rest) =
     (case b of
        Latency ps \<Rightarrow> map (\<lambda>p. (\<lparr>k_provider = p, k_endpoint_type = et\<rparr>, p, health_value health p)) ps
      | Weighted _ \<Rightarrow> []) @ p2c_entries health rest"

fun weighted_entries ::
  "'w decimal_ops \<Rightarrow> health_fun \<Rightarrow> 'w balance_config \<Rightarrow> (weighted_key \<times> inference_provider \<times> bool) list" where
  "weighted_entries D health [] = []"
| "weighted_entries D health ((et, b) # rest) =
     (case b of
        Weighted ts \<Rightarrow> map (\<lambda>t. (target_key et (the (target_weight D t)) t, bt_provider t,
                                health_value health (bt_provider t))) ts
      | Latency _ \<Rightarrow> []) @ weighted_entries D health rest"

lemma p2c_providers_checks:
  "check_p2c_providers mk health et ps m = Inr m' \<Longrightarrow>
     checks mk (map (\<lambda>p. (\<lparr>k_provider = p, k_endpoint_type = et\<rparr>, p, health_value health p)) ps) m m'"
proof (induction ps arbitrary: m)
  case (Cons p ps)
  then obtain h m1 where h: "health p = Inr h"
    "check_key mk \<lparr>k_provider = p, k_endpoint_type = et\<rparr> p h m = Inr m1" "check_p2c_providers mk health et ps m1 = Inr m'"
    by auto
  have "health_value health p = h" using h(1) by (cases h) (auto simp: health_value_def)
  then show ?case using Cons.IH[OF h(3)] h(2) by (auto intro: checks_Cons)
qed (simp add: checks_Nil)

lemma p2c_monitor_checks:
  "check_p2c_monitor mk health bc m = Inr m' \<Longrightarrow> checks mk (p2c_entries health bc) m m'"
proof (induction bc arbitrary: m)
  case (Cons e bc)
  obtain et b where e: "e = (et, b)" by (cases e)
  obtain ps m1 where "b = Latency ps" "check_p2c_providers mk health et ps m = Inr m1"
    "check_p2c_monitor mk health bc m1 = Inr m'"
    using Cons.prems by (cases b) (auto simp: e)
  then show ?case using p2c_providers_checks[of mk health et ps m m1] Cons.IH[of m1]
    by (auto simp: e intro: checks_append)
qed (simp add: checks_Nil)

lemma weighted_targets_checks:
  "check_weighted_targets D mk health et ts m = Inr m' \<Longrightarrow>
     checks mk (map (\<lambda>t. (target_key et (the (target_weight D t)) t, bt_provider t,
                      health_value health (bt_provider t))) ts) m m'"
proof (induction ts arbitrary: m)
  case (Cons t ts)
  then obtain w h m1 where h: "target_weight D t = Some w" "health (bt_provider t) = Inr h"
    "check_key mk (target_key et w t) (bt_provider t) h m = Inr m1" "check_weighted_targets D mk health et ts m1 = Inr m'"
    by auto
  have "health_value health (bt_provider t) = h" using h(2) by (cases h) (auto simp: health_value_def)
  then show ?case using Cons.IH[OF h(4)] h(1,3) by (auto intro: checks_Cons)
qed (simp add: checks_Nil)

lemma weighted_monitor_checks:
  "check_weighted_monitor D mk health bc m = Inr m' \<Longrightarrow> checks mk (weighted_entries D health bc) m m'"
proof (induction bc arbitrary: m)
  case (Cons e bc)
  obtain et b where e: "e = (et, b)" by (cases e)
  obtain ts m1 where "b = Weighted ts" "check_weighted_targets D mk health et ts m = Inr m1"
    "check_weighted_monitor D mk health bc m1 = Inr m'"
    using Cons.prems by (cases b) (auto simp: e)
  then show ?case using weighted_targets_checks[of D mk health et ts m m1] Cons.IH[of m1]
    by (auto simp: e intro: checks_append)
qed (simp add: checks_Nil)

text \<open>The keys of a configuration, which do not depend on the health.\<close>

definition p2c_keys :: "'w balance_config \<Rightarrow> key set" where
  "p2c_keys bc = fst ` set (p2c_entries (\<lambda>_. Inr True) bc)"

definition health_weighted_keys :: "'w decimal_ops \<Rightarrow> 'w balance_config \<Rightarrow> weighted_key set" where
  "health_weighted_keys D bc = fst ` set (weighted_entries D (\<lambda>_. Inr True) bc)"

lemma p2c_entries_keys: "fst ` set (p2c_entries health bc) = p2c_keys bc"
  unfolding p2c_keys_def
  by (induction health bc rule: p2c_entries.induct) (auto simp: image_Un image_image split: balance_config_inner.splits)

lemma weighted_entries_keys: "fst ` set (weighted_entries D health bc) = health_weighted_keys D bc"
  unfolding health_weighted_keys_def
  by (induction D health bc rule: weighted_entries.induct) (auto simp: image_Un image_image split: balance_config_inner.splits)

lemma p2c_entry: "(k, p, h) \<in> set (p2c_entries health bc) \<Longrightarrow> p = k_provider k \<and> h = health_value health p"
  by (induction health bc rule: p2c_entries.induct) (auto split: balance_config_inner.splits)

lemma weighted_entry:
  "(k, p, h) \<in> set (weighted_entries D health bc) \<Longrightarrow> p = wk_provider k \<and> h = health_value health p"
  by (induction D health bc rule: weighted_entries.induct)
     (auto simp: target_key_def split: balance_config_inner.splits)

definition p2c_health_step ::
  "'s mk_dispatcher \<Rightarrow> 'w balance_config \<Rightarrow> (key, 's) health_monitor \<Rightarrow> (key, 's) change list \<Rightarrow>
     (key, 's) health_monitor \<Rightarrow> bool" where
  "p2c_health_step mk bc m cs m' \<longleftrightarrow>
     (\<exists>health. check_p2c_monitor mk health bc m = Inr m') \<and> hm_sent m' = hm_sent m @ cs"

definition weighted_health_step ::
  "'w decimal_ops \<Rightarrow> 's mk_dispatcher \<Rightarrow> 'w balance_config \<Rightarrow> (weighted_key, 's) health_monitor \<Rightarrow>
     (weighted_key, 's) change list \<Rightarrow> (weighted_key, 's) health_monitor \<Rightarrow> bool" where
  "weighted_health_step D mk bc m cs m' \<longleftrightarrow>
     (\<exists>health. check_weighted_monitor D mk health bc m = Inr m') \<and> hm_sent m' = hm_sent m @ cs"

interpretation p2c_health: removal_monitor "p2c_health_step mk bc" hm_unhealthy "p2c_keys bc"
  by unfold_locales
     (metis checks_sends p2c_health_step_def p2c_monitor_checks p2c_entries_keys order_refl)

interpretation weighted_health: removal_monitor "weighted_health_step D mk bc" hm_unhealthy "health_weighted_keys D bc"
  by unfold_locales
     (metis checks_sends weighted_health_step_def weighted_monitor_checks weighted_entries_keys order_refl)

text \<open>After a check, a key is held out exactly if its provider is unhealthy.\<close>

lemma p2c_check_unhealthy:
  assumes "check_p2c_monitor mk health bc m = Inr m'" "hm_unhealthy m \<subseteq> p2c_keys bc" "k \<in> p2c_keys bc"
  shows "k \<in> hm_unhealthy m' \<longleftrightarrow> \<not> health_value health (k_provider k)"
proof -
  obtain p h where e: "(k, p, h) \<in> set (p2c_entries health bc)"
    using assms(3) p2c_entries_keys[of health bc] by force
  have "in_sync (p2c_keys bc) (p2c_keys bc - hm_unhealthy m) (m\<lparr>hm_sent := []\<rparr>)"
    using assms(2) by (simp add: in_sync_def)
  moreover obtain cs where "checks mk (p2c_entries health bc) (m\<lparr>hm_sent := []\<rparr>) (m'\<lparr>hm_sent := cs\<rparr>)"
    using checks_frame[OF p2c_monitor_checks[OF assms(1)], of "[]"] by auto
  ultimately have "(\<forall>(k, p, h) \<in> set (p2c_entries health bc). k \<in> hm_unhealthy (m'\<lparr>hm_sent := cs\<rparr>) \<longleftrightarrow> \<not> h) \<and>
      (\<forall>k. k \<notin> fst ` set (p2c_entries health bc) \<longrightarrow>
         (k \<in> hm_unhealthy (m'\<lparr>hm_sent := cs\<rparr>) \<longleftrightarrow> k \<in> hm_unhealthy (m\<lparr>hm_sent := []\<rparr>)))"
    using p2c_entries_keys[of health bc] by (intro checks_health) (auto dest: p2c_entry)
  then show ?thesis using e p2c_entry[OF e] by auto
qed

lemma weighted_check_unhealthy:
  assumes "check_weighted_monitor D mk health bc m = Inr m'" "hm_unhealthy m \<subseteq> health_weighted_keys D bc"
    "k \<in> health_weighted_keys D bc"
  shows "k \<in> hm_unhealthy m' \<longleftrightarrow> \<not> health_value health (wk_provider k)"
proof -
  obtain p h where e: "(k, p, h) \<in> set (weighted_entries D health bc)"
    using assms(3) weighted_entries_keys[of D health bc] by force
  have "in_sync (health_weighted_keys D bc) (health_weighted_keys D bc - hm_unhealthy m) (m\<lparr>hm_sent := []\<rparr>)"
    using assms(2) by (simp add: in_sync_def)
  moreover obtain cs where "checks mk (weighted_entries D health bc) (m\<lparr>hm_sent := []\<rparr>) (m'\<lparr>hm_sent := cs\<rparr>)"
    using checks_frame[OF weighted_monitor_checks[OF assms(1)], of "[]"] by auto
  ultimately have "(\<forall>(k, p, h) \<in> set (weighted_entries D health bc). k \<in> hm_unhealthy (m'\<lparr>hm_sent := cs\<rparr>) \<longleftrightarrow> \<not> h) \<and>
      (\<forall>k. k \<notin> fst ` set (weighted_entries D health bc) \<longrightarrow>
         (k \<in> hm_unhealthy (m'\<lparr>hm_sent := cs\<rparr>) \<longleftrightarrow> k \<in> hm_unhealthy (m\<lparr>hm_sent := []\<rparr>)))"
    using weighted_entries_keys[of D health bc] by (intro checks_health) (auto dest: weighted_entry)
  then show ?thesis using e weighted_entry[OF e] by auto
qed

lemma fresh_total: "rl_total (fresh_counter window (unat (b :: 32 word)) start) now = 0"
proof -
  have "lap_total L (replicate n 0, replicate n 0) = 0" for L n
    by (subst lap_total_sum) (auto intro!: sum.neutral)
  from this[of _ "Suc (unat b)"] show ?thesis by (simp add: rl_total_def fresh_counter_def)
qed

section \<open>Properties\<close>


definition fresh_metrics :: endpoint_metrics where
  "fresh_metrics = \<lparr>em_request_count = fresh_counter (secs 60) (unat (9 :: 32 word)) 0,
     em_remote_internal_error_count = fresh_counter (secs 60) (unat (9 :: 32 word)) 0\<rparr>"


text \<open>After a check of a latency balancer, the balancer has exactly the configured keys whose
  provider is healthy, if before the check it had exactly those that were not held out.\<close>

theorem p2c_check_members:
  assumes "check_p2c_monitor mk health bc m = Inr m'" "hm_unhealthy m \<subseteq> p2c_keys bc"
    and "hm_sent m' = hm_sent m @ cs"
  shows "apply_changes (p2c_keys bc - hm_unhealthy m) cs = {k \<in> p2c_keys bc. health (k_provider k) = Inr True}"
proof -
  have "p2c_health_step mk bc m cs m'" using assms(1,3) by (auto simp: p2c_health_step_def)
  from p2c_health.sends[OF this assms(2)] show ?thesis
    using p2c_check_unhealthy[OF assms(1,2)] by (auto simp: health_value_def)
qed

definition sample_latency :: "nat balance_config" where
  "sample_latency = [(ET_Chat, Latency [P_OpenAI, P_Anthropic])]"

definition sample_health :: health_fun where
  "sample_health p = Inr (p \<noteq> P_OpenAI)"

theorem p2c_check_members_witness:
  "\<exists>m' :: (key, unit) health_monitor.
     check_p2c_monitor (\<lambda>p. Inr ()) sample_health sample_latency \<lparr>hm_unhealthy = {}, hm_sent = []\<rparr> = Inr m' \<and>
     apply_changes (p2c_keys sample_latency) (hm_sent m') = {k \<in> p2c_keys sample_latency. sample_health (k_provider k) = Inr True}"
proof -
  obtain m' :: "(key, unit) health_monitor" where
    m': "check_p2c_monitor (\<lambda>p. Inr ()) sample_health sample_latency \<lparr>hm_unhealthy = {}, hm_sent = []\<rparr> = Inr m'"
    by (simp add: sample_latency_def sample_health_def check_key_def)
  show ?thesis using p2c_check_members[OF m', of "hm_sent m'"] m' by auto
qed

text \<open>The same for a weighted balancer.\<close>

theorem weighted_check_members:
  assumes "check_weighted_monitor D mk health bc m = Inr m'" "hm_unhealthy m \<subseteq> health_weighted_keys D bc"
    and "hm_sent m' = hm_sent m @ cs"
  shows "apply_changes (health_weighted_keys D bc - hm_unhealthy m) cs =
    {k \<in> health_weighted_keys D bc. health (wk_provider k) = Inr True}"
proof -
  have "weighted_health_step D mk bc m cs m'" using assms(1,3) by (auto simp: weighted_health_step_def)
  from weighted_health.sends[OF this assms(2)] show ?thesis
    using weighted_check_unhealthy[OF assms(1,2)] by (auto simp: health_value_def)
qed

theorem weighted_check_members_witness:
  "\<exists>m' :: (weighted_key, unit) health_monitor.
     check_weighted_monitor percent_ops (\<lambda>p. Inr ()) sample_health (rc_load_balance sample_router)
       \<lparr>hm_unhealthy = {}, hm_sent = []\<rparr> = Inr m' \<and>
     apply_changes (health_weighted_keys percent_ops (rc_load_balance sample_router)) (hm_sent m') =
       {k \<in> health_weighted_keys percent_ops (rc_load_balance sample_router). sample_health (wk_provider k) = Inr True}"
proof -
  obtain m' :: "(weighted_key, unit) health_monitor" where
    m': "check_weighted_monitor percent_ops (\<lambda>p. Inr ()) sample_health (rc_load_balance sample_router)
       \<lparr>hm_unhealthy = {}, hm_sent = []\<rparr> = Inr m'"
    by (simp add: sample_router_def sample_config_def sample_health_def check_key_def target_weight_def target_key_def
        percent_ops_def)
  show ?thesis using weighted_check_members[OF m', of "hm_sent m'"] m' by auto
qed

end
