(* ===== verification/Rate_Limit_Monitor.thy ===== *)
theory Rate_Limit_Monitor
  imports Health_Monitor
begin

text \<open>
  The rate-limit monitor (\<open>discover/monitor/rate_limit/provider.rs\<close>, \<open>types/rate_limit.rs\<close>): a
  provider that has answered \<open>429\<close> is removed from its balancer and put back when its timer has
  run out. The \<open>select!\<close> loop is a step relation with the time, the handlers are functions.
\<close>

section \<open>Events and handlers\<close>

record rate_limit_event =
  re_api_endpoint :: api_endpoint
  re_retry_after_seconds :: "64 word option"

text \<open>\<open>ProviderRestore\<close>: its timer is the time at which the \<open>sleep\<close> is over.\<close>

record 'k provider_restore =
  rs_key :: 'k
  rs_api_endpoint :: api_endpoint
  rs_timer :: nat

record ('k, 's) rl_monitor =
  rm_limited :: "'k set"
  rm_pending :: "'k provider_restore list"
  rm_sent :: "('k, 's) change list"

abbreviation rl_monitor_init :: "('k, 's) rl_monitor" where
  "rl_monitor_init \<equiv> \<lparr>rm_limited = {}, rm_pending = [], rm_sent = []\<rparr>"

definition DEFAULT_WAIT_SECONDS :: "64 word" where "DEFAULT_WAIT_SECONDS = 30"
definition RATE_LIMIT_BUFFER_SECONDS :: nat where "RATE_LIMIT_BUFFER_SECONDS = 30"

text \<open>\<open>Duration::from_secs(retry_after.unwrap_or(30)) + 30s\<close>; the addition panics when the seconds
  overflow \<open>u64\<close>.\<close>

definition restore_duration :: "64 word option \<Rightarrow> duration option" where
  "restore_duration retry =
     (let s = unat (case retry of Some r \<Rightarrow> r | None \<Rightarrow> DEFAULT_WAIT_SECONDS) + RATE_LIMIT_BUFFER_SECONDS
      in if s < 2 ^ 64 then Some (secs s) else None)"

text \<open>\<open>tokio::time::sleep\<close>, from now and the duration to the time it is over: not before the duration
  has passed, up to the longest sleep that tokio documents.\<close>

type_synonym sleep_fun = "nat \<Rightarrow> duration \<Rightarrow> nat"

definition MAX_SLEEP :: duration where "MAX_SLEEP = 68719476734 * 1000000"

definition sleep_law :: "sleep_fun \<Rightarrow> bool" where
  "sleep_law sl \<longleftrightarrow> (\<forall>now d. d \<le> MAX_SLEEP \<longrightarrow> now + d \<le> sl now d)"

definition create_key_p2c :: "api_endpoint \<Rightarrow> (internal_error, key) result" where
  "create_key_p2c e = Inr \<lparr>k_provider = endpoint_provider e, k_endpoint_type = endpoint_type_of e\<rparr>"

definition create_key_weighted ::
  "'w decimal_ops \<Rightarrow> 'w balance_config \<Rightarrow> api_endpoint \<Rightarrow> (internal_error, weighted_key) result" where
  "create_key_weighted D bc e =
     (case map_of bc (endpoint_type_of e) of
        None \<Rightarrow> Inl Internal
      | Some (Latency _) \<Rightarrow> Inl Internal
      | Some (Weighted targets) \<Rightarrow>
          (case List.find (\<lambda>t. bt_provider t = endpoint_provider e) targets of
             None \<Rightarrow> Inl Internal
           | Some t \<Rightarrow> rbind (ok_or Internal (target_weight D t)) (\<lambda>w.
               Inr (target_key (endpoint_type_of e) w t))))"

text \<open>The branch of an incoming event.\<close>

definition hold_out ::
  "nat \<Rightarrow> api_endpoint \<Rightarrow> 'k \<Rightarrow> ('k, 's) rl_monitor \<Rightarrow> ('k, 's) rl_monitor" where
  "hold_out timer e k m =
     m\<lparr>rm_sent := rm_sent m @ [Remove k],
       rm_pending := rm_pending m @ [\<lparr>rs_key = k, rs_api_endpoint = e, rs_timer = timer\<rparr>],
       rm_limited := insert k (rm_limited m)\<rparr>"

definition handle_event ::
  "(api_endpoint \<Rightarrow> (internal_error, 'k) result) \<Rightarrow> sleep_fun \<Rightarrow> nat \<Rightarrow> rate_limit_event \<Rightarrow> ('k, 's) rl_monitor \<Rightarrow>
     (runtime_error abort, ('k, 's) rl_monitor) result" where
  "handle_event create_key sl now ev m =
     rbind (map_err (\<lambda>e. Failed (RE_Internal e)) (create_key (re_api_endpoint ev))) (\<lambda>k.
       if k \<in> rm_limited m then Inr m
       else case restore_duration (re_retry_after_seconds ev) of
           None \<Rightarrow> Inl Panicked
         | Some d \<Rightarrow> Inr (hold_out (sl now d) (re_api_endpoint ev) k m))"

text \<open>The branch of a restore whose timer has run out, the \<open>i\<close>th of the pending ones, which
  \<open>FuturesUnordered\<close> drops when it is ready. \<open>channel_open\<close> tells whether the balancer still listens.\<close>

definition put_back :: "nat \<Rightarrow> 's \<Rightarrow> ('k, 's) rl_monitor \<Rightarrow> ('k, 's) rl_monitor" where
  "put_back i service m =
     m\<lparr>rm_pending := take i (rm_pending m) @ drop (Suc i) (rm_pending m),
       rm_sent := rm_sent m @ [Insert (rs_key (rm_pending m ! i)) service],
       rm_limited := rm_limited m - {rs_key (rm_pending m ! i)}\<rparr>"

definition handle_restore ::
  "'s mk_dispatcher \<Rightarrow> bool \<Rightarrow> nat \<Rightarrow> ('k, 's) rl_monitor \<Rightarrow>
     (runtime_error abort, ('k, 's) rl_monitor) result" where
  "handle_restore mk channel_open i m =
     rbind (map_err (\<lambda>e. Failed (RE_Init e)) (mk (endpoint_provider (rs_api_endpoint (rm_pending m ! i))))) (\<lambda>service.
       if \<not> channel_open then Inl (Failed RE_ChannelSendFailed) else Inr (put_back i service m))"

text \<open>The \<open>else\<close> branch: both branches of the \<open>select!\<close> are disabled.\<close>

definition monitor_stops :: "bool \<Rightarrow> ('k, 's) rl_monitor \<Rightarrow> bool" where
  "monitor_stops events_closed m \<longleftrightarrow> events_closed \<and> rm_pending m = []"

section \<open>The supervisor\<close>

text \<open>\<open>run_forever\<close>: at every tick of its interval it drains the registered monitors and starts a task
  for each, with the receiver of the router's events; a task that ends with an error ends it too.\<close>

record ('m, 'rx) rl_registry =
  rg_monitors :: "(router_id \<times> 'm) list"
  rg_receivers :: "(router_id \<times> 'rx) list"
  rg_tasks :: "('m \<times> 'rx) list"

definition add_router_rate_limit_monitor ::
  "router_id \<Rightarrow> 'm \<Rightarrow> ('m, 'rx) rl_registry \<Rightarrow> ('m, 'rx) rl_registry" where
  "add_router_rate_limit_monitor r m g = g\<lparr>rg_monitors := assoc_insert r m (rg_monitors g)\<rparr>"

definition remove_rate_limit_receiver ::
  "router_id \<Rightarrow> ('m, 'rx) rl_registry \<Rightarrow> (init_error, 'rx \<times> ('m, 'rx) rl_registry) result" where
  "remove_rate_limit_receiver r g =
     (case map_of (rg_receivers g) r of
        None \<Rightarrow> Inl (RateLimitChannelsNotInitialized r)
      | Some rx \<Rightarrow> Inr (rx, g\<lparr>rg_receivers := filter (\<lambda>e. fst e \<noteq> r) (rg_receivers g)\<rparr>))"

fun start_monitors ::
  "(router_id \<times> 'm) list \<Rightarrow> ('m, 'rx) rl_registry \<Rightarrow> (runtime_error, ('m, 'rx) rl_registry) result" where
  "start_monitors [] g = Inr g"
| "start_monitors ((r, m) # ms) g =
     rbind (map_err RE_Init (remove_rate_limit_receiver r g)) (\<lambda>(rx, g').
       start_monitors ms (g'\<lparr>rg_tasks := rg_tasks g' @ [(m, rx)]\<rparr>))"

definition monitor_tick :: "('m, 'rx) rl_registry \<Rightarrow> (runtime_error, ('m, 'rx) rl_registry) result" where
  "monitor_tick g = start_monitors (rg_monitors g) (g\<lparr>rg_monitors := []\<rparr>)"

definition monitor_joined :: "(runtime_error abort, unit) result \<Rightarrow> runtime_error option" where
  "monitor_joined res =
     (case res of
        Inr _ \<Rightarrow> None
      | Inl (Failed e) \<Rightarrow> Some e
      | Inl Panicked \<Rightarrow> Some (RE_Join ''panic''))"

section \<open>The loop\<close>

inductive rl_step ::
  "(api_endpoint \<Rightarrow> (internal_error, 'k) result) \<Rightarrow> sleep_fun \<Rightarrow> 's mk_dispatcher \<Rightarrow> nat \<times> ('k, 's) rl_monitor \<Rightarrow>
     nat \<times> ('k, 's) rl_monitor \<Rightarrow> bool" for create_key sl mk where
  rl_event: "handle_event create_key sl now ev m = Inr m' \<Longrightarrow> rl_step create_key sl mk (now, m) (now, m')"
| rl_restore: "i < length (rm_pending m) \<Longrightarrow> rs_timer (rm_pending m ! i) \<le> now \<Longrightarrow>
    handle_restore mk True i m = Inr m' \<Longrightarrow> rl_step create_key sl mk (now, m) (now, m')"
| rl_tick: "rl_step create_key sl mk (now, m) (now + d, m)"

abbreviation rl_reaches ::
  "(api_endpoint \<Rightarrow> (internal_error, 'k) result) \<Rightarrow> sleep_fun \<Rightarrow> 's mk_dispatcher \<Rightarrow> nat \<times> ('k, 's) rl_monitor \<Rightarrow>
     nat \<times> ('k, 's) rl_monitor \<Rightarrow> bool" where
  "rl_reaches create_key sl mk \<equiv> (rl_step create_key sl mk)\<^sup>*\<^sup>*"

section \<open>Lemmas\<close>

definition rl_inv :: "('k, 's) rl_monitor \<Rightarrow> bool" where
  "rl_inv m \<longleftrightarrow> distinct (map rs_key (rm_pending m)) \<and> rs_key ` set (rm_pending m) = rm_limited m"

lemma hold_out_simps [simp]:
  "rm_sent (hold_out t e k m) = rm_sent m @ [Remove k]"
  "rm_pending (hold_out t e k m) = rm_pending m @ [\<lparr>rs_key = k, rs_api_endpoint = e, rs_timer = t\<rparr>]"
  "rm_limited (hold_out t e k m) = insert k (rm_limited m)"
  by (simp_all add: hold_out_def)

lemma put_back_simps [simp]:
  "rm_sent (put_back i s m) = rm_sent m @ [Insert (rs_key (rm_pending m ! i)) s]"
  "rm_pending (put_back i s m) = take i (rm_pending m) @ drop (Suc i) (rm_pending m)"
  "rm_limited (put_back i s m) = rm_limited m - {rs_key (rm_pending m ! i)}"
  by (simp_all add: put_back_def)

lemma handle_event_Ok_iff:
  "handle_event create_key sl now ev m = Inr m' \<longleftrightarrow>
     (\<exists>k. create_key (re_api_endpoint ev) = Inr k \<and>
       (k \<in> rm_limited m \<and> m' = m \<or>
        k \<notin> rm_limited m \<and> (\<exists>d. restore_duration (re_retry_after_seconds ev) = Some d \<and>
          m' = hold_out (sl now d) (re_api_endpoint ev) k m)))"
  by (cases "create_key (re_api_endpoint ev)"; cases "restore_duration (re_retry_after_seconds ev)")
     (auto simp: handle_event_def)

lemma handle_restore_Ok_iff:
  "handle_restore mk channel_open i m = Inr m' \<longleftrightarrow>
     channel_open \<and> (\<exists>sv. mk (endpoint_provider (rs_api_endpoint (rm_pending m ! i))) = Inr sv \<and> m' = put_back i sv m)"
  by (cases "mk (endpoint_provider (rs_api_endpoint (rm_pending m ! i)))") (auto simp: handle_restore_def)

lemma without_nth:
  assumes "i < length xs" "distinct (map f xs)"
  shows "distinct (map f (take i xs @ drop (Suc i) xs))"
    "f ` set (take i xs @ drop (Suc i) xs) = f ` set xs - {f (xs ! i)}"
proof -
  have s: "xs = take i xs @ xs ! i # drop (Suc i) xs" using assms(1) by (rule id_take_nth_drop)
  have d: "distinct (map f (take i xs @ xs ! i # drop (Suc i) xs))" using assms(2) s by simp
  then show "distinct (map f (take i xs @ drop (Suc i) xs))" by simp
  have "f ` set xs = f ` set (take i xs @ xs ! i # drop (Suc i) xs)" using s by simp
  also have "\<dots> = insert (f (xs ! i)) (f ` set (take i xs @ drop (Suc i) xs))" by auto
  finally have "f ` set xs = insert (f (xs ! i)) (f ` set (take i xs @ drop (Suc i) xs))" .
  moreover have "f (xs ! i) \<notin> f ` set (take i xs @ drop (Suc i) xs)" using d by auto
  ultimately show "f ` set (take i xs @ drop (Suc i) xs) = f ` set xs - {f (xs ! i)}" by simp
qed

lemma hold_out_inv: "rl_inv m \<Longrightarrow> k \<notin> rm_limited m \<Longrightarrow> rl_inv (hold_out t e k m)"
  by (auto simp: rl_inv_def)

lemma put_back_inv: "rl_inv m \<Longrightarrow> i < length (rm_pending m) \<Longrightarrow> rl_inv (put_back i sv m)"
  using without_nth[of i "rm_pending m" rs_key] by (simp add: rl_inv_def)

lemma rl_step_inv: "rl_step create_key sl mk st st' \<Longrightarrow> rl_inv (snd st) \<Longrightarrow> rl_inv (snd st')"
  by (induction rule: rl_step.induct)
     (auto simp: handle_event_Ok_iff handle_restore_Ok_iff hold_out_inv put_back_inv)

lemma rl_reaches_inv: "rl_reaches create_key sl mk st st' \<Longrightarrow> rl_inv (snd st) \<Longrightarrow> rl_inv (snd st')"
  by (induction rule: rtranclp_induct) (auto dest: rl_step_inv)

lemma rl_inv_init: "rl_inv rl_monitor_init"
  by (simp add: rl_inv_def)

subsection \<open>What the monitor sends\<close>

lemma rl_step_sends:
  assumes "rl_step create_key sl mk st st'" "rl_inv (snd st)" "rm_sent (snd st') = rm_sent (snd st) @ cs"
    and "rm_limited (snd st') \<subseteq> U" "rm_limited (snd st) \<subseteq> U"
  shows "apply_changes (U - rm_limited (snd st)) cs = U - rm_limited (snd st')"
  using assms
proof (induction rule: rl_step.induct)
  case (rl_restore i m now m')
  then obtain sv where m': "m' = put_back i sv m" by (auto simp: handle_restore_Ok_iff)
  have "rs_key (rm_pending m ! i) \<in> rm_limited m" using rl_restore by (auto simp: rl_inv_def)
  then show ?case using rl_restore by (auto simp: m')
qed (auto simp: handle_event_Ok_iff)

lemma rl_step_appends:
  "rl_step create_key sl mk st st' \<Longrightarrow> \<exists>cs. rm_sent (snd st') = rm_sent (snd st) @ cs"
  by (induction rule: rl_step.induct) (auto simp: handle_event_Ok_iff handle_restore_Ok_iff)

definition rl_send_step ::
  "(api_endpoint \<Rightarrow> (internal_error, 'k) result) \<Rightarrow> sleep_fun \<Rightarrow> 's mk_dispatcher \<Rightarrow> 'k set \<Rightarrow>
     nat \<times> ('k, 's) rl_monitor \<Rightarrow> ('k, 's) change list \<Rightarrow> nat \<times> ('k, 's) rl_monitor \<Rightarrow> bool" where
  "rl_send_step create_key sl mk U st cs st' \<longleftrightarrow>
     rl_inv (snd st) \<and> rl_step create_key sl mk st st' \<and> rm_sent (snd st') = rm_sent (snd st) @ cs \<and>
     rm_limited (snd st') \<subseteq> U"

abbreviation rl_held :: "nat \<times> ('k, 's) rl_monitor \<Rightarrow> 'k set" where "rl_held st \<equiv> rm_limited (snd st)"

interpretation p2c_rl: removal_monitor "rl_send_step create_key_p2c sl mk (p2c_keys bc)" rl_held "p2c_keys bc"
  for bc :: "'w balance_config" and sl and mk :: "'s mk_dispatcher"
  by unfold_locales (auto simp only: rl_send_step_def rl_step_sends)

interpretation weighted_rl: removal_monitor
  "rl_send_step (create_key_weighted D bc) sl mk (health_weighted_keys D bc)" rl_held "health_weighted_keys D bc"
  for D :: "'w decimal_ops" and bc sl and mk :: "'s mk_dispatcher"
  by unfold_locales (auto simp only: rl_send_step_def rl_step_sends)

lemma weighted_entries_target:
  "(et, Weighted ts) \<in> set bc \<Longrightarrow> t \<in> set ts \<Longrightarrow> target_weight D t = Some w \<Longrightarrow>
     target_key et w t \<in> health_weighted_keys D bc"
  unfolding health_weighted_keys_def
  by (induction D "\<lambda>_ :: inference_provider. Inr True :: (internal_error, bool) result" bc rule: weighted_entries.induct)
     (force split: balance_config_inner.splits)+

lemma create_key_weighted_known:
  assumes "create_key_weighted D bc e = Inr k"
  shows "k \<in> health_weighted_keys D bc"
proof -
  obtain ts t w where "map_of bc (endpoint_type_of e) = Some (Weighted ts)"
    "List.find (\<lambda>t. bt_provider t = endpoint_provider e) ts = Some t" "target_weight D t = Some w"
    "k = target_key (endpoint_type_of e) w t"
    using assms by (auto simp: create_key_weighted_def split: option.splits balance_config_inner.splits)
  then show ?thesis
    by (metis map_of_SomeD find_Some_iff nth_mem weighted_entries_target)
qed

lemma weighted_step_within:
  assumes "rl_step (create_key_weighted D bc) sl mk st st'" "rl_held st \<subseteq> health_weighted_keys D bc"
  shows "rl_held st' \<subseteq> health_weighted_keys D bc"
  using assms
  by (induction rule: rl_step.induct)
     (auto simp: handle_event_Ok_iff handle_restore_Ok_iff dest: create_key_weighted_known)

lemma weighted_run:
  fixes D :: "'w decimal_ops"
  assumes "rl_reaches (create_key_weighted D bc) sl mk (t0, rl_monitor_init) st"
  shows "weighted_rl.run TYPE('w) D bc sl mk (t0, rl_monitor_init) (rm_sent (snd st)) st"
  using assms
proof (induction rule: rtranclp_induct)
  case base
  show ?case by (simp add: weighted_rl.run_done)
next
  case (step st st')
  obtain cs where cs: "rm_sent (snd st') = rm_sent (snd st) @ cs" using rl_step_appends[OF step(2)] by auto
  have "rl_held st \<subseteq> health_weighted_keys D bc" using weighted_rl.run_members[OF step(3)] by simp
  then have "rl_send_step (create_key_weighted D bc) sl mk (health_weighted_keys D bc) st cs st'"
    using step(1,2) cs rl_reaches_inv[OF step(1)] rl_inv_init weighted_step_within[OF step(2)]
    by (simp add: rl_send_step_def)
  then show ?case unfolding cs by (rule weighted_rl.run_more[OF step(3)])
qed

subsection \<open>Timers\<close>

definition waits_for :: "'k \<Rightarrow> nat \<Rightarrow> ('k, 's) rl_monitor \<Rightarrow> bool" where
  "waits_for k t m \<longleftrightarrow> rl_inv m \<and> (\<exists>r \<in> set (rm_pending m). rs_key r = k \<and> t \<le> rs_timer r)"

lemma waits_for_limited: "waits_for k t m \<Longrightarrow> k \<in> rm_limited m"
  by (auto simp: waits_for_def rl_inv_def)

lemma put_back_other:
  assumes "r \<in> set (rm_pending m)" "i < length (rm_pending m)" "rs_timer (rm_pending m ! i) < rs_timer r"
  shows "r \<in> set (rm_pending (put_back i sv m))"
proof -
  have "rm_pending m = take i (rm_pending m) @ rm_pending m ! i # drop (Suc i) (rm_pending m)"
    using assms(2) by (rule id_take_nth_drop)
  then have "set (rm_pending m) = insert (rm_pending m ! i) (set (rm_pending (put_back i sv m)))"
    by (metis Un_insert_right list.simps(15) put_back_simps(2) set_append)
  then show ?thesis using assms(1,3) by auto
qed

lemma waits_for_step:
  assumes "rl_step create_key sl mk st st'" "waits_for k t (snd st)" "fst st' < t"
  shows "waits_for k t (snd st')"
proof -
  have inv: "rl_inv (snd st')" using rl_step_inv[OF assms(1)] assms(2) by (simp add: waits_for_def)
  obtain r where r: "r \<in> set (rm_pending (snd st))" "rs_key r = k" "t \<le> rs_timer r"
    using assms(2) by (auto simp: waits_for_def)
  have "r \<in> set (rm_pending (snd st'))"
    using assms(1,3) r(1,3)
  proof (induction rule: rl_step.induct)
    case (rl_restore i m now m')
    then show ?case using put_back_other[of r m i] by (auto simp: handle_restore_Ok_iff simp del: put_back_simps)
  qed (auto simp: handle_event_Ok_iff)
  then show ?thesis using inv r by (auto simp: waits_for_def)
qed

lemma rl_time_mono: "rl_step create_key sl mk st st' \<Longrightarrow> fst st \<le> fst st'"
  by (induction rule: rl_step.induct) auto

lemma waits_for_reaches:
  assumes "rl_reaches create_key sl mk st st'" "waits_for k t (snd st)" "fst st' < t"
  shows "waits_for k t (snd st')"
  using assms
  by (induction rule: rtranclp_induct)
     (auto intro: waits_for_step dest: rl_time_mono[THEN order.strict_trans1])

lemma restore_after_timer:
  assumes "rl_inv m" "k \<in> rm_limited m" "\<And>p. \<exists>s. mk p = Inr s"
  obtains i sv where "i < length (rm_pending m)" "rs_key (rm_pending m ! i) = k"
    "handle_restore mk True i m = Inr (put_back i sv m)" "k \<notin> rm_limited (put_back i sv m)"
proof -
  obtain i where i: "i < length (rm_pending m)" "rs_key (rm_pending m ! i) = k"
    using assms(1,2) by (metis (no_types, lifting) image_iff in_set_conv_nth rl_inv_def)
  obtain sv where "mk (endpoint_provider (rs_api_endpoint (rm_pending m ! i))) = Inr sv" using assms(3) by blast
  then show thesis using i that by (auto simp: handle_restore_Ok_iff)
qed

lemma restore_duration_None: "restore_duration retry = None \<longleftrightarrow> (\<exists>r. retry = Some r \<and> 2 ^ 64 \<le> unat r + 30)"
  by (auto simp: restore_duration_def DEFAULT_WAIT_SECONDS_def RATE_LIMIT_BUFFER_SECONDS_def Let_def split: option.splits)

lemma restore_duration_Some:
  "restore_duration retry = Some d \<Longrightarrow> d = secs (unat (case retry of Some r \<Rightarrow> r | None \<Rightarrow> 30) + 30)"
  by (auto simp: restore_duration_def DEFAULT_WAIT_SECONDS_def RATE_LIMIT_BUFFER_SECONDS_def Let_def
      split: option.splits if_splits)

section \<open>Properties\<close>

text \<open>C15. Whatever the order of events, restores and the passing of time: the balancer has exactly the
  configured keys that are not rate limited, and the keys that are rate limited are those of the
  pending restores, each with one.\<close>

theorem weighted_rate_limit_members:
  assumes "rl_reaches (create_key_weighted D bc) sl mk (t0, rl_monitor_init) (t, m)"
  shows "apply_changes (health_weighted_keys D bc) (rm_sent m) = health_weighted_keys D bc - rm_limited m \<and>
    rm_limited m \<subseteq> health_weighted_keys D bc \<and>
    rm_limited m = rs_key ` set (rm_pending m) \<and> distinct (map rs_key (rm_pending m))"
  using weighted_rl.run_members[OF weighted_run[OF assms]] rl_reaches_inv[OF assms] rl_inv_init
  by (auto simp: rl_inv_def)

definition sample_event :: rate_limit_event where
  "sample_event = \<lparr>re_api_endpoint = EP_OpenAI OpenAI_ChatCompletions, re_retry_after_seconds = Some 5\<rparr>"

definition sample_held :: "(weighted_key, unit) rl_monitor" where
  "sample_held = hold_out (secs 35) (EP_OpenAI OpenAI_ChatCompletions)
     (target_key ET_Chat (weight_from_f64 (f64_of_rat (75 / 100))) \<lparr>bt_provider = P_OpenAI, bt_weight = 75 :: nat\<rparr>)
     rl_monitor_init"

lemma sample_handled:
  "handle_event (create_key_weighted percent_ops (rc_load_balance sample_router)) (+) 0 sample_event rl_monitor_init =
     Inr sample_held"
  by (simp add: handle_event_def create_key_weighted_def sample_event_def sample_router_def sample_config_def
      restore_duration_def RATE_LIMIT_BUFFER_SECONDS_def sample_held_def target_weight_def percent_ops_def target_key_def)

lemma sample_reaches:
  "rl_reaches (create_key_weighted percent_ops (rc_load_balance sample_router)) (+) (\<lambda>p. Inr ())
     (0, rl_monitor_init) (0, sample_held)"
  using rl_event[OF sample_handled, where mk = "\<lambda>p. Inr ()"] by (rule r_into_rtranclp)

theorem weighted_rate_limit_members_witness:
  "apply_changes (health_weighted_keys percent_ops (rc_load_balance sample_router)) (rm_sent sample_held) =
     health_weighted_keys percent_ops (rc_load_balance sample_router) - rm_limited sample_held \<and>
   rm_limited sample_held \<noteq> {}"
  using weighted_rate_limit_members[OF sample_reaches] by (simp add: sample_held_def)





text \<open>The monitor of a latency balancer panics exactly if a provider that is not yet held out asks
  for a wait of seconds that do not fit \<open>u64\<close> with the thirty added; the supervisor then ends with an error.\<close>

theorem huge_retry_after_panics:
  "(handle_event create_key_p2c sl now ev m = Inl Panicked \<longleftrightarrow>
     \<lparr>k_provider = endpoint_provider (re_api_endpoint ev),
      k_endpoint_type = endpoint_type_of (re_api_endpoint ev)\<rparr> \<notin> rm_limited m \<and>
     (\<exists>r. re_retry_after_seconds ev = Some r \<and> 2 ^ 64 \<le> unat r + 30)) \<and>
   monitor_joined (Inl Panicked) \<noteq> None"
  unfolding restore_duration_None[symmetric]
  by (auto simp: handle_event_def create_key_p2c_def monitor_joined_def split: option.splits)

end
