(* ===== verification/Http.thy ===== *)
theory Http
  imports Gateway_Prelude
begin

text \<open>
  The parts of the \<open>http\<close> crate that the middleware uses: header maps with several values per name,
  the bytes that a header value may have, versions. A header map is the list of its entries in the
  order of their insertion, the names in lower case, as \<open>HeaderName\<close> keeps them.
\<close>

section \<open>Header maps\<close>

type_synonym headers = "(string \<times> string) list"

definition header_get :: "string \<Rightarrow> headers \<Rightarrow> string option" where
  "header_get n hs = map_of hs n"

definition header_values :: "string \<Rightarrow> headers \<Rightarrow> string list" where
  "header_values n hs = map snd (filter (\<lambda>e. fst e = n) hs)"

definition header_remove :: "string \<Rightarrow> headers \<Rightarrow> headers" where
  "header_remove n hs = filter (\<lambda>e. fst e \<noteq> n) hs"

definition header_append :: "string \<Rightarrow> string \<Rightarrow> headers \<Rightarrow> headers" where
  "header_append n v hs = hs @ [(n, v)]"

definition header_insert :: "string \<Rightarrow> string \<Rightarrow> headers \<Rightarrow> headers" where
  "header_insert n v hs = header_append n v (header_remove n hs)"

text \<open>\<open>Extend<(HeaderName, HeaderValue)>\<close> appends every pair.\<close>

definition header_extend :: "headers \<Rightarrow> headers \<Rightarrow> headers" where
  "header_extend extra hs = hs @ extra"

text \<open>\<open>HeaderValue::from_str\<close> and \<open>HeaderValue::to_str\<close>.\<close>

definition value_byte :: "char \<Rightarrow> bool" where
  "value_byte c \<longleftrightarrow> (32 \<le> (of_char c :: nat) \<and> (of_char c :: nat) \<noteq> 127) \<or> (of_char c :: nat) = 9"

definition visible_byte :: "char \<Rightarrow> bool" where
  "visible_byte c \<longleftrightarrow> (32 \<le> (of_char c :: nat) \<and> (of_char c :: nat) < 127) \<or> (of_char c :: nat) = 9"

definition header_value_from_str :: "string \<Rightarrow> string option" where
  "header_value_from_str s = (if list_all value_byte s then Some s else None)"

definition header_to_str :: "string \<Rightarrow> string option" where
  "header_to_str v = (if list_all visible_byte v then Some v else None)"

definition header_str :: "string \<Rightarrow> headers \<Rightarrow> string option" where
  "header_str n hs = Option.bind (header_get n hs) header_to_str"

text \<open>\<open>HeaderName::from_bytes\<close>: a nonempty token, put in lower case.\<close>

definition token_byte :: "char \<Rightarrow> bool" where
  "token_byte c \<longleftrightarrow>
     (let n = (of_char c :: nat) in
      (48 \<le> n \<and> n \<le> 57) \<or> (65 \<le> n \<and> n \<le> 90) \<or> (97 \<le> n \<and> n \<le> 122) \<or>
      n \<in> set [33, 35, 36, 37, 38, 39, 42, 43, 45, 46, 94, 95, 96, 124, 126])"

definition header_name_from_str :: "string \<Rightarrow> string option" where
  "header_name_from_str s = (if s \<noteq> [] \<and> list_all token_byte s then Some (map ascii_lower s) else None)"

text \<open>\<open>str::parse::<bool>\<close>.\<close>

definition parse_bool :: "string \<Rightarrow> bool option" where
  "parse_bool s = (if s = ''true'' then Some True else if s = ''false'' then Some False else None)"

section \<open>Responses\<close>

datatype http_version = HTTP_09 | HTTP_10 | HTTP_11 | HTTP_2 | HTTP_3

text \<open>A response whose body is a stream that may fail.\<close>

record response =
  rp_status :: nat
  rp_version :: http_version
  rp_headers :: headers
  rp_body :: "(string, string) result"

text \<open>The identity of a caller (\<open>types/extensions.rs\<close>).\<close>

record auth_context =
  ac_api_key :: string
  ac_user_id :: string
  ac_org_id :: string

section \<open>Operations that change a state and may fail\<close>

text \<open>An \<open>async\<close> handler with \<open>?\<close>: an error keeps the state as it was when the error occurred.\<close>

type_synonym ('s, 'e, 'a) handler = "'s \<Rightarrow> ('e, 'a) result \<times> 's"

definition hbind :: "('s, 'e, 'a) handler \<Rightarrow> ('a \<Rightarrow> ('s, 'e, 'b) handler) \<Rightarrow> ('s, 'e, 'b) handler" where
  "hbind m f = (\<lambda>s. case m s of (r, s') \<Rightarrow> (case r of Inl e \<Rightarrow> (Inl e, s') | Inr x \<Rightarrow> f x s'))"

definition hlift :: "('e, 'a) result \<Rightarrow> ('s, 'e, 'a) handler" where
  "hlift r = (\<lambda>s. (r, s))"

section \<open>Lemmas\<close>

lemma hbind_Ok_iff [simp]:
  "hbind m f s = (Inr y, s2) \<longleftrightarrow> (\<exists>x s1. m s = (Inr x, s1) \<and> f x s1 = (Inr y, s2))"
  by (auto simp: hbind_def split: prod.splits sum.splits)

lemma hbind_Err_iff:
  "hbind m f s = (Inl e, s2) \<longleftrightarrow> m s = (Inl e, s2) \<or> (\<exists>x s1. m s = (Inr x, s1) \<and> f x s1 = (Inl e, s2))"
  by (auto simp: hbind_def split: prod.splits sum.splits)

lemma hlift_iff [simp]: "hlift r s = (q, s') \<longleftrightarrow> q = r \<and> s' = s"
  by (auto simp: hlift_def)

lemma hbind_lift_Inr [simp]: "hbind (hlift (Inr x)) f = f x"
  by (simp add: hbind_def hlift_def)

lemma header_get_append:
  "header_get n (header_append m v hs) = (case header_get n hs of Some w \<Rightarrow> Some w | None \<Rightarrow> if n = m then Some v else None)"
  by (induction hs) (auto simp: header_get_def header_append_def)

lemma header_get_remove: "header_get n (header_remove m hs) = (if n = m then None else header_get n hs)"
  by (induction hs) (auto simp: header_get_def header_remove_def)

lemma header_get_insert [simp]: "header_get n (header_insert m v hs) = (if n = m then Some v else header_get n hs)"
  by (simp add: header_insert_def header_get_append header_get_remove split: option.splits)

lemma header_values_extend [simp]:
  "header_values n (header_extend extra hs) = header_values n hs @ header_values n extra"
  by (simp add: header_values_def header_extend_def)

lemma header_values_insert [simp]:
  "header_values n (header_insert m v hs) = (if n = m then [v] else header_values n hs)"
  by (auto simp: header_values_def header_insert_def header_append_def header_remove_def
      intro!: filter_cong arg_cong[where f = "map snd"])

lemma header_get_hd: "header_get n hs = (case header_values n hs of [] \<Rightarrow> None | v # _ \<Rightarrow> Some v)"
  by (induction hs) (auto simp: header_get_def header_values_def)

lemma header_to_str_value: "header_to_str v = Some w \<Longrightarrow> w = v \<and> header_value_from_str w = Some w"
  by (auto simp: header_to_str_def header_value_from_str_def visible_byte_def value_byte_def list_all_iff split: if_splits)

lemma show_nat_digit: "c \<in> set (show_nat n) \<Longrightarrow> \<exists>d < 10. c = digit_char d"
proof (induction n rule: show_nat.induct)
  case (1 n)
  have "\<exists>d < 10. digit_char (n mod 10) = digit_char d" by (rule exI[of _ "n mod 10"]) simp
  with 1 show ?case by (subst (asm) show_nat.simps) (auto split: if_splits)
qed

lemma show_nat_value: "header_value_from_str (show_nat n) = Some (show_nat n)"
proof -
  have "value_byte (digit_char d)" if "d < 10" for d using that by (simp add: value_byte_def digit_char_def)
  then show ?thesis by (auto simp: header_value_from_str_def list_all_iff dest!: show_nat_digit)
qed

end
