(* ===== verification/Cache.thy ===== *)
theory Cache
  imports Router Http
begin

text \<open>
  The response cache (\<open>middleware/cache/service.rs\<close>, \<open>middleware/cache/optional.rs\<close>, \<open>cache.rs\<close>): the
  settings of a request, the buckets of a cache key, the lookup of all buckets, revalidation and
  storage. Parameters: the cache policy of \<open>http_cache_semantics\<close>, the backend, the hasher, the
  parsers of \<open>url\<close> and \<open>cache_control\<close>, the random choices, and the inner service.
\<close>

section \<open>Settings\<close>

text \<open>The one field of \<open>CacheOptions\<close> that the gateway sets.\<close>

record cache_options =
  co_shared :: bool

record cache_context =
  cx_enabled :: "bool option"
  cx_directive :: "string option"
  cx_buckets :: "8 word option"
  cx_seed :: "string option"
  cx_options :: "cache_options option"

definition MAX_BUCKET_SIZE :: "8 word" where "MAX_BUCKET_SIZE = 10"
definition DEFAULT_BUCKETS :: "8 word" where "DEFAULT_BUCKETS = 1"

fun or_option :: "'a option \<Rightarrow> 'a option \<Rightarrow> 'a option" where
  "or_option (Some x) y = Some x"
| "or_option None y = y"

definition cache_context_merge :: "cache_context \<Rightarrow> cache_context \<Rightarrow> cache_context" where
  "cache_context_merge self other =
     (let enabled = (case cx_enabled other of
            Some explicitly_set \<Rightarrow> explicitly_set
          | None \<Rightarrow> (case cx_enabled self of Some e \<Rightarrow> e | None \<Rightarrow> False))
      in \<lparr>cx_enabled = Some enabled,
          cx_directive = or_option (cx_directive other) (cx_directive self),
          cx_buckets = or_option (cx_buckets other) (cx_buckets self),
          cx_seed = or_option (cx_seed other) (cx_seed self),
          cx_options = or_option (cx_options other) (cx_options self)\<rparr>)"

text \<open>\<open>CacheLayer::new\<close>; a layer is its context, and exists only with a cache manager.\<close>

definition cache_layer_new :: "bool \<Rightarrow> cache_config \<Rightarrow> (init_error, cache_context) result" where
  "cache_layer_new has_cache_manager config =
     (if \<not> has_cache_manager then Inl CacheNotConfigured
      else Inr \<lparr>cx_enabled = Some True, cx_directive = cc_directive config,
                cx_buckets = Some (of_nat (cc_buckets config)), cx_seed = cc_seed config,
                cx_options = Some \<lparr>co_shared = False\<rparr>\<rparr>)"

fun ok_option :: "('e, 'a) result \<Rightarrow> 'a option" where
  "ok_option (Inr x) = Some x"
| "ok_option (Inl e) = None"

definition cache_layer_for_router :: "bool \<Rightarrow> 'w router_config \<Rightarrow> cache_context option" where
  "cache_layer_for_router has_cache_manager rc =
     Option.bind (rc_cache rc) (\<lambda>config. ok_option (cache_layer_new has_cache_manager config))"

definition cache_layer_global :: "bool \<Rightarrow> 'w config \<Rightarrow> cache_context option" where
  "cache_layer_global has_cache_manager cfg =
     Option.bind (mw_cache (cfg_global cfg)) (\<lambda>config. ok_option (cache_layer_new has_cache_manager config))"

definition optional_layer_for_router ::
  "bool \<Rightarrow> 'w config \<Rightarrow> router_id \<Rightarrow> (init_error, cache_context option) result" where
  "optional_layer_for_router has_cache_manager cfg rid =
     rbind (ok_or (InvalidRouterId (router_id_display rid)) (map_of (cfg_routers cfg) rid)) (\<lambda>rc.
       Inr (cache_layer_for_router has_cache_manager rc))"

section \<open>Requests and responses\<close>

text \<open>A request, with the extensions that \<open>check_cache\<close> asks for. A body stream may fail.\<close>

record cache_request =
  cq_uri :: string
  cq_scheme :: "string option"
  cq_host :: "string option"
  cq_path_and_query :: "string option"
  cq_headers :: headers
  cq_body :: "(string, string) result"
  cq_instant :: bool
  cq_start_time :: bool
  cq_auth_context :: bool

text \<open>\<open>HttpResponse\<close>, what a cache stores.\<close>

record http_response =
  hr_body :: string
  hr_headers :: "(string \<times> string) list"
  hr_status :: nat
  hr_url :: string
  hr_version :: http_version

definition get_cache_ctx :: "cache_request \<Rightarrow> (invalid_request_error, cache_context) result" where
  "get_cache_ctx req =
     (let hs = cq_headers req;
          enabled = Option.bind (header_str ''helicone-cache-enabled'' hs) parse_bool;
          buckets = map_option (of_nat :: nat \<Rightarrow> 8 word)
            (Option.bind (header_str ''helicone-cache-bucket-max-size'' hs) (parse_unsigned 8))
      in if (case buckets of Some b \<Rightarrow> MAX_BUCKET_SIZE < b | None \<Rightarrow> False) then Inl InvalidCacheConfig
         else Inr \<lparr>cx_enabled = enabled, cx_directive = header_str ''cache-control'' hs,
                   cx_buckets = buckets, cx_seed = header_str ''helicone-cache-seed'' hs,
                   cx_options = None\<rparr>)"

text \<open>\<open>header_map_to_hash_map\<close>: the consuming iterator of a \<open>HeaderMap\<close> gives the name only with the
  first value of a header, so the further values are dropped; so is a header whose first value is
  not text.\<close>

fun header_map_to_hash_map_from :: "string set \<Rightarrow> headers \<Rightarrow> (string \<times> string) list" where
  "header_map_to_hash_map_from seen [] = []"
| "header_map_to_hash_map_from seen ((n, v) # hs) =
     (if n \<in> seen then header_map_to_hash_map_from seen hs
      else (case header_to_str v of
              Some s \<Rightarrow> (n, s) # header_map_to_hash_map_from (insert n seen) hs
            | None \<Rightarrow> header_map_to_hash_map_from (insert n seen) hs))"

definition header_map_to_hash_map :: "headers \<Rightarrow> (string \<times> string) list" where
  "header_map_to_hash_map hs = header_map_to_hash_map_from {} hs"

definition get_url :: "(string \<Rightarrow> (string, string) result) \<Rightarrow> cache_request \<Rightarrow> (invalid_request_error, string) result" where
  "get_url parse_url req =
     (let host = (case cq_host req of Some h \<Rightarrow> h | None \<Rightarrow> ''localhost'');
          scheme = (case cq_scheme req of Some s \<Rightarrow> s | None \<Rightarrow> ''http'')
      in map_err InvalidUrl (parse_url (scheme @ ''://'' @ host @ cq_uri req)))"

text \<open>\<open>build_response\<close>; the builder fails if a stored header is not a valid one, which only a foreign
  entry of a backend can have.\<close>

fun build_headers :: "(string \<times> string) list \<Rightarrow> headers option" where
  "build_headers [] = Some []"
| "build_headers ((k, v) # hs) =
     (case (header_name_from_str k, header_value_from_str v, build_headers hs) of
        (Some n, Some w, Some ws) \<Rightarrow> Some ((n, w) # ws)
      | _ \<Rightarrow> None)"

definition build_response :: "http_response \<Rightarrow> nat \<Rightarrow> headers \<Rightarrow> (internal_error, response) result" where
  "build_response cached status extra_headers =
     rbind (ok_or Internal (build_headers (hr_headers cached))) (\<lambda>hs.
       Inr \<lparr>rp_status = status, rp_version = HTTP_11, rp_headers = header_extend extra_headers hs,
            rp_body = Inr (hr_body cached)\<rparr>)"

definition bucket_header_value :: "8 word \<Rightarrow> string" where
  "bucket_header_value bucket =
     (case header_value_from_str (show_nat (unat bucket)) of Some v \<Rightarrow> v | None \<Rightarrow> ''0'')"

definition cache_headers :: "string \<Rightarrow> 8 word \<Rightarrow> headers" where
  "cache_headers hit bucket =
     [(''helicone-cache'', hit), (''helicone-cache-bucket-idx'', bucket_header_value bucket)]"

section \<open>The policy of a response\<close>

text \<open>The fields of the parsed \<open>Cache-Control\<close> directive that are read.\<close>

datatype cachability = CA_Private | CA_Public | CA_NoCache | CA_OnlyIfCached

record cache_control =
  ct_max_age :: "nat option"
  ct_must_revalidate :: bool
  ct_proxy_revalidate :: bool
  ct_no_store :: bool
  ct_no_transform :: bool
  ct_cachability :: "cachability option"

record cacheable_response =
  cr_resp_headers :: headers
  cr_status :: nat

definition append_if :: "bool \<Rightarrow> string \<Rightarrow> headers \<Rightarrow> headers" where
  "append_if b v hs = (if b then header_append ''cache-control'' v hs else hs)"

definition append_directive :: "cache_control \<Rightarrow> headers \<Rightarrow> headers" where
  "append_directive d hs =
     (let h1 = (case ct_max_age d of
            Some a \<Rightarrow> (case header_value_from_str (''max-age='' @ show_nat a) of
                Some v \<Rightarrow> header_append ''cache-control'' v hs | None \<Rightarrow> hs)
          | None \<Rightarrow> hs);
          h2 = append_if (ct_must_revalidate d) ''must-revalidate'' h1;
          h3 = append_if (ct_proxy_revalidate d) ''proxy-revalidate'' h2;
          h4 = append_if (ct_no_store d) ''no-store'' h3;
          h5 = append_if (ct_no_transform d) ''no-transform'' h4
      in case ct_cachability d of
           Some CA_Private \<Rightarrow> header_append ''cache-control'' ''private'' h5
         | Some CA_Public \<Rightarrow> header_append ''cache-control'' ''public'' h5
         | Some CA_NoCache \<Rightarrow> header_append ''cache-control'' ''no-cache'' h5
         | _ \<Rightarrow> h5)"

definition cacheable_response_new ::
  "(string \<Rightarrow> cache_control option) \<Rightarrow> cache_context \<Rightarrow> headers \<Rightarrow> nat \<Rightarrow> cacheable_response" where
  "cacheable_response_new parse_cc ctx resp status =
     \<lparr>cr_resp_headers =
        (case Option.bind (cx_directive ctx) parse_cc of
           Some d \<Rightarrow> append_directive d (header_remove ''set-cookie'' resp)
         | None \<Rightarrow> header_remove ''set-cookie'' resp),
      cr_status = status\<rparr>"

section \<open>Lookup\<close>

datatype before_request = BR_Fresh nat | BR_Stale cache_request bool

datatype cache_check = CK_Fresh response | CK_Stale cache_request | CK_Miss

record ('s, 'p) cache_env =
  ce_get :: "'s \<Rightarrow> string \<Rightarrow> (string, (http_response \<times> 'p) option) result"
  ce_put :: "'s \<Rightarrow> string \<Rightarrow> http_response \<Rightarrow> 'p \<Rightarrow> (string, http_response) result \<times> 's"
  ce_policy_new :: "cache_request \<Rightarrow> cacheable_response \<Rightarrow> nat \<Rightarrow> cache_options \<Rightarrow> 'p"
  ce_is_storable :: "'p \<Rightarrow> bool"
  ce_before_request :: "'p \<Rightarrow> cache_request \<Rightarrow> nat \<Rightarrow> before_request"
  ce_hash :: "string option \<Rightarrow> string option \<Rightarrow> string \<Rightarrow> 8 word \<Rightarrow> 64 word"
  ce_parse_url :: "string \<Rightarrow> (string, string) result"
  ce_cache_control :: "string \<Rightarrow> cache_control option"
  ce_observability :: bool

text \<open>\<open>check_cache\<close>; the logging of a hit runs in a task of its own and does not change the answer.\<close>

definition check_cache ::
  "('s, 'p) cache_env \<Rightarrow> 's \<Rightarrow> string \<Rightarrow> cache_request \<Rightarrow> 8 word \<Rightarrow> nat \<Rightarrow> (api_error, cache_check) result" where
  "check_cache E s key req bucket now =
     rbind (map_err (\<lambda>e. AE_Internal (CacheError e)) (ce_get E s key)) (\<lambda>entry.
       case entry of
         None \<Rightarrow> Inr CK_Miss
       | Some (http_resp, policy) \<Rightarrow>
           (case ce_before_request E policy req now of
              BR_Fresh status \<Rightarrow>
                rbind (map_err AE_Internal (build_response http_resp status (cache_headers ''HIT'' bucket))) (\<lambda>response.
                if \<not> cq_instant req then Inl (AE_Internal (ExtensionNotFound ''Instant''))
                else if \<not> cq_start_time req then Inl (AE_Internal (ExtensionNotFound ''DateTime<Utc>''))
                else rbind (map_err AE_InvalidRequest (get_url (ce_parse_url E) req)) (\<lambda>_.
                rbind (map_err (\<lambda>e. AE_Internal (CollectBodyError e)) (cq_body req)) (\<lambda>_.
                if ce_observability E \<and> \<not> cq_auth_context req
                then Inl (AE_Internal (ExtensionNotFound ''AuthContext''))
                else Inr (CK_Fresh response))))
            | BR_Stale request matches \<Rightarrow> if matches then Inr (CK_Stale request) else Inr CK_Miss))"

text \<open>The loop over the finished checks: it stops at the first fresh one, and drops the failed ones.\<close>

datatype scan_result =
    SC_Hit "8 word" response
  | SC_NoHit "(8 word \<times> string \<times> cache_request) list" "8 word list"

fun scan_checks ::
  "(8 word \<times> string \<times> (api_error, cache_check) result) list \<Rightarrow>
     (8 word \<times> string \<times> cache_request) list \<Rightarrow> 8 word list \<Rightarrow> scan_result" where
  "scan_checks [] stale_hits empty_buckets = SC_NoHit stale_hits empty_buckets"
| "scan_checks ((bucket, key, r) # rest) stale_hits empty_buckets =
     (case r of
        Inr (CK_Fresh resp) \<Rightarrow> SC_Hit bucket resp
      | Inr (CK_Stale parts) \<Rightarrow> scan_checks rest (stale_hits @ [(bucket, key, parts)]) empty_buckets
      | Inr CK_Miss \<Rightarrow> scan_checks rest stale_hits (empty_buckets @ [bucket])
      | Inl e \<Rightarrow> scan_checks rest stale_hits empty_buckets)"

definition cache_key :: "('s, 'p) cache_env \<Rightarrow> cache_context \<Rightarrow> cache_request \<Rightarrow> string \<Rightarrow> 8 word \<Rightarrow> string" where
  "cache_key E ctx req body bucket =
     show_nat (unat (ce_hash E (cx_seed ctx) (cq_path_and_query req) body bucket))"

definition bucket_list :: "8 word \<Rightarrow> 8 word list" where
  "bucket_list buckets = map of_nat [0..<unat buckets]"

section \<open>Storage\<close>

definition to_http_response :: "string \<Rightarrow> string \<Rightarrow> response \<Rightarrow> http_response" where
  "to_http_response url body resp =
     \<lparr>hr_body = body, hr_headers = header_map_to_hash_map (rp_headers resp), hr_status = rp_status resp,
      hr_url = url, hr_version = rp_version resp\<rparr>"

definition response_policy ::
  "('s, 'p) cache_env \<Rightarrow> cache_context \<Rightarrow> cache_request \<Rightarrow> response \<Rightarrow> nat \<Rightarrow> 'p" where
  "response_policy E ctx req resp now =
     ce_policy_new E req (cacheable_response_new (ce_cache_control E) ctx (rp_headers resp) (rp_status resp)) now
       (case cx_options ctx of Some c \<Rightarrow> c | None \<Rightarrow> \<lparr>co_shared = True\<rparr>)"

definition handle_response_for_cache_miss ::
  "('s, 'p) cache_env \<Rightarrow> cache_context \<Rightarrow> string \<Rightarrow> cache_request \<Rightarrow> response \<Rightarrow> 8 word \<Rightarrow> nat \<Rightarrow> 's \<Rightarrow>
     (api_error, response) result \<times> 's" where
  "handle_response_for_cache_miss E ctx key req resp bucket now s =
     (let policy = response_policy E ctx req resp now in
      if \<not> ce_is_storable E policy \<or> \<not> is_success (rp_status resp) then (Inr resp, s)
      else case get_url (ce_parse_url E) req of
          Inl e \<Rightarrow> (Inl (AE_InvalidRequest e), s)
        | Inr url \<Rightarrow>
            (case rp_body resp of
               Inl e \<Rightarrow> (Inl (AE_Internal (CollectBodyError e)), s)
             | Inr body \<Rightarrow>
                 (case ce_put E s key (to_http_response url body resp) policy of
                    (Inl e, s') \<Rightarrow> (Inl (AE_Internal (CacheError e)), s')
                  | (Inr cached, s') \<Rightarrow>
                      (map_err AE_Internal (build_response cached (rp_status resp) (cache_headers ''MISS'' bucket)), s'))))"

section \<open>The Redis backend\<close>

text \<open>
  A connection of the pool: \<open>GET\<close> converted to a string, which fails for a missing key, \<open>SET\<close> and
  \<open>DEL\<close>. The pool may have no connection. \<open>ser\<close> and \<open>de\<close> are the derived serializers of \<open>Store\<close>.
\<close>

record 'c redis_conn =
  rc_pool :: "(string, unit) result"
  rc_get_string :: "'c \<Rightarrow> string \<Rightarrow> (string, string) result"
  rc_set :: "'c \<Rightarrow> string \<Rightarrow> string \<Rightarrow> (string, unit) result \<times> 'c"
  rc_del :: "'c \<Rightarrow> string \<Rightarrow> (string, unit) result \<times> 'c"

definition redis_get ::
  "'c redis_conn \<Rightarrow> (string \<Rightarrow> (string, http_response \<times> 'p) result) \<Rightarrow> 'c \<Rightarrow> string \<Rightarrow>
     (string, (http_response \<times> 'p) option) result" where
  "redis_get R de c key =
     rbind (rc_pool R) (\<lambda>_.
     rbind (rc_get_string R c key) (\<lambda>v.
     rbind (de v) (\<lambda>store. Inr (Some store))))"

definition redis_put ::
  "'c redis_conn \<Rightarrow> (http_response \<times> 'p \<Rightarrow> (string, string) result) \<Rightarrow> 'c \<Rightarrow> string \<Rightarrow> http_response \<Rightarrow> 'p \<Rightarrow>
     (string, http_response) result \<times> 'c" where
  "redis_put R ser c key response policy =
     (case rc_pool R of
        Inl e \<Rightarrow> (Inl e, c)
      | Inr _ \<Rightarrow>
          (case ser (response, policy) of
             Inl e \<Rightarrow> (Inl e, c)
           | Inr v \<Rightarrow> (case rc_set R c key v of
               (Inl e, c') \<Rightarrow> (Inl e, c')
             | (Inr _, c') \<Rightarrow> (Inr response, c'))))"

definition redis_delete :: "'c redis_conn \<Rightarrow> 'c \<Rightarrow> string \<Rightarrow> (string, unit) result \<times> 'c" where
  "redis_delete R c key = (case rc_pool R of Inl e \<Rightarrow> (Inl e, c) | Inr _ \<Rightarrow> rc_del R c key)"

section \<open>The service\<close>

text \<open>
  \<open>make_request\<close>. The result comes with the new state of the backend and the requests that the inner
  service has got. \<open>finish\<close> is the order in which the checks of the buckets finish, \<open>rnd\<close> the
  random byte.
\<close>

type_synonym 's cache_outcome = "(api_error abort, response) result \<times> 's \<times> cache_request list"

definition with_directive :: "cache_context \<Rightarrow> cache_request \<Rightarrow> (internal_error, cache_request) result" where
  "with_directive ctx req =
     (case cx_directive ctx of
        None \<Rightarrow> Inr req
      | Some directive \<Rightarrow>
          if header_get ''cache-control'' (cq_headers req) \<noteq> None then Inr req
          else rbind (ok_or (InvalidHeader directive) (header_value_from_str directive)) (\<lambda>v.
            Inr (req\<lparr>cq_headers := header_insert ''cache-control'' v (cq_headers req)\<rparr>)))"

definition call_and_store ::
  "('s, 'p) cache_env \<Rightarrow> (cache_request \<Rightarrow> response) \<Rightarrow> cache_context \<Rightarrow> string \<Rightarrow> cache_request \<Rightarrow> 8 word \<Rightarrow>
     nat \<Rightarrow> 's \<Rightarrow> 's cache_outcome" where
  "call_and_store E inner ctx key req bucket now s =
     (case handle_response_for_cache_miss E ctx key req (inner req) bucket now s of
        (r, s') \<Rightarrow> (map_err Failed r, s', [req]))"

definition cache_make_request ::
  "('s, 'p) cache_env \<Rightarrow> (cache_request \<Rightarrow> response) \<Rightarrow> (8 word list \<Rightarrow> 8 word list) \<Rightarrow> 8 word \<Rightarrow> nat \<Rightarrow>
     cache_request \<Rightarrow> cache_context \<Rightarrow> 's \<Rightarrow> 's cache_outcome" where
  "cache_make_request E inner finish rnd now req ctx s =
     (if cx_enabled ctx \<noteq> Some True then (Inr (inner req), s, [req])
      else case with_directive ctx req of
          Inl e \<Rightarrow> (Inl (Failed (AE_Internal e)), s, [])
        | Inr req' \<Rightarrow>
            (case cq_body req' of
               Inl e \<Rightarrow> (Inl (Failed (AE_Internal (CollectBodyError e))), s, [])
             | Inr body \<Rightarrow>
                 let buckets = (case cx_buckets ctx of Some b \<Rightarrow> b | None \<Rightarrow> DEFAULT_BUCKETS);
                     checks = map (\<lambda>b. (b, cache_key E ctx req' body b,
                                check_cache E s (cache_key E ctx req' body b) req' b now))
                              (finish (bucket_list buckets))
                 in case scan_checks checks [] [] of
                      SC_Hit bucket resp \<Rightarrow>
                        (Inr (resp\<lparr>rp_headers := header_extend (cache_headers ''HIT'' bucket) (rp_headers resp)\<rparr>), s, [])
                    | SC_NoHit ((bucket, key, stale_parts) # _) _ \<Rightarrow>
                        call_and_store E inner ctx key (stale_parts\<lparr>cq_body := Inr body\<rparr>) bucket now s
                    | SC_NoHit [] (bucket # _) \<Rightarrow>
                        call_and_store E inner ctx (cache_key E ctx req' body bucket) req' bucket now s
                    | SC_NoHit [] [] \<Rightarrow>
                        if buckets = 0 then (Inl Panicked, s, [])
                        else call_and_store E inner ctx (cache_key E ctx req' body (rnd mod buckets)) req'
                               (rnd mod buckets) now s))"

definition cache_service_call ::
  "('s, 'p) cache_env \<Rightarrow> (cache_request \<Rightarrow> response) \<Rightarrow> (8 word list \<Rightarrow> 8 word list) \<Rightarrow> 8 word \<Rightarrow> nat \<Rightarrow>
     cache_context \<Rightarrow> cache_request \<Rightarrow> 's \<Rightarrow> 's cache_outcome" where
  "cache_service_call E inner finish rnd now layer req s =
     (case get_cache_ctx req of
        Inl e \<Rightarrow> (Inl (Failed (AE_InvalidRequest e)), s, [])
      | Inr c \<Rightarrow> cache_make_request E inner finish rnd now req (cache_context_merge layer c) s)"

text \<open>\<open>optional::Service\<close>.\<close>

definition optional_cache_call ::
  "('s, 'p) cache_env \<Rightarrow> (cache_request \<Rightarrow> response) \<Rightarrow> (8 word list \<Rightarrow> 8 word list) \<Rightarrow> 8 word \<Rightarrow> nat \<Rightarrow>
     cache_context option \<Rightarrow> cache_request \<Rightarrow> 's \<Rightarrow> 's cache_outcome" where
  "optional_cache_call E inner finish rnd now layer req s =
     (case layer of
        Some l \<Rightarrow> cache_service_call E inner finish rnd now l req s
      | None \<Rightarrow> (Inr (inner req), s, [req]))"

section \<open>Laws of the parameters\<close>

text \<open>The checks finish in some order; a backend gives back what was last put under a key.\<close>

definition finish_law :: "(8 word list \<Rightarrow> 8 word list) \<Rightarrow> bool" where
  "finish_law finish \<longleftrightarrow> (\<forall>bs. set (finish bs) = set bs \<and> length (finish bs) = length bs)"

definition backend_law :: "('s, 'p) cache_env \<Rightarrow> bool" where
  "backend_law E \<longleftrightarrow> (\<forall>s k r p r' s'. ce_put E s k r p = (Inr r', s') \<longrightarrow> r' = r \<and> ce_get E s' k = Inr (Some (r, p)))"

section \<open>Lemmas\<close>

lemma header_map_from_first:
  "map_of (header_map_to_hash_map_from seen hs) n =
     (if n \<in> seen then None else Option.bind (header_get n hs) header_to_str)"
  by (induction seen hs rule: header_map_to_hash_map_from.induct)
     (auto simp: header_get_def split: option.splits)

lemma header_map_from_distinct:
  "distinct (map fst (header_map_to_hash_map_from seen hs)) \<and>
   fst ` set (header_map_to_hash_map_from seen hs) \<inter> seen = {}"
  by (induction seen hs rule: header_map_to_hash_map_from.induct) (auto split: option.splits)

fun stale_of :: "8 word \<times> string \<times> (api_error, cache_check) result \<Rightarrow> (8 word \<times> string \<times> cache_request) option" where
  "stale_of (b, k, Inr (CK_Stale p)) = Some (b, k, p)"
| "stale_of _ = None"

fun miss_of :: "8 word \<times> string \<times> (api_error, cache_check) result \<Rightarrow> 8 word option" where
  "miss_of (b, k, Inr CK_Miss) = Some b"
| "miss_of _ = None"

fun is_fresh :: "8 word \<times> string \<times> (api_error, cache_check) result \<Rightarrow> bool" where
  "is_fresh (b, k, Inr (CK_Fresh r)) = True"
| "is_fresh _ = False"

lemma scan_checks_NoHit:
  "scan_checks cs st em = SC_NoHit st' em' \<Longrightarrow>
     (\<forall>c \<in> set cs. \<not> is_fresh c) \<and> st' = st @ List.map_filter stale_of cs \<and> em' = em @ List.map_filter miss_of cs"
  by (induction cs st em rule: scan_checks.induct)
     (auto simp: List.map_filter_def split: sum.splits cache_check.splits)

lemma scan_checks_Hit:
  "scan_checks cs st em = SC_Hit b r \<Longrightarrow> \<exists>k. (b, k, Inr (CK_Fresh r)) \<in> set cs"
  by (induction cs st em rule: scan_checks.induct) (auto split: sum.splits cache_check.splits)

lemma bucket_list_one [simp]: "bucket_list 1 = [0]"
  by (simp add: bucket_list_def)

lemma bucket_list_Nil: "bucket_list b = [] \<longleftrightarrow> b = 0"
  by (simp add: bucket_list_def unat_eq_0)

lemma finish_one [simp]: "finish_law finish \<Longrightarrow> finish [b] = [b]"
proof -
  assume "finish_law finish"
  then have "set (finish [b]) = {b}" "length (finish [b]) = 1" by (simp_all add: finish_law_def)
  then show "finish [b] = [b]" by (cases "finish [b]") auto
qed

lemma finish_Nil [simp]: "finish_law finish \<Longrightarrow> finish [] = []"
  unfolding finish_law_def by (metis list.size(3) length_0_conv)

lemma get_url_cong:
  "cq_host r = cq_host q \<Longrightarrow> cq_scheme r = cq_scheme q \<Longrightarrow> cq_uri r = cq_uri q \<Longrightarrow> get_url pu r = get_url pu q"
  by (simp add: get_url_def)

definition redis_law ::
  "'c redis_conn \<Rightarrow> (http_response \<times> 'p \<Rightarrow> (string, string) result) \<Rightarrow> (string \<Rightarrow> (string, http_response \<times> 'p) result) \<Rightarrow> bool" where
  "redis_law R ser de \<longleftrightarrow>
     (\<forall>c k v u c'. rc_set R c k v = (Inr u, c') \<longrightarrow> rc_get_string R c' k = Inr v) \<and>
     (\<forall>x v. ser x = Inr v \<longrightarrow> de v = Inr x)"

text \<open>The Redis backend keeps the law of a backend, and never answers that a key is absent.\<close>

lemma redis_backend:
  assumes "redis_law R ser de"
  shows "backend_law (E\<lparr>ce_get := redis_get R de, ce_put := redis_put R ser\<rparr>)"
  using assms
  by (auto simp: backend_law_def redis_law_def redis_get_def redis_put_def split: sum.splits prod.splits)

lemma redis_never_misses: "redis_get R de c key \<noteq> Inr None"
  by (auto simp: redis_get_def)

text \<open>What a response for a miss does to the backend.\<close>

lemma miss_stores:
  assumes "handle_response_for_cache_miss E ctx key req resp bucket now s = (r, s')" "s' \<noteq> s"
  obtains url body where "is_success (rp_status resp)" "ce_is_storable E (response_policy E ctx req resp now)"
    "rp_body resp = Inr body" "get_url (ce_parse_url E) req = Inr url"
    "s' = snd (ce_put E s key (to_http_response url body resp) (response_policy E ctx req resp now))"
proof -
  let ?policy = "response_policy E ctx req resp now"
  have "is_success (rp_status resp) \<and> ce_is_storable E ?policy"
    using assms by (auto simp: handle_response_for_cache_miss_def Let_def split: if_splits)
  moreover obtain url body where "get_url (ce_parse_url E) req = Inr url" "rp_body resp = Inr body"
    using assms calculation
    by (auto simp: handle_response_for_cache_miss_def Let_def split: if_splits sum.splits)
  moreover have "s' = snd (ce_put E s key (to_http_response url body resp) ?policy)"
    using assms calculation
    by (cases "ce_put E s key (to_http_response url body resp) ?policy")
       (auto simp: handle_response_for_cache_miss_def Let_def split: if_splits sum.splits)
  ultimately show thesis using that by blast
qed

text \<open>The shapes of an answer.\<close>

lemma make_request_cases:
  assumes "cache_make_request E inner finish rnd now req ctx s = (r, s', calls)"
  obtains (none) "s' = s" "calls = []"
  | (plain) "cx_enabled ctx \<noteq> Some True" "s' = s" "calls = [req]" "r = Inr (inner req)"
  | (stored) key req' bucket where "cx_enabled ctx = Some True"
      "call_and_store E inner ctx key req' bucket now s = (r, s', calls)"
proof (cases "cx_enabled ctx = Some True")
  case False
  then show ?thesis using assms plain by (auto simp: cache_make_request_def)
next
  case True
  show ?thesis
  proof (cases "\<exists>key req' bucket. call_and_store E inner ctx key req' bucket now s = (r, s', calls)")
    case True
    then show ?thesis using stored \<open>cx_enabled ctx = Some True\<close> by blast
  next
    case False
    then show ?thesis using assms True none
      by (auto simp: cache_make_request_def Let_def split: sum.splits scan_result.splits list.splits if_splits)
  qed
qed

lemma make_request_one:
  fixes E :: "('s, 'p) cache_env"
  assumes "finish_law finish" "cx_enabled ctx = Some True" "cx_buckets ctx = Some 1"
    and "with_directive ctx req = Inr req'" "cq_body req' = Inr body"
  defines "key \<equiv> cache_key E ctx req' body 0"
  shows "cache_make_request E inner finish rnd now req ctx s =
    (case check_cache E s key req' 0 now of
       Inr (CK_Fresh resp) \<Rightarrow>
         (Inr (resp\<lparr>rp_headers := header_extend (cache_headers ''HIT'' 0) (rp_headers resp)\<rparr>), s, [])
     | Inr (CK_Stale parts) \<Rightarrow> call_and_store E inner ctx key (parts\<lparr>cq_body := Inr body\<rparr>) 0 now s
     | _ \<Rightarrow> call_and_store E inner ctx key req' 0 now s)"
  using assms(1-5)
  by (auto simp: cache_make_request_def key_def Let_def split: sum.splits cache_check.splits)

text \<open>A response that has been stored comes back.\<close>

lemma stored_comes_back:
  assumes "backend_law E"
    and "handle_response_for_cache_miss E ctx key req resp bucket now s = (Inr out, s')"
    and "is_success (rp_status resp)" "ce_is_storable E (response_policy E ctx req resp now)"
  obtains url body hs where "rp_body resp = Inr body" "get_url (ce_parse_url E) req = Inr url"
    "ce_get E s' key = Inr (Some (to_http_response url body resp, response_policy E ctx req resp now))"
    "build_headers (header_map_to_hash_map (rp_headers resp)) = Some hs"
    "out = \<lparr>rp_status = rp_status resp, rp_version = HTTP_11,
            rp_headers = header_extend (cache_headers ''MISS'' bucket) hs, rp_body = Inr body\<rparr>"
proof -
  obtain url where url: "get_url (ce_parse_url E) req = Inr url"
    using assms(2-4) by (auto simp: handle_response_for_cache_miss_def Let_def split: sum.splits)
  obtain body where body: "rp_body resp = Inr body"
    using assms(2-4) url by (auto simp: handle_response_for_cache_miss_def Let_def split: sum.splits)
  obtain r2 s2 where p: "ce_put E s key (to_http_response url body resp) (response_policy E ctx req resp now) = (r2, s2)"
    by force
  obtain cached where c: "r2 = Inr cached"
    using assms(2-4) url body p by (cases r2) (auto simp: handle_response_for_cache_miss_def Let_def)
  have s2: "s2 = s'" and b: "build_response cached (rp_status resp) (cache_headers ''MISS'' bucket) = Inr out"
    using assms(2-4) url body p c by (auto simp: handle_response_for_cache_miss_def Let_def)
  have law: "cached = to_http_response url body resp"
    "ce_get E s' key = Inr (Some (to_http_response url body resp, response_policy E ctx req resp now))"
    using assms(1) p c s2 unfolding backend_law_def by blast+
  then obtain hs where "build_headers (header_map_to_hash_map (rp_headers resp)) = Some hs"
    using b by (auto simp: build_response_def to_http_response_def)
  then show thesis using that body url law b by (simp add: build_response_def to_http_response_def)
qed

lemma policy_without_cookies:
  "header_get ''set-cookie'' (cr_resp_headers (cacheable_response_new parse_cc ctx hs st)) = None"
proof -
  have "header_get ''set-cookie'' (append_directive d h) = header_get ''set-cookie'' h" for d h
    by (simp add: append_directive_def append_if_def Let_def header_get_append split: option.splits cachability.splits)
  then show ?thesis
    by (simp add: cacheable_response_new_def header_get_remove split: option.splits)
qed

lemma with_directive_body: "with_directive ctx req = Inr req' \<Longrightarrow> cq_body req' = cq_body req"
  by (auto simp: with_directive_def split: option.splits if_splits)

lemma make_request_panics:
  assumes "finish_law finish"
  shows "fst (cache_make_request E inner finish rnd now req ctx s) = Inl Panicked \<longleftrightarrow>
    cx_enabled ctx = Some True \<and> cx_buckets ctx = Some 0 \<and> is_ok (with_directive ctx req) \<and> is_ok (cq_body req)"
    (is "?panics \<longleftrightarrow> ?zero")
proof
  assume ?panics
  have no: "fst (call_and_store E inner ctx key r b now s) \<noteq> Inl Panicked" for key r b
    by (auto simp: call_and_store_def split: prod.splits)
  from \<open>?panics\<close> show ?zero
    by (auto simp: cache_make_request_def Let_def no is_ok_iff DEFAULT_BUCKETS_def dest: with_directive_body
        split: sum.splits option.splits scan_result.splits list.splits if_splits)
next
  assume zero: ?zero
  then obtain req' body where "with_directive ctx req = Inr req'" "cq_body req = Inr body" by (auto simp: is_ok_iff)
  then show ?panics using zero assms with_directive_body
    by (auto simp: cache_make_request_def Let_def bucket_list_def)
qed

section \<open>Properties\<close>

text \<open>C9. A request reaches the inner service at most once, and the cache changes only by one entry: the
  answer of the inner service to that request, of a success status and storable under the policy.\<close>

theorem cache_stores_only_success:
  assumes "cache_service_call E inner finish rnd now layer req s = (r, s', calls)"
  shows "length calls \<le> 1 \<and>
    (s' \<noteq> s \<longrightarrow> (\<exists>ctx req' key url body.
       calls = [req'] \<and> is_success (rp_status (inner req')) \<and> rp_body (inner req') = Inr body \<and>
       ce_is_storable E (response_policy E ctx req' (inner req') now) \<and>
       s' = snd (ce_put E s key (to_http_response url body (inner req')) (response_policy E ctx req' (inner req') now))))"
proof (cases "get_cache_ctx req")
  case (Inl e)
  then show ?thesis using assms by (auto simp: cache_service_call_def)
next
  case (Inr c)
  let ?ctx = "cache_context_merge layer c"
  have "cache_make_request E inner finish rnd now req ?ctx s = (r, s', calls)"
    using assms Inr by (simp add: cache_service_call_def)
  then show ?thesis
  proof (cases rule: make_request_cases)
    case (stored key req' bucket)
    then obtain r' where r': "handle_response_for_cache_miss E ?ctx key req' (inner req') bucket now s = (r', s')"
      "calls = [req']"
      by (auto simp: call_and_store_def split: prod.splits)
    then show ?thesis using miss_stores[OF r'(1)] by (metis One_nat_def dual_order.refl length_Cons list.size(3))
  qed auto
qed

text \<open>A backend with its policy for the witnesses: an entry is fresh for sixty seconds.\<close>

definition sample_cache :: "((string \<times> http_response \<times> nat) list, nat) cache_env" where
  "sample_cache =
     \<lparr>ce_get = (\<lambda>s k. Inr (map_of s k)), ce_put = (\<lambda>s k r p. (Inr r, (k, r, p) # s)),
      ce_policy_new = (\<lambda>req resp now co. now + 60), ce_is_storable = (\<lambda>p. True),
      ce_before_request = (\<lambda>p req now. if now < p then BR_Fresh 200 else BR_Stale req True),
      ce_hash = (\<lambda>seed pq body b. of_nat (length body)), ce_parse_url = Inr,
      ce_cache_control = (\<lambda>d. None), ce_observability = True\<rparr>"

definition sample_cache_request :: "headers \<Rightarrow> cache_request" where
  "sample_cache_request hs =
     \<lparr>cq_uri = ''/v1/chat/completions'', cq_scheme = None, cq_host = None,
      cq_path_and_query = Some ''/v1/chat/completions'', cq_headers = hs, cq_body = Inr ''hi'',
      cq_instant = True, cq_start_time = True, cq_auth_context = True\<rparr>"

definition sample_inner :: "cache_request \<Rightarrow> response" where
  "sample_inner req =
     \<lparr>rp_status = 200, rp_version = HTTP_11, rp_headers = [(''set-cookie'', ''a''), (''set-cookie'', ''b'')],
      rp_body = Inr ''ok''\<rparr>"

definition sample_layer :: cache_context where
  "sample_layer =
     \<lparr>cx_enabled = Some True, cx_directive = None, cx_buckets = Some 1, cx_seed = None,
      cx_options = Some \<lparr>co_shared = False\<rparr>\<rparr>"

lemma sample_backend: "backend_law sample_cache"
  by (simp add: backend_law_def sample_cache_def)

lemma sample_finish: "finish_law rev"
  by (simp add: finish_law_def)

lemma sample_stored:
  "cache_make_request sample_cache sample_inner rev rnd 0 (sample_cache_request []) sample_layer [] =
     (Inr \<lparr>rp_status = 200, rp_version = HTTP_11,
           rp_headers = header_extend (cache_headers ''MISS'' 0) [(''set-cookie'', ''a'')], rp_body = Inr ''ok''\<rparr>,
      [(show_nat 2, to_http_response ''http://localhost/v1/chat/completions'' ''ok''
          (sample_inner (sample_cache_request [])), 60)], [sample_cache_request []])"
proof -
  have "header_name_from_str ''set-cookie'' = Some ''set-cookie''" "header_value_from_str ''a'' = Some ''a''"
    "header_to_str ''a'' = Some ''a''"
    by (simp_all add: header_name_from_str_def token_byte_def ascii_lower_def header_value_from_str_def value_byte_def
        header_to_str_def visible_byte_def)
  then show ?thesis
    by (subst make_request_one[where req' = "sample_cache_request []" and body = "''hi''"])
       (simp_all add: sample_layer_def sample_finish with_directive_def sample_cache_request_def check_cache_def
          sample_cache_def call_and_store_def handle_response_for_cache_miss_def sample_inner_def get_url_def
          to_http_response_def header_map_to_hash_map_def build_response_def response_policy_def cache_key_def)
qed

theorem cache_stores_only_success_witness:
  "\<exists>r s' calls. cache_service_call sample_cache sample_inner rev 0 0 sample_layer (sample_cache_request []) [] = (r, s', calls) \<and>
     length calls \<le> 1 \<and> s' \<noteq> []"
proof -
  have "cache_context_merge sample_layer \<lparr>cx_enabled = None, cx_directive = None, cx_buckets = None, cx_seed = None,
      cx_options = None\<rparr> = sample_layer"
    by (simp add: cache_context_merge_def sample_layer_def)
  then obtain r s' calls where c: "cache_service_call sample_cache sample_inner rev 0 0 sample_layer (sample_cache_request []) [] =
      (r, s', calls)" "s' \<noteq> []"
    by (simp add: cache_service_call_def get_cache_ctx_def header_str_def header_get_def sample_stored
        sample_cache_request_def[of "[]", THEN arg_cong, of cq_headers, simplified])
  then show ?thesis using cache_stores_only_success[OF c(1)] by blast
qed

text \<open>C29. A stored response comes back: with one bucket and a policy that is fresh at the later time, the same
  request is answered without the inner service, with the status, the body and the headers of the first
  answer; only the marker headers differ, and they appear twice.\<close>

theorem cache_hit_after_store:
  assumes "backend_law E" "finish_law finish" "finish_law finish2"
    and "cx_enabled ctx = Some True" "cx_buckets ctx = Some 1"
    and "with_directive ctx req = Inr req'" "cq_body req' = Inr body"
    and "ce_get E s (cache_key E ctx req' body 0) = Inr None"
    and "is_success (rp_status (inner req'))" "ce_is_storable E (response_policy E ctx req' (inner req') now)"
    and "cache_make_request E inner finish rnd now req ctx s = (Inr resp, s1, calls)"
    and "ce_before_request E (response_policy E ctx req' (inner req') now) req' now2 = BR_Fresh (rp_status (inner req'))"
    and "cq_instant req'" "cq_start_time req'" "cq_auth_context req'"
  shows "\<exists>resp2. cache_make_request E inner finish2 rnd2 now2 req ctx s1 = (Inr resp2, s1, []) \<and>
    rp_status resp2 = rp_status resp \<and> rp_body resp2 = rp_body resp \<and>
    (\<forall>n. n \<noteq> ''helicone-cache'' \<and> n \<noteq> ''helicone-cache-bucket-idx'' \<longrightarrow>
       header_values n (rp_headers resp2) = header_values n (rp_headers resp)) \<and>
    (\<exists>old. header_values ''helicone-cache'' (rp_headers resp2) = old @ [''HIT'', ''HIT''])"
proof -
  let ?key = "cache_key E ctx req' body 0"
  have "check_cache E s ?key req' 0 now = Inr CK_Miss" using assms(8) by (simp add: check_cache_def)
  then have "call_and_store E inner ctx ?key req' 0 now s = (Inr resp, s1, calls)"
    using make_request_one[OF assms(2,4-7), where E = E] assms(11) by simp
  then have "handle_response_for_cache_miss E ctx ?key req' (inner req') 0 now s = (Inr resp, s1)"
    by (auto simp: call_and_store_def split: prod.splits)
  from stored_comes_back[OF assms(1) this assms(9,10)]
  obtain url rbody hs where st: "rp_body (inner req') = Inr rbody" "get_url (ce_parse_url E) req' = Inr url"
    "ce_get E s1 ?key = Inr (Some (to_http_response url rbody (inner req'), response_policy E ctx req' (inner req') now))"
    "build_headers (header_map_to_hash_map (rp_headers (inner req'))) = Some hs"
    "resp = \<lparr>rp_status = rp_status (inner req'), rp_version = HTTP_11,
            rp_headers = header_extend (cache_headers ''MISS'' 0) hs, rp_body = Inr rbody\<rparr>"
    by blast
  let ?hit = "\<lparr>rp_status = rp_status (inner req'), rp_version = HTTP_11,
            rp_headers = header_extend (cache_headers ''HIT'' 0) hs, rp_body = Inr rbody\<rparr>"
  have "check_cache E s1 ?key req' 0 now2 = Inr (CK_Fresh ?hit)"
    using st assms(7,12-15) by (simp add: check_cache_def build_response_def to_http_response_def)
  then have "cache_make_request E inner finish2 rnd2 now2 req ctx s1 =
      (Inr (?hit\<lparr>rp_headers := header_extend (cache_headers ''HIT'' 0) (rp_headers ?hit)\<rparr>), s1, [])"
    using make_request_one[OF assms(3-7), where E = E] by simp
  moreover have "header_values n (cache_headers h 0) = []"
    if "n \<noteq> ''helicone-cache''" "n \<noteq> ''helicone-cache-bucket-idx''" for n h
    using that by (simp add: header_values_def cache_headers_def)
  moreover have "header_values ''helicone-cache'' (cache_headers h 0) = [h]" for h
    by (simp add: header_values_def cache_headers_def)
  ultimately show ?thesis unfolding st(5) by simp
qed

theorem cache_hit_after_store_witness:
  "\<exists>resp2 s1. cache_make_request sample_cache sample_inner rev 0 5 (sample_cache_request []) sample_layer s1 = (Inr resp2, s1, []) \<and>
     rp_body resp2 = Inr ''ok'' \<and> rp_status resp2 = 200"
proof -
  have "cx_enabled sample_layer = Some True" "cx_buckets sample_layer = Some 1"
    "with_directive sample_layer (sample_cache_request []) = Inr (sample_cache_request [])"
    "cq_body (sample_cache_request []) = Inr ''hi''"
    "ce_get sample_cache [] (cache_key sample_cache sample_layer (sample_cache_request []) ''hi'' 0) = Inr None"
    "is_success (rp_status (sample_inner (sample_cache_request [])))"
    "ce_is_storable sample_cache (response_policy sample_cache sample_layer (sample_cache_request []) (sample_inner (sample_cache_request [])) 0)"
    by (simp_all add: with_directive_def sample_layer_def sample_cache_request_def sample_cache_def sample_inner_def)
  note h = cache_hit_after_store[OF sample_backend sample_finish sample_finish this sample_stored, of 5 0]
  obtain resp2 s1 where "cache_make_request sample_cache sample_inner rev 0 5 (sample_cache_request []) sample_layer s1 = (Inr resp2, s1, [])"
    "rp_status resp2 = 200" "rp_body resp2 = Inr ''ok''"
    using h by (auto simp: sample_cache_request_def sample_cache_def response_policy_def sample_inner_def)
  then show ?thesis by blast
qed

text \<open>The cache panics exactly if it is enabled for the request and the request (or the configuration)
  asks for zero buckets: the fallback bucket is a random byte modulo their number.\<close>

theorem zero_buckets_panic:
  assumes "finish_law finish"
  shows "fst (cache_service_call E inner finish rnd now layer req s) = Inl Panicked \<longleftrightarrow>
    (\<exists>c. get_cache_ctx req = Inr c \<and> cx_enabled (cache_context_merge layer c) = Some True \<and>
       cx_buckets (cache_context_merge layer c) = Some 0 \<and>
       is_ok (with_directive (cache_context_merge layer c) req) \<and> is_ok (cq_body req))"
  by (auto simp: cache_service_call_def make_request_panics[OF assms] split: sum.splits)

theorem zero_buckets_panic_witness:
  "fst (cache_service_call sample_cache sample_inner rev 0 0 sample_layer
     (sample_cache_request [(''helicone-cache-bucket-max-size'', ''0'')]) []) = Inl Panicked"
proof -
  let ?req = "sample_cache_request [(''helicone-cache-bucket-max-size'', ''0'')]"
  have "parse_unsigned 8 ''0'' = Some 0" by (simp add: parse_unsigned_def char_digit_def)
  moreover have "header_to_str ''0'' = Some ''0''" by (simp add: header_to_str_def visible_byte_def)
  ultimately have "get_cache_ctx ?req = Inr \<lparr>cx_enabled = None, cx_directive = None, cx_buckets = Some 0,
      cx_seed = None, cx_options = None\<rparr>"
    by (simp add: get_cache_ctx_def header_str_def header_get_def sample_cache_request_def)
  then show ?thesis unfolding zero_buckets_panic[OF sample_finish]
    by (simp add: cache_context_merge_def sample_layer_def with_directive_def sample_cache_request_def)
qed

text \<open>The answer to a revalidation is not combined with the stored entry: when a stale entry matches
  and the inner service answers \<open>304\<close>, or any other status that is not a success, the client gets that
  answer and the cache stays as it is.\<close>

theorem revalidation_passed_on:
  assumes "finish_law finish" "cx_enabled ctx = Some True" "cx_buckets ctx = Some 1"
    and "with_directive ctx req = Inr req'" "cq_body req' = Inr body"
    and "ce_get E s (cache_key E ctx req' body 0) = Inr (Some (entry, policy))"
    and "ce_before_request E policy req' now = BR_Stale parts True"
    and "\<not> is_success (rp_status (inner (parts\<lparr>cq_body := Inr body\<rparr>)))"
  shows "cache_make_request E inner finish rnd now req ctx s =
    (Inr (inner (parts\<lparr>cq_body := Inr body\<rparr>)), s, [parts\<lparr>cq_body := Inr body\<rparr>])"
proof -
  have "check_cache E s (cache_key E ctx req' body 0) req' 0 now = Inr (CK_Stale parts)"
    using assms(6,7) by (simp add: check_cache_def)
  then show ?thesis using make_request_one[OF assms(1-5), where E = E] assms(8)
    by (simp add: call_and_store_def handle_response_for_cache_miss_def Let_def)
qed

definition sample_not_modified :: "cache_request \<Rightarrow> response" where
  "sample_not_modified req = \<lparr>rp_status = 304, rp_version = HTTP_11, rp_headers = [], rp_body = Inr []\<rparr>"

theorem revalidation_passed_on_witness:
  "\<exists>s. cache_make_request sample_cache sample_not_modified rev 0 90 (sample_cache_request []) sample_layer s =
     (Inr (sample_not_modified (sample_cache_request [])), s, [sample_cache_request []])"
proof -
  let ?s = "[(show_nat 2, to_http_response [] ''ok'' (sample_inner (sample_cache_request [])), 60)]"
  have h: "cx_enabled sample_layer = Some True" "cx_buckets sample_layer = Some 1"
    "with_directive sample_layer (sample_cache_request []) = Inr (sample_cache_request [])"
    "cq_body (sample_cache_request []) = Inr ''hi''"
    "ce_get sample_cache ?s (cache_key sample_cache sample_layer (sample_cache_request []) ''hi'' 0) =
       Inr (Some (to_http_response [] ''ok'' (sample_inner (sample_cache_request [])), 60))"
    "ce_before_request sample_cache 60 (sample_cache_request []) 90 = BR_Stale (sample_cache_request []) True"
    by (simp_all add: with_directive_def sample_layer_def sample_cache_request_def sample_cache_def cache_key_def)
  have b: "(sample_cache_request [])\<lparr>cq_body := Inr ''hi''\<rparr> = sample_cache_request []"
    by (simp add: sample_cache_request_def)
  show ?thesis using revalidation_passed_on[OF sample_finish h, where inner = sample_not_modified and rnd = 0] unfolding b
    by (auto simp: sample_not_modified_def)
qed

text \<open>What is stored of the headers of a response: the first value of each header, if it is text;
  \<open>Set-Cookie\<close>, which is removed for the policy only, is stored and replayed as well.\<close>

theorem stored_headers_first_values:
  "map_of (hr_headers (to_http_response url body resp)) n = Option.bind (header_get n (rp_headers resp)) header_to_str \<and>
   distinct (map fst (hr_headers (to_http_response url body resp))) \<and>
   header_get ''set-cookie'' (cr_resp_headers (cacheable_response_new parse_cc ctx (rp_headers resp) st)) = None"
  using header_map_from_first[of "{}" "rp_headers resp" n] header_map_from_distinct[of "{}" "rp_headers resp"]
  by (simp add: to_http_response_def header_map_to_hash_map_def policy_without_cookies)

end
