(* ===== verification/Rate_Limiter.thy ===== *)
theory Rate_Limiter
  imports Router Http
begin

text \<open>
  The rate-limit middleware (\<open>middleware/rate_limit/\<close>): which limiter a layer has (\<open>service.rs\<close>), the
  keys (\<open>extractor.rs\<close>) and the GCRA limiter over Redis (\<open>redis_service.rs\<close>), with the arithmetic of
  \<open>i64\<close>. Parameters: the connections to Redis, the builder of the in-memory limiter of the
  \<open>tower_governor\<close> crate, the clock, and the inner service.
\<close>

section \<open>Arithmetic of \<open>i64\<close>\<close>

definition i64 :: "int \<Rightarrow> int" where
  "i64 x = (x + 2 ^ 63) mod 2 ^ 64 - 2 ^ 63"

definition sat_i64 :: "int \<Rightarrow> int" where
  "sat_i64 x = max (- (2 ^ 63)) (min (2 ^ 63 - 1) x)"

definition trunc_div :: "int \<Rightarrow> int \<Rightarrow> int" where
  "trunc_div a b = (if (a < 0) = (b < 0) then \<bar>a\<bar> div \<bar>b\<bar> else - (\<bar>a\<bar> div \<bar>b\<bar>))"

section \<open>The layer\<close>

definition default_refill_frequency :: duration where
  "default_refill_frequency = secs 1"

text \<open>\<open>refill_frequency.checked_div(capacity)\<close>, with the default for a division by zero.\<close>

definition per_cell_duration :: "gcra_config \<Rightarrow> duration" where
  "per_cell_duration g =
     (if gc_capacity g = 0 then default_refill_frequency else gc_refill_frequency g div gc_capacity g)"

text \<open>\<open>GovernorConfigBuilder::finish\<close> gives no configuration for a zero period or a zero burst size.\<close>

record governor_config =
  gv_period :: duration
  gv_burst_size :: nat

definition governor_finish :: "duration \<Rightarrow> nat \<Rightarrow> governor_config option" where
  "governor_finish period burst =
     (if period = 0 \<or> burst = 0 then None else Some \<lparr>gv_period = period, gv_burst_size = burst\<rparr>)"

definition limiter_config :: "limits_config option \<Rightarrow> governor_config option" where
  "limiter_config limits =
     Option.bind limits (\<lambda>l. governor_finish (per_cell_duration (lc_per_api_key l)) (gc_capacity (lc_per_api_key l)))"

datatype inner_layer =
    IL_None
  | IL_InMemory governor_config
  | IL_Redis limits_config string "router_id option"

text \<open>\<open>pool_ok\<close> tells for a URL whether \<open>RedisRateLimitLayer::new\<close> gets a pool.\<close>

definition new_redis_inner :: "(string \<Rightarrow> bool) \<Rightarrow> limits_config option \<Rightarrow> string \<Rightarrow> inner_layer" where
  "new_redis_inner pool_ok rl url =
     (case rl of
        Some l \<Rightarrow> if pool_ok url then IL_Redis l url None else IL_None
      | None \<Rightarrow> IL_None)"

definition new_in_memory_inner :: "governor_config option \<Rightarrow> inner_layer" where
  "new_in_memory_inner rl = (case rl of Some l \<Rightarrow> IL_InMemory l | None \<Rightarrow> IL_None)"

definition rate_limit_layer_global :: "(string \<Rightarrow> bool) \<Rightarrow> 'w config \<Rightarrow> inner_layer" where
  "rate_limit_layer_global pool_ok cfg =
     (case mw_rate_limit (cfg_global cfg) of
        Some g \<Rightarrow>
          (case cfg_rate_limit_store cfg of
             RLS_Redis host_url _ \<Rightarrow> new_redis_inner pool_ok (gl_limits g) host_url
           | RLS_InMemory \<Rightarrow> new_in_memory_inner (limiter_config (gl_limits g)))
      | None \<Rightarrow> IL_None)"

text \<open>\<open>Layer::per_router\<close>: the second part is the limiter that is registered in the application state.\<close>

definition rate_limit_layer_per_router ::
  "(string \<Rightarrow> bool) \<Rightarrow> 'w config \<Rightarrow> router_id \<Rightarrow> 'w router_config \<Rightarrow>
     (init_error, inner_layer \<times> (router_id \<times> governor_config) option) result" where
  "rate_limit_layer_per_router pool_ok cfg rid rc =
     (case rc_rate_limit rc of
        RRL_None \<Rightarrow> Inr (IL_None, None)
      | RRL_Custom store limits \<Rightarrow>
          let in_memory =
            (let g = lc_per_api_key limits in
             rbind (ok_or (InvalidRateLimitConfig ''Invalid rate limit config'')
                      (governor_finish (per_cell_duration g) (gc_capacity g))) (\<lambda>rl.
               Inr (IL_InMemory rl, Some (rid, rl))))
          in case (case store of Some s \<Rightarrow> s | None \<Rightarrow> cfg_rate_limit_store cfg) of
               RLS_Redis host_url _ \<Rightarrow>
                 if pool_ok host_url then Inr (IL_Redis limits host_url (Some rid), None) else in_memory
             | RLS_InMemory \<Rightarrow> in_memory)"

text \<open>\<open>increment_retry_after_header\<close>, on the answers of the in-memory limiter.\<close>

definition increment_retry_after_header :: "response \<Rightarrow> response" where
  "increment_retry_after_header res =
     (case Option.bind (header_str ''retry-after'' (rp_headers res)) (parse_unsigned 64) of
        Some n \<Rightarrow>
          let v = show_nat ((n + 1) mod 2 ^ 64)
          in res\<lparr>rp_headers := header_insert ''x-ratelimit-after'' v (header_insert ''retry-after'' v (rp_headers res))\<rparr>
      | None \<Rightarrow> res)"

section \<open>Keys\<close>

text \<open>A request with the user of its \<open>AuthContext\<close> (the text of a UUID) and its start time in
  milliseconds.\<close>

record rl_request =
  lq_user :: "string option"
  lq_start_ms :: "int option"

definition get_user_id :: "rl_request \<Rightarrow> (internal_error, string) result" where
  "get_user_id req = ok_or (ExtensionNotFound ''AuthContext'') (lq_user req)"

definition get_redis_rl_key :: "rl_request \<Rightarrow> router_id option \<Rightarrow> (internal_error, string) result" where
  "get_redis_rl_key req rid =
     rbind (get_user_id req) (\<lambda>user_id.
       case rid of
         Some r \<Rightarrow> Inr (''rl:per-api-key:'' @ router_id_display r @ '':'' @ user_id)
       | None \<Rightarrow> Inr (''rl:per-api-key:GLOBAL:'' @ user_id))"

section \<open>The limiter over Redis\<close>

record 'c rl_redis =
  rr_pool :: "(string, unit) result"
  rr_get :: "'c \<Rightarrow> string \<Rightarrow> (string, int option) result"
  rr_set_ex :: "'c \<Rightarrow> string \<Rightarrow> int \<Rightarrow> nat \<Rightarrow> (string, unit) result \<times> 'c"

text \<open>\<open>as_millis().try_into().expect(..)\<close> of the duration of a cell.\<close>

definition interval_per_token_ms :: "gcra_config \<Rightarrow> int option" where
  "interval_per_token_ms g =
     (let ms = int (per_cell_duration g div 1000000) in if ms < 2 ^ 63 then Some ms else None)"

definition ttl_seconds :: "gcra_config \<Rightarrow> nat" where
  "ttl_seconds g = gc_refill_frequency g div 1000000000 + 1"

text \<open>The decision: the new arrival time of an admitted request, or the earliest time of a refused one.\<close>

definition gcra_check :: "gcra_config \<Rightarrow> int \<Rightarrow> int \<Rightarrow> int option \<Rightarrow> (int, int) result" where
  "gcra_check g interval now_ms existing_tat =
     (let tat = (case existing_tat of Some t \<Rightarrow> t | None \<Rightarrow> now_ms);
          new_tat = (if tat < now_ms then i64 (now_ms + interval) else i64 (tat + interval));
          earliest_allowed_time = i64 (new_tat - i64 (interval * int (gc_capacity g)))
      in if earliest_allowed_time \<le> now_ms then Inr new_tat else Inl earliest_allowed_time)"

text \<open>The tokens in use, before their conversion to \<open>u32\<close>; dividing by a zero interval panics.\<close>

definition tokens_used :: "int \<Rightarrow> int \<Rightarrow> int option \<Rightarrow> int option" where
  "tokens_used interval now_ms existing_tat =
     (let tat = (case existing_tat of Some t \<Rightarrow> t | None \<Rightarrow> now_ms);
          time_until_tat = sat_i64 (tat - now_ms)
      in if interval = 0 then None
         else Some (sat_i64 (sat_i64 (trunc_div (sat_i64 (time_until_tat + i64 (interval - 1))) interval) + 1)))"

definition remaining_tokens :: "gcra_config \<Rightarrow> int \<Rightarrow> int \<Rightarrow> int option \<Rightarrow> nat option" where
  "remaining_tokens g interval now_ms existing_tat =
     Option.bind (tokens_used interval now_ms existing_tat) (\<lambda>n.
       if 0 \<le> n \<and> n < 2 ^ 32 then Some (gc_capacity g - nat n) else None)"

definition rate_limit_headers :: "gcra_config \<Rightarrow> nat \<Rightarrow> response \<Rightarrow> response" where
  "rate_limit_headers g remaining res =
     res\<lparr>rp_headers := header_insert ''x-ratelimit-remaining'' (show_nat remaining)
           (header_insert ''x-ratelimit-limit'' (show_nat (gc_capacity g)) (rp_headers res))\<rparr>"

text \<open>\<open>make_request\<close>: the answer, the store afterwards, and whether the inner service was called.\<close>

definition rl_make_request ::
  "'c rl_redis \<Rightarrow> (api_error, response) result \<Rightarrow> gcra_config \<Rightarrow> int \<Rightarrow> rl_request \<Rightarrow> router_id option \<Rightarrow> 'c \<Rightarrow>
     (api_error abort, response) result \<times> 'c \<times> bool" where
  "rl_make_request R inner g utc_now req rid c =
     (case rr_pool R of
        Inl e \<Rightarrow> (Inl (Failed (AE_Internal (PoolError e))), c, False)
      | Inr _ \<Rightarrow>
     (case get_redis_rl_key req rid of
        Inl e \<Rightarrow> (Inl (Failed (AE_Internal e)), c, False)
      | Inr key \<Rightarrow>
     (let now_ms = (case lq_start_ms req of Some t \<Rightarrow> t | None \<Rightarrow> utc_now) in
      case interval_per_token_ms g of
        None \<Rightarrow> (Inl Panicked, c, False)
      | Some interval \<Rightarrow>
     (case rr_get R c key of
        Inl e \<Rightarrow> (Inl (Failed (AE_Internal (RedisError e))), c, False)
      | Inr existing_tat \<Rightarrow>
     (case gcra_check g interval now_ms existing_tat of
        Inl earliest \<Rightarrow>
          (if i64 (earliest - now_ms) < 0 then (Inl Panicked, c, False)
           else (Inl (Failed (AE_InvalidRequest (TooManyRequests
                   \<lparr>ratelimit_limit = gc_capacity g, ratelimit_remaining = 0,
                    retry_after = nat (i64 (earliest - now_ms)) div 1000 + 1\<rparr>))), c, False))
      | Inr new_tat \<Rightarrow>
     (case rr_set_ex R c key new_tat (ttl_seconds g) of
        (Inl e, c') \<Rightarrow> (Inl (Failed (AE_Internal (RedisError e))), c', False)
      | (Inr _, c') \<Rightarrow>
     (case remaining_tokens g interval now_ms existing_tat of
        None \<Rightarrow> (Inl Panicked, c', False)
      | Some remaining \<Rightarrow>
     (case inner of
        Inr res \<Rightarrow> (Inr (rate_limit_headers g remaining res), c', True)
      | Inl _ \<Rightarrow> (Inl (Failed (AE_Internal Internal)), c', True)))))))))"

section \<open>The store\<close>

text \<open>
  Redis as documented: a clock in milliseconds and entries with the time at which they expire; one
  command at a time, and no failures.
\<close>

type_synonym redis_store = "int \<times> (string \<rightharpoonup> int \<times> int)"

definition redis_live :: "redis_store \<Rightarrow> string \<Rightarrow> int option" where
  "redis_live c k = (case snd c k of Some (v, e) \<Rightarrow> if fst c < e then Some v else None | None \<Rightarrow> None)"

definition redis_model :: "redis_store rl_redis" where
  "redis_model =
     \<lparr>rr_pool = Inr (), rr_get = (\<lambda>c k. Inr (redis_live c k)),
      rr_set_ex = (\<lambda>c k v ttl. (Inr (), (fst c, (snd c)(k \<mapsto> (v, fst c + 1000 * int ttl)))))\<rparr>"

text \<open>The requests of one key, served in turn at their start times; the number that reach the inner
  service.\<close>

fun rl_serve ::
  "(api_error, response) result \<Rightarrow> gcra_config \<Rightarrow> string \<Rightarrow> router_id option \<Rightarrow> (string \<rightharpoonup> int \<times> int) \<Rightarrow>
     int list \<Rightarrow> nat" where
  "rl_serve inner g u rid m [] = 0"
| "rl_serve inner g u rid m (t # ts) =
     (case rl_make_request redis_model inner g t \<lparr>lq_user = Some u, lq_start_ms = Some t\<rparr> rid (t, m) of
        (_, c, called) \<Rightarrow> (if called then 1 else 0) + rl_serve inner g u rid (snd c) ts)"

section \<open>Lemmas\<close>

lemma i64_id [simp]: "- (2 ^ 63) \<le> x \<Longrightarrow> x < 2 ^ 63 \<Longrightarrow> i64 x = x"
  by (simp add: i64_def)

lemma sat_i64_id [simp]: "- (2 ^ 63) \<le> x \<Longrightarrow> x < 2 ^ 63 \<Longrightarrow> sat_i64 x = x"
  by (simp add: sat_i64_def)

text \<open>The values at which no operation leaves \<open>i64\<close>.\<close>

definition gcra_range :: "gcra_config \<Rightarrow> int \<Rightarrow> int \<Rightarrow> bool" where
  "gcra_range g interval b \<longleftrightarrow> 0 \<le> interval \<and> 0 < gc_capacity g \<and> interval * int (gc_capacity g) < 2 ^ 61 \<and> b < 2 ^ 61"

lemma gcra_check_ref:
  assumes "gcra_range g i b" "0 \<le> t" "t \<le> b" "\<And>v. x = Some v \<Longrightarrow> 0 \<le> v \<and> v < 2 ^ 62"
  shows "gcra_check g i t x =
    (let new = max t (case x of Some v \<Rightarrow> v | None \<Rightarrow> t) + i
     in if new \<le> t + i * int (gc_capacity g) then Inr new else Inl (new - i * int (gc_capacity g)))"
proof -
  define ic where "ic = i * int (gc_capacity g)"
  have i: "0 \<le> i" "i \<le> ic" "ic < 2 ^ 61"
    using assms(1) by (auto simp: gcra_range_def ic_def mult_le_cancel_left1)
  have cap: "i64 ic = ic" using i by simp
  have t: "0 \<le> t" "t < 2 ^ 61" using assms(1-3) by (auto simp: gcra_range_def)
  show ?thesis unfolding gcra_check_def ic_def[symmetric] cap
  proof (cases x)
    case None
    have "i64 (t + i) = t + i" "i64 (t + i - ic) = t + i - ic" using i t by simp_all
    then show "(let tat = case x of None \<Rightarrow> t | Some v \<Rightarrow> v; new_tat = if tat < t then i64 (t + i) else i64 (tat + i);
          earliest_allowed_time = i64 (new_tat - ic)
      in if earliest_allowed_time \<le> t then Inr new_tat else Inl earliest_allowed_time) =
      (let new = max t (case x of None \<Rightarrow> t | Some v \<Rightarrow> v) + i in if new \<le> t + ic then Inr new else Inl (new - ic))"
      using None by (simp add: Let_def)
  next
    case (Some v)
    have v: "0 \<le> v" "v < 2 ^ 62" using assms(4) Some by auto
    have "i64 (t + i) = t + i" "i64 (v + i) = v + i" "i64 (t + i - ic) = t + i - ic" "i64 (v + i - ic) = v + i - ic"
      using i v t by simp_all
    then show "(let tat = case x of None \<Rightarrow> t | Some v \<Rightarrow> v; new_tat = if tat < t then i64 (t + i) else i64 (tat + i);
          earliest_allowed_time = i64 (new_tat - ic)
      in if earliest_allowed_time \<le> t then Inr new_tat else Inl earliest_allowed_time) =
      (let new = max t (case x of None \<Rightarrow> t | Some v \<Rightarrow> v) + i in if new \<le> t + ic then Inr new else Inl (new - ic))"
      using Some by (auto simp: Let_def max_def)
  qed
qed

lemma interval_capacity_ttl:
  assumes "interval_per_token_ms g = Some i"
  shows "0 \<le> i" "i * int (gc_capacity g) < 1000 * int (ttl_seconds g)"
proof -
  let ?p = "per_cell_duration g"
  have i: "i = int (?p div 1000000)" using assms by (auto simp: interval_per_token_ms_def Let_def split: if_splits)
  then show "0 \<le> i" by simp
  show "i * int (gc_capacity g) < 1000 * int (ttl_seconds g)"
  proof (cases "gc_capacity g = 0")
    case True
    then show ?thesis by (simp add: ttl_seconds_def)
  next
    case False
    have "?p div 1000000 * gc_capacity g * 1000000 \<le> ?p * gc_capacity g"
      by (metis div_times_less_eq_dividend mult.commute mult.left_commute mult_le_mono1)
    also have "\<dots> \<le> gc_refill_frequency g" using False by (simp add: per_cell_duration_def)
    finally have "?p div 1000000 * gc_capacity g * 1000000 < 1000 * (gc_refill_frequency g div 1000000000 + 1) * 1000000"
      using dividend_less_div_times[of 1000000000 "gc_refill_frequency g"] by simp
    then have "?p div 1000000 * gc_capacity g < 1000 * ttl_seconds g" by (simp add: ttl_seconds_def)
    then show ?thesis unfolding i by (metis of_nat_less_iff of_nat_mult of_nat_numeral)
  qed
qed

text \<open>Stored arrival times are in the past once their entry has expired.\<close>

definition store_inv :: "int \<Rightarrow> gcra_config \<Rightarrow> int \<Rightarrow> (int \<times> int) option \<Rightarrow> bool" where
  "store_inv i g t entry \<longleftrightarrow> (\<forall>v e. entry = Some (v, e) \<longrightarrow> 0 \<le> v \<and> v < e \<and> v \<le> t + i * int (gc_capacity g))"

definition raw_tat :: "int \<Rightarrow> (int \<times> int) option \<Rightarrow> int" where
  "raw_tat t entry = max t (case entry of Some (v, e) \<Rightarrow> v | None \<Rightarrow> t)"

lemma raw_tat_live:
  "store_inv i g t' (m k) \<Longrightarrow> max t (case redis_live (t, m) k of Some v \<Rightarrow> v | None \<Rightarrow> t) = raw_tat t (m k)"
  by (auto simp: redis_live_def raw_tat_def store_inv_def split: option.splits)

lemma store_inv_later: "store_inv i g t entry \<Longrightarrow> 0 \<le> i \<Longrightarrow> t \<le> t' \<Longrightarrow> store_inv i g t' entry"
  by (fastforce simp: store_inv_def)

definition rl_key :: "string \<Rightarrow> router_id option \<Rightarrow> string" where
  "rl_key u rid = ''rl:per-api-key:'' @ (case rid of Some r \<Rightarrow> router_id_display r | None \<Rightarrow> ''GLOBAL'') @ '':'' @ u"

lemma get_key: "get_redis_rl_key \<lparr>lq_user = Some u, lq_start_ms = ms\<rparr> rid = Inr (rl_key u rid)"
  by (cases rid) (simp_all add: get_redis_rl_key_def get_user_id_def rl_key_def)

abbreviation start_request :: "string \<Rightarrow> int \<Rightarrow> rl_request" where
  "start_request u t \<equiv> \<lparr>lq_user = Some u, lq_start_ms = Some t\<rparr>"

lemma live_range:
  assumes "store_inv i g t (m k)" "gcra_range g i b" "0 \<le> t" "t \<le> b" "redis_live (t, m) k = Some v"
  shows "0 \<le> v \<and> v < 2 ^ 62"
proof -
  have "0 \<le> v" "v \<le> t + i * int (gc_capacity g)"
    using assms(1,5) by (auto simp: store_inv_def redis_live_def split: option.splits if_splits)
  then show ?thesis using assms(2,4) by (auto simp: gcra_range_def)
qed

lemma store_check:
  assumes "gcra_range g i b" "0 \<le> t" "t \<le> b" "store_inv i g t (m k)"
  shows "gcra_check g i t (redis_live (t, m) k) =
    (let new = raw_tat t (m k) + i
     in if new \<le> t + i * int (gc_capacity g) then Inr new else Inl (new - i * int (gc_capacity g)))"
  using gcra_check_ref[OF assms(1-3), of "redis_live (t, m) k"] live_range[where m = m and k = k, OF assms(4,1-3)]
    raw_tat_live[of i g t m k t, OF assms(4)] by simp

lemma raw_tat_bound: "store_inv i g t entry \<Longrightarrow> 0 \<le> i * int (gc_capacity g) \<Longrightarrow> raw_tat t entry \<le> t + i * int (gc_capacity g)"
  by (auto simp: store_inv_def raw_tat_def split: option.splits)

lemma serve_cases:
  assumes "interval_per_token_ms g = Some i" "gcra_range g i b" "0 \<le> t" "t \<le> b" "store_inv i g t (m (rl_key u rid))"
  defines "new \<equiv> raw_tat t (m (rl_key u rid)) + i"
  obtains (admitted) r called where "new \<le> t + i * int (gc_capacity g)"
      "rl_make_request redis_model inner g t0 (start_request u t) rid (t, m) =
         (r, (t, m(rl_key u rid \<mapsto> (new, t + 1000 * int (ttl_seconds g)))), called)"
  | (refused) "t + i * int (gc_capacity g) < new"
      "rl_make_request redis_model inner g t0 (start_request u t) rid (t, m) =
         (Inl (Failed (AE_InvalidRequest (TooManyRequests
            \<lparr>ratelimit_limit = gc_capacity g, ratelimit_remaining = 0,
             retry_after = nat (new - i * int (gc_capacity g) - t) div 1000 + 1\<rparr>))), (t, m), False)"
proof (cases "new \<le> t + i * int (gc_capacity g)")
  case True
  have c: "gcra_check g i t (redis_live (t, m) (rl_key u rid)) = Inr new"
    using store_check[where m = m and k = "rl_key u rid", OF assms(2-5)] True by (simp add: new_def)
  have "\<exists>r called. rl_make_request redis_model inner g t0 (start_request u t) rid (t, m) =
      (r, (t, m(rl_key u rid \<mapsto> (new, t + 1000 * int (ttl_seconds g)))), called)"
    by (simp add: rl_make_request_def redis_model_def get_key assms(1) c ex_bool_eq split: option.split sum.split)
  then show ?thesis using admitted[OF True] by blast
next
  case False
  let ?e = "new - i * int (gc_capacity g)"
  have c: "gcra_check g i t (redis_live (t, m) (rl_key u rid)) = Inl ?e"
    using store_check[where m = m and k = "rl_key u rid", OF assms(2-5)] False by (simp add: new_def Let_def)
  have ic: "0 \<le> i * int (gc_capacity g)" "i * int (gc_capacity g) < 2 ^ 61" "0 \<le> i" "i \<le> i * int (gc_capacity g)"
    using assms(2) by (auto simp: gcra_range_def mult_le_cancel_left1)
  have "new \<le> t + i * int (gc_capacity g) + i" using raw_tat_bound[OF assms(5) ic(1)] by (simp add: new_def)
  moreover have "i < 2 ^ 61" using ic(4,2) by (rule order.strict_trans1)
  ultimately have "0 < ?e - t" "?e - t < 2 ^ 62" using False by auto
  then have d: "i64 (?e - t) = ?e - t" "0 < ?e - t" by simp_all
  show ?thesis
    by (rule refused) (use False in simp, simp add: rl_make_request_def redis_model_def get_key assms(1) c d(1), use d(2) in simp)
qed

lemma store_inv_admitted:
  assumes "interval_per_token_ms g = Some i" "0 \<le> t" "store_inv i g t (m k)"
    and "raw_tat t (m k) + i \<le> t + i * int (gc_capacity g)"
  shows "store_inv i g t ((m(k \<mapsto> (raw_tat t (m k) + i, t + 1000 * int (ttl_seconds g)))) k)"
  using interval_capacity_ttl[OF assms(1)] assms(2,4) by (auto simp: store_inv_def raw_tat_def)

text \<open>The count of the requests that are served, by the advance of the arrival time.\<close>

lemma serve_count:
  assumes "interval_per_token_ms g = Some i" "gcra_range g i b" "sorted ts" "\<And>t. t \<in> set ts \<Longrightarrow> a \<le> t \<and> t \<le> b"
    and "0 \<le> a" "store_inv i g a (m (rl_key u rid))"
  shows "rl_serve inner g u rid m ts = 0 \<or>
    raw_tat a (m (rl_key u rid)) + int (rl_serve inner g u rid m ts) * i \<le> b + i * int (gc_capacity g)"
  using assms(3-6)
proof (induction ts arbitrary: m a)
  case (Cons t ts)
  let ?k = "rl_key u rid"
  have i0: "0 \<le> i" using interval_capacity_ttl(1)[OF assms(1)] .
  have t: "a \<le> t" "t \<le> b" "0 \<le> t" using Cons.prems(2)[of t] Cons.prems(3) by auto
  have inv: "store_inv i g t (m ?k)" using store_inv_later[OF Cons.prems(4) i0 t(1)] .
  have mono: "raw_tat a (m ?k) \<le> raw_tat t (m ?k)" using t(1) by (auto simp: raw_tat_def split: option.splits)
  have rest: "sorted ts" "\<And>t'. t' \<in> set ts \<Longrightarrow> t \<le> t' \<and> t' \<le> b" using Cons.prems(1,2) by auto
  from assms(1,2) t(3,2) inv show ?case
  proof (cases rule: serve_cases[where ?t0.0 = t and inner = inner])
    case (admitted r called)
    let ?new = "raw_tat t (m ?k) + i"
    define m' where "m' = m(?k \<mapsto> (?new, t + 1000 * int (ttl_seconds g)))"
    have inv': "store_inv i g t (m' ?k)" unfolding m'_def
      using store_inv_admitted[where m = m and k = "?k", OF assms(1) t(3) inv] admitted(1) by simp
    have raw': "raw_tat t (m' ?k) = ?new" using i0 by (auto simp: raw_tat_def m'_def)
    define n where "n = rl_serve inner g u rid m' ts"
    have n: "rl_serve inner g u rid m (t # ts) = (if called then 1 else 0) + n"
      using admitted(2) by (simp add: n_def m'_def)
    have "n = 0 \<or> ?new + int n * i \<le> b + i * int (gc_capacity g)"
      using Cons.IH[where m = m', OF rest t(3) inv'] unfolding raw' n_def .
    moreover have "?new \<le> b + i * int (gc_capacity g)" using admitted(1) t(2) by simp
    ultimately have "?new + int n * i \<le> b + i * int (gc_capacity g)" by auto
    then show ?thesis using mono i0 unfolding n by (auto simp: algebra_simps)
  next
    case refused
    then have "rl_serve inner g u rid m (t # ts) = rl_serve inner g u rid m ts" by simp
    then show ?thesis using Cons.IH[where m = m, OF rest t(3) inv] mono by auto
  qed
qed simp

subsection \<open>The remaining tokens\<close>

lemma int_div_less_iff:
  fixes m n i :: int
  assumes "0 < i"
  shows "m div i < n \<longleftrightarrow> m < n * i"
proof -
  have "(m + (- n) * i) div i = - n + m div i" using assms by (intro div_mult_self1) simp
  then have "m div i < n \<longleftrightarrow> (m + (- n) * i) div i < 0" by auto
  also have "\<dots> \<longleftrightarrow> m < n * i" using assms by (simp add: pos_imp_zdiv_neg_iff)
  finally show ?thesis .
qed

lemma trunc_div_bounds:
  assumes "0 < i"
  shows "trunc_div x i < -1 \<longleftrightarrow> x \<le> - (2 * i)" "x \<le> y * i + (i - 1) \<Longrightarrow> 0 \<le> y \<Longrightarrow> trunc_div x i \<le> y"
proof -
  show "trunc_div x i < -1 \<longleftrightarrow> x \<le> - (2 * i)"
  proof (cases "x < 0")
    case True
    have "(- x) div i < 2 \<longleftrightarrow> - x < 2 * i" using int_div_less_iff[OF assms] .
    then show ?thesis using True assms by (auto simp: trunc_div_def)
  next
    case False
    then have "0 \<le> trunc_div x i" using assms by (simp add: trunc_div_def pos_imp_zdiv_nonneg_iff)
    then show ?thesis using False assms by simp
  qed
  assume xy: "x \<le> y * i + (i - 1)" and y: "0 \<le> y"
  show "trunc_div x i \<le> y"
  proof (cases "x < 0")
    case True
    then have "0 \<le> (- x) div i" using assms by (simp add: pos_imp_zdiv_nonneg_iff)
    then show ?thesis using True assms y by (simp add: trunc_div_def)
  next
    case False
    have "x < (y + 1) * i" using xy by (simp add: algebra_simps)
    then have "x div i < y + 1" unfolding int_div_less_iff[OF assms] .
    then show ?thesis using False assms by (simp add: trunc_div_def)
  qed
qed

lemma remaining_tokens_None:
  assumes "gcra_range g i b" "0 < i" "0 \<le> t" "t \<le> b" "gc_capacity g < 2 ^ 32"
    and "\<And>v. x = Some v \<Longrightarrow> 0 \<le> v \<and> v < 2 ^ 62 \<and> v + i \<le> t + i * int (gc_capacity g)"
  shows "remaining_tokens g i t x = None \<longleftrightarrow> (\<exists>v. x = Some v \<and> 3 * i - 1 \<le> t - v)"
proof -
  define v where "v = (case x of Some v \<Rightarrow> v | None \<Rightarrow> t)"
  define ic where "ic = i * int (gc_capacity g)"
  have i: "i \<le> ic" "ic < 2 ^ 61" "t < 2 ^ 61"
    using assms(1,2,4) by (auto simp: gcra_range_def ic_def mult_le_cancel_left1)
  have "i < 2 ^ 61" using i(1,2) by (rule order.strict_trans1)
  have v: "0 \<le> v" "v < 2 ^ 62" "v + i \<le> t + ic"
    using assms(3,6) i by (auto simp: v_def ic_def split: option.splits)
  let ?x = "v - t + (i - 1)"
  have s: "sat_i64 (sat_i64 (v - t) + i64 (i - 1)) = ?x" using v i \<open>i < 2 ^ 61\<close> assms(2,3) by simp
  have "?x \<le> (int (gc_capacity g) - 1) * i + (i - 1)" using v(3) by (simp add: ic_def algebra_simps)
  moreover have "1 \<le> int (gc_capacity g)" using assms(1) by (simp add: gcra_range_def)
  ultimately have up: "trunc_div ?x i \<le> int (gc_capacity g) - 1" by (intro trunc_div_bounds(2)[OF assms(2)]) simp_all
  have "\<bar>trunc_div ?x i\<bar> \<le> \<bar>?x\<bar>"
  proof -
    have "\<bar>trunc_div ?x i\<bar> = \<bar>?x\<bar> div i"
      using assms(2) by (simp add: trunc_div_def abs_minus_commute pos_imp_zdiv_nonneg_iff)
    also have "\<dots> \<le> \<bar>?x\<bar>" using assms(2) by (smt (verit) div_by_1 zdiv_mono2)
    finally show ?thesis .
  qed
  moreover have "\<bar>?x\<bar> < 2 ^ 62" using v i \<open>i < 2 ^ 61\<close> assms(2,3) by auto
  ultimately have lo: "- (2 ^ 62) < trunc_div ?x i" by linarith
  have sat: "sat_i64 (sat_i64 (trunc_div ?x i) + 1) = trunc_div ?x i + 1"
    using up lo assms(5) by simp
  have "tokens_used i t x = Some (trunc_div ?x i + 1)"
    using assms(2) s sat by (simp add: tokens_used_def v_def Let_def)
  then have "remaining_tokens g i t x = None \<longleftrightarrow> trunc_div ?x i < -1"
    using up assms(5) by (auto simp: remaining_tokens_def)
  also have "\<dots> \<longleftrightarrow> 3 * i - 1 \<le> t - v" using trunc_div_bounds(1)[OF assms(2)] by auto
  also have "\<dots> \<longleftrightarrow> (\<exists>v. x = Some v \<and> 3 * i - 1 \<le> t - v)"
    using assms(2) by (auto simp: v_def split: option.splits)
  finally show ?thesis .
qed

lemma matches_no_colon: "router_id_matches s \<Longrightarrow> CHR '':'' \<notin> set s"
  by (auto simp: router_id_matches_def router_id_char_def list_all_iff)

section \<open>Properties\<close>

text \<open>C3. The limiter over Redis keeps its rate: of the requests of one key in a time window, no more
  reach the inner service than the capacity and one for each interval of the window, also when
  entries expire in between.\<close>

theorem redis_limit_bound:
  assumes "interval_per_token_ms g = Some i" "0 < i" "gcra_range g i b" "sorted ts"
    and "\<And>t. t \<in> set ts \<Longrightarrow> a \<le> t \<and> t \<le> b" "0 \<le> a"
  shows "int (rl_serve inner g u rid Map.empty ts) \<le> int (gc_capacity g) + max 0 ((b - a) div i)"
proof -
  let ?n = "int (rl_serve inner g u rid Map.empty ts)"
  have "rl_serve inner g u rid Map.empty ts = 0 \<or> a + ?n * i \<le> b + i * int (gc_capacity g)"
    using serve_count[where m = Map.empty, OF assms(1,3-6)] by (simp add: store_inv_def raw_tat_def)
  moreover have "?n \<le> int (gc_capacity g) + (b - a) div i" if "a + ?n * i \<le> b + i * int (gc_capacity g)"
  proof -
    have "?n = (?n * i) div i" using assms(2) by simp
    also have "\<dots> \<le> ((b - a) + int (gc_capacity g) * i) div i"
      using that assms(2) by (intro zdiv_mono1) (simp_all add: algebra_simps)
    also have "\<dots> = int (gc_capacity g) + (b - a) div i" using assms(2) by simp
    finally show ?thesis .
  qed
  ultimately show ?thesis by auto
qed

definition ten_per_second :: gcra_config where
  "ten_per_second = \<lparr>gc_refill_frequency = secs 1, gc_capacity = 10\<rparr>"

lemma ten_per_second_interval: "interval_per_token_ms ten_per_second = Some 100"
  by (simp add: interval_per_token_ms_def ten_per_second_def per_cell_duration_def)

theorem redis_limit_bound_witness:
  "int (rl_serve (Inl (AE_Internal Internal)) ten_per_second ''u'' None Map.empty (replicate 13 0)) \<le> 10"
proof -
  have "gcra_range ten_per_second 100 0" by (simp add: gcra_range_def ten_per_second_def)
  from redis_limit_bound[OF ten_per_second_interval _ this, of "replicate 13 0" 0 "Inl (AE_Internal Internal)" "''u''" None]
  have "int (rl_serve (Inl (AE_Internal Internal)) ten_per_second ''u'' None Map.empty (replicate 13 0)) \<le>
      int (gc_capacity ten_per_second) + max 0 ((0 - 0) div 100)"
    by (simp only: sorted_replicate set_replicate_conv_if) auto
  then show ?thesis by (simp add: ten_per_second_def)
qed

text \<open>The time in a refusal is enough: a request that comes after it, with no other in between, is not
  refused.\<close>

theorem redis_retry_after_enough:
  assumes "interval_per_token_ms g = Some i" "gcra_range g i b" "0 \<le> t" "t \<le> t'" "t' \<le> b"
    and "store_inv i g t (m (rl_key u rid))"
    and "rl_make_request redis_model inner g now0 (start_request u t) rid (t, m) =
      (Inl (Failed (AE_InvalidRequest (TooManyRequests r))), c, called)"
    and "t + 1000 * int (retry_after r) \<le> t'"
  shows "fst (rl_make_request redis_model inner' g now1 (start_request u t') rid (t', snd c)) \<noteq>
    Inl (Failed (AE_InvalidRequest (TooManyRequests r')))"
proof -
  let ?ic = "i * int (gc_capacity g)" and ?k = "rl_key u rid"
  have ic: "0 \<le> i" "i \<le> ?ic" using assms(2) by (auto simp: gcra_range_def mult_le_cancel_left1)
  have tb: "t \<le> b" "0 \<le> t'" using assms(3-5) by auto
  have never: "fst (rl_make_request redis_model i2 g n2 (start_request u s) rid (s, m2)) \<noteq>
      Inl (Failed (AE_InvalidRequest (TooManyRequests r2)))"
    if "gcra_check g i s (redis_live (s, m2) ?k) = Inr new" for i2 n2 s m2 r2 new
    using that by (simp add: rl_make_request_def redis_model_def get_key assms(1) split: option.split sum.split)
  from assms(1,2,3) tb(1) assms(6) have ref:
    "t + ?ic < raw_tat t (m ?k) + i \<and> c = (t, m) \<and> retry_after r = nat (raw_tat t (m ?k) + i - ?ic - t) div 1000 + 1"
  proof (cases rule: serve_cases[where ?t0.0 = now0 and inner = inner])
    case (admitted r1 called1)
    have "gcra_check g i t (redis_live (t, m) ?k) = Inr (raw_tat t (m ?k) + i)"
      using store_check[where m = m and k = ?k, OF assms(2,3) tb(1) assms(6)] admitted(1) by simp
    from never[OF this, of inner now0 r] show ?thesis using assms(7) by simp
  next
    case refused
    then show ?thesis using assms(7) by auto
  qed
  have "raw_tat t (m ?k) + i - ?ic - t < 1000 * int (retry_after r)"
    using ref dividend_less_div_times[of 1000 "nat (raw_tat t (m ?k) + i - ?ic - t)"] by linarith
  then have "raw_tat t (m ?k) + i \<le> t' + ?ic" using assms(8) by simp
  then have "raw_tat t' (m ?k) + i \<le> t' + ?ic"
    using ic by (auto simp: raw_tat_def max_def split: option.splits if_splits)
  then have "gcra_check g i t' (redis_live (t', m) ?k) = Inr (raw_tat t' (m ?k) + i)"
    using store_check[where m = m and k = ?k, OF assms(2) tb(2) assms(5) store_inv_later[OF assms(6) ic(1) assms(4)]]
    by simp
  from never[OF this] show ?thesis using ref by simp
qed

text \<open>The limiter over Redis panics exactly in two cases: the interval of a token is below a
  millisecond and the request would be admitted; or the stored arrival time lies three intervals, less
  one millisecond, or more in the past. The quota of the request has then been taken.\<close>

theorem redis_limiter_panics:
  assumes "interval_per_token_ms g = Some i" "gcra_range g i b" "0 \<le> t" "t \<le> b" "gc_capacity g < 2 ^ 32"
    and "store_inv i g t (m (rl_key u rid))"
  shows "fst (rl_make_request redis_model inner g now0 (start_request u t) rid (t, m)) = Inl Panicked \<longleftrightarrow>
    (if i = 0 then raw_tat t (m (rl_key u rid)) = t
     else \<exists>v. redis_live (t, m) (rl_key u rid) = Some v \<and> 3 * i - 1 \<le> t - v)"
proof -
  let ?k = "rl_key u rid" and ?ic = "i * int (gc_capacity g)"
  have ic: "0 \<le> i" "i \<le> ?ic" using assms(2) by (auto simp: gcra_range_def mult_le_cancel_left1)
  have check: "gcra_check g i t (redis_live (t, m) ?k) =
      (let new = raw_tat t (m ?k) + i in if new \<le> t + ?ic then Inr new else Inl (new - ?ic))"
    by (rule store_check[where m = m and k = ?k, OF assms(2-4,6)])
  have adm: "fst (rl_make_request redis_model inner g now0 (start_request u t) rid (t, m)) = Inl Panicked \<longleftrightarrow>
      raw_tat t (m ?k) + i \<le> t + ?ic \<and> remaining_tokens g i t (redis_live (t, m) ?k) = None"
  proof (cases "raw_tat t (m ?k) + i \<le> t + ?ic")
    case True
    then have "gcra_check g i t (redis_live (t, m) ?k) = Inr (raw_tat t (m ?k) + i)" using check by simp
    then show ?thesis using True
      by (auto simp: rl_make_request_def redis_model_def get_key assms(1) split: option.splits sum.splits)
  next
    case False
    from assms(1-4,6) show ?thesis
      by (cases rule: serve_cases[where ?t0.0 = now0 and inner = inner and u = u and rid = rid and m = m])
         (use False in auto)
  qed
  show ?thesis
  proof (cases "i = 0")
    case True
    then show ?thesis using adm by (auto simp: remaining_tokens_def tokens_used_def raw_tat_def)
  next
    case False
    have raw: "max t (case redis_live (t, m) ?k of Some v \<Rightarrow> v | None \<Rightarrow> t) = raw_tat t (m ?k)"
      by (rule raw_tat_live[where m = m and k = ?k, OF assms(6)])
    show ?thesis
    proof (cases "raw_tat t (m ?k) + i \<le> t + ?ic")
      case True
      have "remaining_tokens g i t (redis_live (t, m) ?k) = None \<longleftrightarrow>
          (\<exists>v. redis_live (t, m) ?k = Some v \<and> 3 * i - 1 \<le> t - v)"
      proof (rule remaining_tokens_None[OF assms(2) _ assms(3-5)])
        show "0 < i" using False ic by simp
        show "0 \<le> v \<and> v < 2 ^ 62 \<and> v + i \<le> t + ?ic" if "redis_live (t, m) ?k = Some v" for v
          using live_range[where m = m and k = ?k, OF assms(6,2-4) that] True raw that by auto
      qed
      then show ?thesis using adm True False by simp
    next
      case refuse: False
      then have "\<not> (\<exists>v. redis_live (t, m) ?k = Some v \<and> 3 * i - 1 \<le> t - v)"
        using raw ic False by auto
      then show ?thesis using adm refuse False by simp
    qed
  qed
qed

text \<open>With ten requests a second allowed: a first request at time zero, a second one 400 milliseconds
  later.\<close>

theorem redis_limiter_panics_witness:
  "fst (rl_make_request redis_model (Inl (AE_Internal Internal)) ten_per_second 0 (start_request ''u'' 400) None
     (400, [rl_key ''u'' None \<mapsto> (100, 2000)])) = Inl Panicked"
proof -
  have r: "gcra_range ten_per_second 100 400" "gc_capacity ten_per_second < 2 ^ 32"
    by (simp_all add: gcra_range_def ten_per_second_def)
  have "store_inv 100 ten_per_second 400 ([rl_key ''u'' None \<mapsto> (100, 2000)] (rl_key ''u'' None))"
    by (simp add: store_inv_def ten_per_second_def)
  from redis_limiter_panics[where m = "[rl_key ''u'' None \<mapsto> (100, 2000)]", OF ten_per_second_interval r(1) _ _ r(2) this]
  show ?thesis by (simp add: redis_live_def)
qed

theorem redis_retry_after_enough_witness:
  "fst (rl_make_request redis_model (Inl (AE_Internal Internal)) ten_per_second 0 (start_request ''u'' 1000) None
      (1000, [rl_key ''u'' None \<mapsto> (1000, 2000)])) \<noteq>
   Inl (Failed (AE_InvalidRequest (TooManyRequests \<lparr>ratelimit_limit = 10, ratelimit_remaining = 0, retry_after = 1\<rparr>)))"
proof -
  let ?m = "[rl_key ''u'' None \<mapsto> (1000 :: int, 2000 :: int)]"
  have r: "gcra_range ten_per_second 100 1000" by (simp add: gcra_range_def ten_per_second_def)
  have inv: "store_inv 100 ten_per_second 0 (?m (rl_key ''u'' None))"
    by (simp add: store_inv_def ten_per_second_def)
  have "gcra_check ten_per_second 100 0 (Some 1000) = Inl 100"
    by (simp add: gcra_check_def ten_per_second_def)
  then have "rl_make_request redis_model (Inl (AE_Internal Internal)) ten_per_second 0 (start_request ''u'' 0) None (0, ?m) =
      (Inl (Failed (AE_InvalidRequest (TooManyRequests \<lparr>ratelimit_limit = 10, ratelimit_remaining = 0, retry_after = 1\<rparr>))),
       (0, ?m), False)"
    by (simp add: rl_make_request_def redis_model_def get_key ten_per_second_interval redis_live_def)
       (simp add: ten_per_second_def)
  from redis_retry_after_enough[where m = ?m and t' = 1000, OF ten_per_second_interval r _ _ _ inv this]
  show ?thesis by simp
qed

text \<open>Two limiters share a key exactly if user and scope agree, where the scope of the global limiter is
  \<open>GLOBAL\<close>: quotas of valid routers and users are separate, but a router of that name shares its
  quota with the global limiter.\<close>

theorem redis_keys_separate:
  assumes "\<And>r. rid1 = Some r \<or> rid2 = Some r \<Longrightarrow> router_id_matches (router_id_display r)"
  shows "rl_key u1 rid1 = rl_key u2 rid2 \<longleftrightarrow>
    u1 = u2 \<and> (case rid1 of Some r \<Rightarrow> router_id_display r | None \<Rightarrow> ''GLOBAL'') =
      (case rid2 of Some r \<Rightarrow> router_id_display r | None \<Rightarrow> ''GLOBAL'')"
proof -
  let ?s = "\<lambda>rid. case rid of Some r \<Rightarrow> router_id_display r | None \<Rightarrow> ''GLOBAL''"
  have no: "CHR '':'' \<notin> set (?s rid1)" "CHR '':'' \<notin> set (?s rid2)"
    using assms by (auto dest: matches_no_colon split: option.splits)
  have "u1 = u2 \<and> ?s rid1 = ?s rid2" if "?s rid1 @ CHR '':'' # u1 = ?s rid2 @ CHR '':'' # u2"
  proof -
    have "(?s rid1, Some u1) = splitn2 (CHR '':'') (?s rid1 @ CHR '':'' # u1)" by (rule splitn2_append[OF no(1), symmetric])
    also have "\<dots> = (?s rid2, Some u2)" unfolding that by (rule splitn2_append[OF no(2)])
    finally show ?thesis by blast
  qed
  then show ?thesis unfolding rl_key_def by auto
qed

theorem redis_keys_separate_witness:
  "rl_key ''u'' (Some (R_Named ''GLOBAL'')) = rl_key ''u'' None"
  using redis_keys_separate[of "Some (R_Named ''GLOBAL'')" None "''u''" "''u''"]
  by (simp add: router_id_matches_def router_id_char_def)

end
