(* ===== verification/Dispatcher.thy ===== *)
theory Dispatcher
  imports Rate_Limit_Monitor Http
begin

text \<open>
  The dispatcher (\<open>dispatcher/\<close>): the request that goes to a provider and the client's default headers,
  the event stream of a streaming answer (\<open>client.rs\<close>), and what an answer does to the metrics and to
  the rate-limit monitor (\<open>service.rs\<close>). Parameters: the network, URL joining, AWS signing, and the
  date parser of \<open>chrono\<close>. The logging tasks that a request spawns are in Exchange.thy.
\<close>

section \<open>Clients\<close>

datatype client_kind = CK_OpenAI | CK_Anthropic | CK_GoogleGemini | CK_Ollama | CK_Bedrock

text \<open>A client: its kind, the default headers of its \<open>reqwest\<close> client, and the keys for AWS.\<close>

record client =
  cl_kind :: client_kind
  cl_default_headers :: headers
  cl_access_key :: "string option"
  cl_secret_key :: "string option"

text \<open>\<open>insert\<close> of a value that is unwrapped: a secret that is no header value panics.\<close>

definition insert_value :: "string \<Rightarrow> string \<Rightarrow> headers \<Rightarrow> ('e abort, headers) result" where
  "insert_value n v hs =
     (case header_value_from_str v of Some w \<Rightarrow> Inr (header_insert n w hs) | None \<Rightarrow> Inl Panicked)"

definition provider_base_url :: "'w config \<Rightarrow> inference_provider \<Rightarrow> (init_error abort, global_provider_config) result" where
  "provider_base_url cfg p =
     ok_or (Failed (IE_ProviderError (PE_ProviderNotConfigured p))) (map_of (cfg_providers cfg) p)"

text \<open>\<open>host_header\<close>: the host of the base URL, or the empty value; \<open>host\<close> is \<open>Url::host\<close>.\<close>

definition host_headers :: "(string \<Rightarrow> string option) \<Rightarrow> string \<Rightarrow> headers \<Rightarrow> ('e abort, headers) result" where
  "host_headers host base_url hs =
     rbind (insert_value ''host'' (case host base_url of Some h \<Rightarrow> h | None \<Rightarrow> []) hs) (\<lambda>h1.
       insert_value ''content-type'' ''application/json'' h1)"

definition bearer_client ::
  "client_kind \<Rightarrow> inference_provider \<Rightarrow> (string \<Rightarrow> string option) \<Rightarrow> 'w config \<Rightarrow> provider_key option \<Rightarrow>
     (init_error abort, client) result" where
  "bearer_client kind p host cfg key =
     rbind (provider_base_url cfg p) (\<lambda>pc.
     rbind (case key of
              Some (Key_Secret k) \<Rightarrow> insert_value ''authorization'' (''Bearer '' @ k) []
            | _ \<Rightarrow> Inr []) (\<lambda>h0.
     rbind (host_headers host (gp_base_url pc) h0) (\<lambda>hs.
       Inr \<lparr>cl_kind = kind, cl_default_headers = hs, cl_access_key = None, cl_secret_key = None\<rparr>)))"

definition openai_client ::
  "(string \<Rightarrow> string option) \<Rightarrow> 'w config \<Rightarrow> provider_key option \<Rightarrow> (init_error abort, client) result" where
  "openai_client host cfg key = bearer_client CK_OpenAI P_OpenAI host cfg key"

definition google_gemini_client ::
  "(string \<Rightarrow> string option) \<Rightarrow> 'w config \<Rightarrow> provider_key option \<Rightarrow> (init_error abort, client) result" where
  "google_gemini_client host cfg key = bearer_client CK_GoogleGemini P_GoogleGemini host cfg key"

definition anthropic_client ::
  "(string \<Rightarrow> string option) \<Rightarrow> 'w config \<Rightarrow> provider_key option \<Rightarrow> (init_error abort, client) result" where
  "anthropic_client host cfg key =
     rbind (provider_base_url cfg P_Anthropic) (\<lambda>pc.
     rbind (case key of
              Some (Key_Secret k) \<Rightarrow> insert_value ''x-api-key'' k []
            | _ \<Rightarrow> Inr []) (\<lambda>h0.
     rbind (insert_value ''anthropic-version''
              (case gp_version pc of Some v \<Rightarrow> v | None \<Rightarrow> DEFAULT_ANTHROPIC_VERSION) h0) (\<lambda>h1.
     rbind (host_headers host (gp_base_url pc) h1) (\<lambda>hs.
       Inr \<lparr>cl_kind = CK_Anthropic, cl_default_headers = hs, cl_access_key = None, cl_secret_key = None\<rparr>))))"

definition ollama_client :: "(string \<Rightarrow> string option) \<Rightarrow> 'w config \<Rightarrow> (init_error abort, client) result" where
  "ollama_client host cfg =
     rbind (provider_base_url cfg P_Ollama) (\<lambda>pc.
     rbind (host_headers host (gp_base_url pc) []) (\<lambda>hs.
       Inr \<lparr>cl_kind = CK_Ollama, cl_default_headers = hs, cl_access_key = None, cl_secret_key = None\<rparr>))"

definition bedrock_client ::
  "(string \<Rightarrow> string option) \<Rightarrow> 'w config \<Rightarrow> provider_key option \<Rightarrow> (init_error abort, client) result" where
  "bedrock_client host cfg key =
     rbind (provider_base_url cfg P_Bedrock) (\<lambda>pc.
     let (access_key, secret_key) = (case key of Some k \<Rightarrow> as_aws_credentials k | None \<Rightarrow> (None, None))
     in rbind (host_headers host (gp_base_url pc) []) (\<lambda>hs.
       Inr \<lparr>cl_kind = CK_Bedrock, cl_default_headers = hs, cl_access_key = access_key, cl_secret_key = secret_key\<rparr>))"

definition client_new_inner ::
  "(string \<Rightarrow> string option) \<Rightarrow> 'w config \<Rightarrow> inference_provider \<Rightarrow> provider_key option \<Rightarrow>
     (init_error abort, client) result" where
  "client_new_inner host cfg p key =
     (case p of
        P_OpenAI \<Rightarrow> openai_client host cfg key
      | P_Anthropic \<Rightarrow> anthropic_client host cfg key
      | P_GoogleGemini \<Rightarrow> google_gemini_client host cfg key
      | P_Bedrock \<Rightarrow> bedrock_client host cfg key
      | P_Ollama \<Rightarrow> ollama_client host cfg
      | P_Named _ \<Rightarrow> Inl (Failed (IE_ProviderNotSupported p)))"

text \<open>The keys of the routers and of the direct proxies, as \<open>AppState\<close> has them.\<close>

definition client_for_router ::
  "(string \<Rightarrow> string option) \<Rightarrow> 'w config \<Rightarrow> (router_id \<rightharpoonup> inference_provider \<rightharpoonup> provider_key) \<Rightarrow>
     inference_provider \<Rightarrow> router_id \<Rightarrow> (init_error abort, client) result" where
  "client_for_router host cfg provider_keys p rid =
     (if p = P_Ollama then client_new_inner host cfg p None
      else rbind (ok_or (Failed (IE_ProviderError (PE_ProviderKeysNotFound rid))) (provider_keys rid)) (\<lambda>keys.
        client_new_inner host cfg p (keys p)))"

definition client_for_direct_proxy ::
  "(string \<Rightarrow> string option) \<Rightarrow> 'w config \<Rightarrow> (inference_provider \<rightharpoonup> provider_key) \<Rightarrow> inference_provider \<Rightarrow>
     (init_error abort, client) result" where
  "client_for_direct_proxy host cfg keys p =
     (if p = P_Ollama then client_new_inner host cfg p None else client_new_inner host cfg p (keys p))"

definition client_for_unified_api ::
  "(string \<Rightarrow> string option) \<Rightarrow> 'w config \<Rightarrow> (inference_provider \<rightharpoonup> provider_key) \<Rightarrow> inference_provider \<Rightarrow>
     (init_error abort, client) result" where
  "client_for_unified_api host cfg keys p =
     (if p = P_Ollama then client_new_inner host cfg p None else client_new_inner host cfg p (keys p))"

text \<open>What \<open>reqwest\<close> makes of the headers of a request and the default headers of its client is a parameter
  of the model. Its law: where the request has a header of that name, the default is not used.\<close>

definition defaults_law :: "(headers \<Rightarrow> headers \<Rightarrow> headers) \<Rightarrow> bool" where
  "defaults_law add \<longleftrightarrow> (\<forall>n ds hs. distinct (map fst ds) \<longrightarrow>
     header_values n (add ds hs) = (if header_values n hs = [] then header_values n ds else header_values n hs))"

text \<open>\<open>extract_and_sign_aws_headers\<close>: the region is the second label of the host. \<open>sign\<close> is the signer for
  the keys and the region; it gives the headers of the signed request, of which the missing ones are added.\<close>

type_synonym aws_signer = "string \<Rightarrow> string \<Rightarrow> string \<Rightarrow> string \<Rightarrow> headers \<Rightarrow> string \<Rightarrow> (api_error, headers) result"

definition host_region :: "string \<Rightarrow> (api_error, string) result" where
  "host_region h =
     (case split_on (CHR ''.'') h of
        _ # region # _ \<Rightarrow> Inr region
      | _ \<Rightarrow> Inl (AE_InvalidRequest (UnsupportedEndpoint ''host is required in request url'')))"

definition sign_headers ::
  "(string \<Rightarrow> string option) \<Rightarrow> aws_signer \<Rightarrow> client \<Rightarrow> string \<Rightarrow> headers \<Rightarrow> string \<Rightarrow> (api_error, headers) result" where
  "sign_headers host sign c url hs body =
     (case cl_kind c of
        CK_Bedrock \<Rightarrow>
          rbind (ok_or (AE_Authentication InvalidCredentials) (cl_access_key c)) (\<lambda>a.
          rbind (ok_or (AE_Authentication InvalidCredentials) (cl_secret_key c)) (\<lambda>s.
          rbind (ok_or (AE_InvalidRequest (UnsupportedEndpoint ''host is required in request url'')) (host url)) (\<lambda>h.
          rbind (host_region h) (\<lambda>region.
          rbind (sign a s region url hs body) (\<lambda>signed.
            Inr (hs @ filter (\<lambda>e. header_get (fst e) hs = None) signed))))))
      | _ \<Rightarrow> Inr hs)"

section \<open>Event streams\<close>

datatype sse_event = SSE_Open | SSE_Message string

type_synonym frames = "(api_error, string) result list"

definition DONE :: string where "DONE = ''[DONE]''"

text \<open>\<open>handle_stream_error\<close>: what goes to the channel, or that collecting the body failed.
  \<open>status_body\<close> is the body of the response of an invalid status.\<close>

definition handle_stream_error ::
  "(eventsource_error \<Rightarrow> (string, string) result) \<Rightarrow> eventsource_error \<Rightarrow> (internal_error, (api_error, string) result) result" where
  "handle_stream_error status_body e =
     (case e of
        ES_InvalidStatusCode _ _ \<Rightarrow>
          rbind (map_err CollectBodyError (status_body e)) (\<lambda>b. Inr (Inr b))
      | _ \<Rightarrow> Inr (Inl (AE_Stream (SE_Stream e))))"

fun sse_loop ::
  "(eventsource_error \<Rightarrow> (string, string) result) \<Rightarrow> (eventsource_error, sse_event) result list \<Rightarrow> frames" where
  "sse_loop sb [] = []"
| "sse_loop sb (Inl e # rest) =
     (case e of
        ES_StreamEnded _ \<Rightarrow> []
      | _ \<Rightarrow> (case handle_stream_error sb e of Inr f \<Rightarrow> f # sse_loop sb rest | Inl _ \<Rightarrow> []))"
| "sse_loop sb (Inr SSE_Open # rest) = sse_loop sb rest"
| "sse_loop sb (Inr (SSE_Message d) # rest) = (if d = DONE then [] else Inr d # sse_loop sb rest)"

text \<open>\<open>sse_stream\<close>: the first event is awaited, so that an error of the connection is the answer.\<close>

definition sse_stream ::
  "(eventsource_error \<Rightarrow> (string, string) result) \<Rightarrow> (eventsource_error, sse_event) result list \<Rightarrow>
     (eventsource_error, frames) result" where
  "sse_stream sb events =
     (case events of
        [] \<Rightarrow> Inr (sse_loop sb [])
      | Inl e # _ \<Rightarrow> Inl e
      | Inr ev # rest \<Rightarrow>
          (case ev of
             SSE_Message d \<Rightarrow> if d \<noteq> DONE then Inr (Inr d # sse_loop sb rest) else Inr (sse_loop sb rest)
           | SSE_Open \<Rightarrow> Inr (sse_loop sb rest)))"

section \<open>The request to a provider\<close>

text \<open>The extensions of a request that the dispatcher reads.\<close>

record 'd dispatch_request =
  dq_method :: string
  dq_headers :: headers
  dq_body :: "(string, string) result"
  dq_mapper_context :: "'d mapper_context option"
  dq_request_context :: "auth_context option option"
  dq_api_endpoint :: "api_endpoint option"
  dq_path_and_query :: "string option"
  dq_provider :: "inference_provider option"
  dq_router_id :: "router_id option"

record 'd dispatch_response =
  ds_status :: nat
  ds_headers :: headers
  ds_body :: frames
  ds_provider :: inference_provider
  ds_router_id :: "router_id option"
  ds_auth_context :: "auth_context option"
  ds_provider_request_id :: "string option"
  ds_mapper_context :: "'d mapper_context"
  ds_path_and_query :: string

record outgoing =
  og_method :: string
  og_url :: string
  og_headers :: headers
  og_body :: string

record dispatcher =
  di_client :: client
  di_provider :: inference_provider
  di_rate_limit_tx :: bool

record 'd network =
  nw_join :: "string \<Rightarrow> string \<Rightarrow> string option"
  nw_defaults :: "headers \<Rightarrow> headers \<Rightarrow> headers"
  nw_host :: "string \<Rightarrow> string option"
  nw_sign :: aws_signer
  nw_send :: "outgoing \<Rightarrow> (string, response) result"
  nw_events :: "outgoing \<Rightarrow> (eventsource_error, sse_event) result list"
  nw_status_body :: "eventsource_error \<Rightarrow> (string, string) result"
  nw_http_date :: "string \<Rightarrow> nat option"
  nw_unix_time :: nat

text \<open>The state that a dispatch changes: the metrics of the endpoints and the events that went to the
  rate-limit monitor.\<close>

record dispatch_state =
  st_metrics :: "api_endpoint \<rightharpoonup> endpoint_metrics"
  st_events :: "rate_limit_event list"

definition strip_request_headers :: "headers \<Rightarrow> headers" where
  "strip_request_headers hs =
     header_insert ''accept-encoding'' ''identity''
       (header_remove ''accept-encoding''
         (header_remove ''helicone-api-key''
           (header_remove ''content-length''
             (header_remove ''authorization''
               (header_remove ''host'' hs)))))"

definition update_metrics ::
  "(endpoint_metrics \<Rightarrow> endpoint_metrics) \<Rightarrow> api_endpoint \<Rightarrow> (dispatch_state, internal_error, unit) handler" where
  "update_metrics f e st =
     (case health_metrics (st_metrics st) e of
        Inl err \<Rightarrow> (Inl err, st)
      | Inr em \<Rightarrow> (Inr (), st\<lparr>st_metrics := (st_metrics st)(e \<mapsto> f em)\<rparr>))"

text \<open>\<open>record_stream_err_metrics\<close>: only the errors of the event source are counted, a missing metric is
  only logged.\<close>

definition record_stream_err_metrics ::
  "stream_error \<Rightarrow> api_endpoint option \<Rightarrow> nat \<Rightarrow> dispatch_state \<Rightarrow> dispatch_state" where
  "record_stream_err_metrics err ep now st =
     (case ep of
        None \<Rightarrow> st
      | Some e \<Rightarrow> snd (update_metrics
          (\<lambda>em. case err of SE_Stream ev \<Rightarrow> incr_for_stream_error em ev now | SE_Body _ \<Rightarrow> em) e st))"

text \<open>The counting of the errors that the client meets as it reads the body of a streaming answer
  (\<open>map_err\<close> in \<open>dispatch_stream\<close>); each frame has the time at which it is read.\<close>

fun read_stream :: "api_endpoint option \<Rightarrow> (nat \<times> (api_error, string) result) list \<Rightarrow> dispatch_state \<Rightarrow> dispatch_state" where
  "read_stream ep [] st = st"
| "read_stream ep ((now, Inl (AE_Stream err)) # fs) st = read_stream ep fs (record_stream_err_metrics err ep now st)"
| "read_stream ep ((now, Inl _) # fs) st = read_stream ep fs st"
| "read_stream ep ((now, Inr _) # fs) st = read_stream ep fs st"

definition stream_response_headers :: headers where
  "stream_response_headers =
     [(''content-type'', ''text/event-stream; charset=utf-8''), (''connection'', ''keep-alive''),
      (''transfer-encoding'', ''chunked'')]"

text \<open>\<open>extract_retry_after\<close>: seconds, or a date of the fixed format.\<close>

definition extract_retry_after :: "'d network \<Rightarrow> headers \<Rightarrow> 64 word option" where
  "extract_retry_after N hs =
     (case header_str ''retry-after'' hs of
        None \<Rightarrow> None
      | Some s \<Rightarrow>
          (case parse_unsigned 64 s of
             Some seconds \<Rightarrow> Some (of_nat seconds)
           | None \<Rightarrow>
               (case nw_http_date N s of
                  Some target \<Rightarrow> if nw_unix_time N < target then Some (of_nat (target - nw_unix_time N)) else None
                | None \<Rightarrow> None)))"

section \<open>Dispatch\<close>

text \<open>What the dispatcher takes from a request before it sends anything.\<close>

record 'd prepared =
  pr_mapper_context :: "'d mapper_context"
  pr_auth :: "auth_context option"
  pr_provider :: inference_provider
  pr_path_and_query :: string
  pr_outgoing :: outgoing

definition outgoing_request ::
  "dispatcher \<Rightarrow> 'd network \<Rightarrow> 'd dispatch_request \<Rightarrow> string \<Rightarrow> string \<Rightarrow> (api_error, outgoing) result" where
  "outgoing_request D N req url body =
     rbind (sign_headers (nw_host N) (nw_sign N) (di_client D) url (strip_request_headers (dq_headers req)) body) (\<lambda>hs.
       Inr \<lparr>og_method = dq_method req, og_url = url,
            og_headers = nw_defaults N (cl_default_headers (di_client D)) hs, og_body = body\<rparr>)"

definition prepare_request ::
  "dispatcher \<Rightarrow> 'w config \<Rightarrow> 'd network \<Rightarrow> 'd dispatch_request \<Rightarrow> (api_error abort, 'd prepared) result" where
  "prepare_request D cfg N req =
     rbind (ok_or (Failed (AE_Internal (ExtensionNotFound ''MapperContext''))) (dq_mapper_context req)) (\<lambda>mapper_ctx.
     rbind (ok_or (Failed (AE_Internal (ExtensionNotFound ''RequestContext''))) (dq_request_context req)) (\<lambda>auth_ctx.
     rbind (ok_or (Failed (AE_Internal (ProviderNotConfigured (di_provider D))))
              (map_of (cfg_providers cfg) (di_provider D))) (\<lambda>pc.
     rbind (ok_or (Failed (AE_Internal (ExtensionNotFound ''PathAndQuery''))) (dq_path_and_query req)) (\<lambda>pq.
     rbind (ok_or (Failed (AE_Internal (ExtensionNotFound ''InferenceProvider''))) (dq_provider req)) (\<lambda>provider.
     rbind (ok_or Panicked (nw_join N (gp_base_url pc) pq)) (\<lambda>url.
     rbind (map_err (\<lambda>e. Failed (AE_Internal (RequestBodyError e))) (dq_body req)) (\<lambda>body.
     rbind (map_err Failed (outgoing_request D N req url body)) (\<lambda>og.
       Inr \<lparr>pr_mapper_context = mapper_ctx, pr_auth = auth_ctx, pr_provider = provider,
            pr_path_and_query = pq, pr_outgoing = og\<rparr>))))))))"

text \<open>The answer of the network: status, headers and frames; a stream that does not start is counted.\<close>

definition dispatch_network ::
  "'d network \<Rightarrow> nat \<Rightarrow> outgoing \<Rightarrow> api_endpoint option \<Rightarrow> bool \<Rightarrow>
     (dispatch_state, api_error, nat \<times> headers \<times> frames) handler" where
  "dispatch_network N now og ep is_stream st =
     (if is_stream then
        (case sse_stream (nw_status_body N) (nw_events N og) of
           Inl e \<Rightarrow> (Inl (AE_Stream (SE_Stream e)), record_stream_err_metrics (SE_Stream e) ep now st)
         | Inr fs \<Rightarrow> (Inr (200, stream_response_headers, fs), st))
      else
        (case nw_send N og of
           Inl e \<Rightarrow> (Inl (AE_Internal (ReqwestError e)), st)
         | Inr r \<Rightarrow> (Inr (rp_status r, rp_headers r,
             [map_err (\<lambda>e. AE_Internal (ReqwestError e)) (rp_body r)]), st)))"

text \<open>The signals that a status gives.\<close>

definition dispatch_signals ::
  "dispatcher \<Rightarrow> 'd network \<Rightarrow> nat \<Rightarrow> api_endpoint option \<Rightarrow> nat \<Rightarrow> headers \<Rightarrow>
     (dispatch_state, internal_error, unit) handler" where
  "dispatch_signals D N now ep status hs st =
     (case ep of
        None \<Rightarrow> (Inr (), st)
      | Some e \<Rightarrow>
          if is_server_error status then update_metrics (\<lambda>em. incr_remote_internal_error_count em now) e st
          else if status = 429 \<and> di_rate_limit_tx D
          then (Inr (), st\<lparr>st_events := st_events st @
                 [\<lparr>re_api_endpoint = e, re_retry_after_seconds = extract_retry_after N hs\<rparr>]\<rparr>)
          else (Inr (), st))"

text \<open>The response with the extensions that it carries back through the middleware, and the check that the
  logger has an identity to log for.\<close>

definition client_response ::
  "'w config \<Rightarrow> 'd dispatch_request \<Rightarrow> 'd prepared \<Rightarrow> nat \<times> headers \<times> frames \<Rightarrow> (internal_error, 'd dispatch_response) result" where
  "client_response cfg req p answer =
     (case answer of (status, hs, fs) \<Rightarrow>
        if is_observability_enabled (cfg_helicone cfg) \<and> pr_auth p = None
        then Inl (ExtensionNotFound ''AuthContext'')
        else Inr \<lparr>ds_status = status,
                  ds_headers = header_remove ''x-request-id'' (header_remove ''content-length'' hs),
                  ds_body = fs, ds_provider = pr_provider p, ds_router_id = dq_router_id req,
                  ds_auth_context = pr_auth p, ds_provider_request_id = header_get ''x-request-id'' hs,
                  ds_mapper_context = pr_mapper_context p, ds_path_and_query = pr_path_and_query p\<rparr>)"

definition failing :: "('s, internal_error, 'a) handler \<Rightarrow> ('s, api_error abort, 'a) handler" where
  "failing m s = (case m s of (r, s') \<Rightarrow> (map_err (\<lambda>e. Failed (AE_Internal e)) r, s'))"

definition dispatch ::
  "dispatcher \<Rightarrow> 'w config \<Rightarrow> 'd network \<Rightarrow> nat \<Rightarrow> 'd dispatch_request \<Rightarrow>
     (dispatch_state, api_error abort, 'd dispatch_response) handler" where
  "dispatch D cfg N now req =
     hbind (hlift (prepare_request D cfg N req)) (\<lambda>p.
     hbind (case dq_api_endpoint req of
              Some e \<Rightarrow> failing (update_metrics (\<lambda>em. incr_req_count em now) e)
            | None \<Rightarrow> hlift (Inr ())) (\<lambda>_.
     hbind (\<lambda>st. case dispatch_network N now (pr_outgoing p) (dq_api_endpoint req)
                      (mx_is_stream (pr_mapper_context p)) st of (r, st') \<Rightarrow> (map_err Failed r, st')) (\<lambda>answer.
     hbind (failing (hlift (client_response cfg req p answer))) (\<lambda>resp.
     hbind (failing (dispatch_signals D N now (dq_api_endpoint req) (ds_status resp) (ds_headers resp))) (\<lambda>_.
       hlift (Inr resp))))))"

section \<open>Lemmas\<close>

lemma header_values_remove [simp]:
  "header_values n (header_remove m hs) = (if n = m then [] else header_values n hs)"
  by (auto simp: header_values_def header_remove_def filter_empty_conv intro!: arg_cong [where f = "map snd"] filter_cong)

lemma header_values_append [simp]: "header_values n (xs @ ys) = header_values n xs @ header_values n ys"
  by (simp add: header_values_def)

lemma header_values_Nil [simp]: "header_values n [] = []"
  by (simp add: header_values_def)

lemma header_values_missing:
  "header_values n (filter (\<lambda>d. header_get (fst d) hs = None) ds) =
     (if header_values n hs = [] then header_values n ds else [])"
proof (cases "header_values n hs = []")
  case True
  then have "header_get n hs = None" by (simp add: header_get_hd)
  then show ?thesis using True
    by (auto simp: header_values_def intro!: arg_cong [where f = "map snd"] filter_cong)
next
  case False
  then have "header_get n hs \<noteq> None" by (simp add: header_get_hd split: list.splits)
  then show ?thesis using False by (auto simp: header_values_def filter_empty_conv)
qed

lemma header_values_defaults:
  "defaults_law add \<Longrightarrow> distinct (map fst ds) \<Longrightarrow>
     header_values n (add ds hs) = (if header_values n hs = [] then header_values n ds else header_values n hs)"
  by (simp add: defaults_law_def)

lemma distinct_insert: "distinct (map fst hs) \<Longrightarrow> distinct (map fst (header_insert n v hs))"
  by (auto simp: header_insert_def header_append_def header_remove_def distinct_map_filter)

lemma header_values_stripped:
  "header_values n (strip_request_headers hs) =
     (if n = ''accept-encoding'' then [''identity'']
      else if n \<in> {''helicone-api-key'', ''content-length'', ''authorization'', ''host''} then []
      else header_values n hs)"
  by (simp add: strip_request_headers_def)

lemma sign_headers_plain: "cl_kind c \<noteq> CK_Bedrock \<Longrightarrow> sign_headers host sg c url hs body = Inr hs"
  by (cases "cl_kind c") (simp_all add: sign_headers_def)

lemma prepared_headers:
  "prepare_request D cfg N req = Inr p \<Longrightarrow> cl_kind (di_client D) \<noteq> CK_Bedrock \<Longrightarrow>
     og_headers (pr_outgoing p) =
       nw_defaults N (cl_default_headers (di_client D)) (strip_request_headers (dq_headers req))"
  by (auto simp: prepare_request_def outgoing_request_def sign_headers_plain)

lemma insert_value_Ok: "insert_value n v hs = Inr hs' \<longleftrightarrow> list_all value_byte v \<and> hs' = header_insert n v hs"
  by (auto simp: insert_value_def header_value_from_str_def split: if_splits option.splits)

lemma bearer_client_headers:
  assumes "bearer_client kind p host cfg (Some (Key_Secret k)) = Inr c"
  shows "cl_kind c = kind" "header_values ''authorization'' (cl_default_headers c) = [''Bearer '' @ k]"
    "header_values ''helicone-api-key'' (cl_default_headers c) = []"
    "header_values ''accept-encoding'' (cl_default_headers c) = []" "distinct (map fst (cl_default_headers c))"
  using assms by (auto simp: bearer_client_def host_headers_def insert_value_Ok distinct_insert)

lemma anthropic_client_headers:
  assumes "anthropic_client host cfg (Some (Key_Secret k)) = Inr c"
  shows "cl_kind c = CK_Anthropic" "header_values ''x-api-key'' (cl_default_headers c) = [k]"
    "header_values ''authorization'' (cl_default_headers c) = []" "distinct (map fst (cl_default_headers c))"
  using assms by (auto simp: anthropic_client_def host_headers_def insert_value_Ok distinct_insert)

lemma update_metrics_known:
  "st_metrics st e = Some em \<Longrightarrow> update_metrics f e st = (Inr (), st\<lparr>st_metrics := (st_metrics st)(e \<mapsto> f em)\<rparr>)"
  by (simp add: update_metrics_def health_metrics_def)

lemma dispatch_unprepared:
  "prepare_request D cfg N req = Inl e \<Longrightarrow> dispatch D cfg N now req st = (Inl e, st)"
  by (simp add: dispatch_def hbind_def hlift_def)

lemma dispatch_signals_ok:
  "(\<And>e. ep = Some e \<Longrightarrow> st_metrics st e \<noteq> None) \<Longrightarrow> \<exists>st'. dispatch_signals D N now ep s hs st = (Inr (), st')"
  by (auto simp: dispatch_signals_def update_metrics_def health_metrics_def split: option.splits)

lemma dispatch_prepared:
  assumes "prepare_request D cfg N req = Inr p" "dq_api_endpoint req = Some e" "st_metrics st e = Some em"
  shows "dispatch D cfg N now req st =
    (case dispatch_network N now (pr_outgoing p) (Some e) (mx_is_stream (pr_mapper_context p))
        (st\<lparr>st_metrics := (st_metrics st)(e \<mapsto> incr_req_count em now)\<rparr>) of
       (Inl er, st2) \<Rightarrow> (Inl (Failed er), st2)
     | (Inr answer, st2) \<Rightarrow>
         (case client_response cfg req p answer of
            Inl er \<Rightarrow> (Inl (Failed (AE_Internal er)), st2)
          | Inr resp \<Rightarrow>
              (case dispatch_signals D N now (Some e) (ds_status resp) (ds_headers resp) st2 of
                 (Inl er, st3) \<Rightarrow> (Inl (Failed (AE_Internal er)), st3)
               | (Inr _, st3) \<Rightarrow> (Inr resp, st3))))"
  using assms
  by (simp add: dispatch_def hbind_def hlift_def failing_def update_metrics_known split: prod.splits sum.splits)

lemma network_sync [simp]:
  "dispatch_network N now og ep False st =
     (case nw_send N og of
        Inl e \<Rightarrow> (Inl (AE_Internal (ReqwestError e)), st)
      | Inr r \<Rightarrow> (Inr (rp_status r, rp_headers r, [map_err (\<lambda>e. AE_Internal (ReqwestError e)) (rp_body r)]), st))"
  by (simp add: dispatch_network_def)

lemma network_stream:
  "dispatch_network N now og ep True st =
     (case nw_events N og of
        Inl e # _ \<Rightarrow> (Inl (AE_Stream (SE_Stream e)), record_stream_err_metrics (SE_Stream e) ep now st)
      | evs \<Rightarrow> (Inr (200, stream_response_headers, projr (sse_stream (nw_status_body N) evs)), st))"
  by (auto simp: dispatch_network_def sse_stream_def split: list.splits sum.splits sse_event.splits)

lemma retry_after_kept:
  "extract_retry_after N (header_remove ''x-request-id'' (header_remove ''content-length'' hs)) = extract_retry_after N hs"
  by (simp add: extract_retry_after_def header_str_def header_get_remove)

lemma client_response_Ok:
  "client_response cfg req p (s, hs, fs) = Inr resp \<Longrightarrow>
     \<not> (is_observability_enabled (cfg_helicone cfg) \<and> pr_auth p = None) \<and> ds_status resp = s \<and> ds_body resp = fs \<and>
     ds_headers resp = header_remove ''x-request-id'' (header_remove ''content-length'' hs)"
  by (auto simp: client_response_def split: if_splits)

lemma client_response_Err:
  "client_response cfg req p (s, hs, fs) = Inl er \<Longrightarrow>
     is_observability_enabled (cfg_helicone cfg) \<and> pr_auth p = None"
  by (auto simp: client_response_def split: if_splits)

lemma signals_known:
  "st_metrics st e = Some em \<Longrightarrow> dispatch_signals D N now (Some e) s hs st =
     (Inr (), if is_server_error s then st\<lparr>st_metrics := (st_metrics st)(e \<mapsto> incr_remote_internal_error_count em now)\<rparr>
       else if s = 429 \<and> di_rate_limit_tx D
       then st\<lparr>st_events := st_events st @ [\<lparr>re_api_endpoint = e, re_retry_after_seconds = extract_retry_after N hs\<rparr>]\<rparr>
       else st)"
  by (auto simp: dispatch_signals_def update_metrics_known)

lemma dispatch_state_stream:
  assumes "prepare_request D cfg N req = Inr p" "dq_api_endpoint req = Some e" "st_metrics st e = Some em"
    and "mx_is_stream (pr_mapper_context p)"
  shows "snd (dispatch D cfg N now req st) =
    st\<lparr>st_metrics := (st_metrics st)(e \<mapsto>
      (case nw_events N (pr_outgoing p) of
         Inl err # _ \<Rightarrow> incr_for_stream_error (incr_req_count em now) err now
       | _ \<Rightarrow> incr_req_count em now))\<rparr>"
proof (cases "\<exists>err rest. nw_events N (pr_outgoing p) = Inl err # rest")
  case True
  then show ?thesis using assms
    by (auto simp: dispatch_prepared network_stream record_stream_err_metrics_def update_metrics_known)
next
  case False
  then have net: "\<exists>fs. dispatch_network N now (pr_outgoing p) ep True s = (Inr (200, stream_response_headers, fs), s)"
    for ep s by (auto simp: network_stream split: list.splits sum.splits)
  obtain fs where "dispatch_network N now (pr_outgoing p) (Some e) True
      (st\<lparr>st_metrics := (st_metrics st)(e \<mapsto> incr_req_count em now)\<rparr>) =
      (Inr (200, stream_response_headers, fs), st\<lparr>st_metrics := (st_metrics st)(e \<mapsto> incr_req_count em now)\<rparr>)"
    using net by blast
  then show ?thesis using assms False
    by (auto simp: dispatch_prepared signals_known dest!: client_response_Ok
        split: sum.splits list.splits)
qed

lemma dispatch_state_sync:
  assumes "prepare_request D cfg N req = Inr p" "dq_api_endpoint req = Some e" "st_metrics st e = Some em"
    and "\<not> mx_is_stream (pr_mapper_context p)"
    and "\<And>r. nw_send N (pr_outgoing p) = Inr r \<Longrightarrow> \<not> is_observability_enabled (cfg_helicone cfg) \<or> pr_auth p \<noteq> None"
  shows "snd (dispatch D cfg N now req st) =
    (case nw_send N (pr_outgoing p) of
       Inl _ \<Rightarrow> st\<lparr>st_metrics := (st_metrics st)(e \<mapsto> incr_req_count em now)\<rparr>
     | Inr r \<Rightarrow>
         if is_server_error (rp_status r)
         then st\<lparr>st_metrics := (st_metrics st)(e \<mapsto> incr_remote_internal_error_count (incr_req_count em now) now)\<rparr>
         else st\<lparr>st_metrics := (st_metrics st)(e \<mapsto> incr_req_count em now),
                 st_events := st_events st @
                   (if rp_status r = 429 \<and> di_rate_limit_tx D
                    then [\<lparr>re_api_endpoint = e, re_retry_after_seconds = extract_retry_after N (rp_headers r)\<rparr>] else [])\<rparr>)"
  using assms
  by (auto simp: dispatch_prepared signals_known retry_after_kept
      dest!: client_response_Ok client_response_Err split: sum.splits)

lemma sse_loop_no_errors:
  assumes "\<forall>ev \<in> set evs. \<exists>x. ev = Inr x"
  shows "sse_loop sb evs =
    map Inr (takeWhile (\<lambda>d. d \<noteq> DONE) (List.map_filter (\<lambda>ev. case ev of Inr (SSE_Message d) \<Rightarrow> Some d | _ \<Rightarrow> None) evs))"
  using assms
proof (induction evs)
  case (Cons ev evs)
  then show ?case by (cases ev; cases "projr ev") (auto simp: List.map_filter_simps)
qed (simp add: List.map_filter_simps)

text \<open>A Bedrock client signs with its AWS keys; without both of them every request fails.\<close>

lemma bedrock_needs_keys:
  "cl_kind c = CK_Bedrock \<Longrightarrow> cl_access_key c = None \<or> cl_secret_key c = None \<Longrightarrow>
     sign_headers host sign c url hs body = Inl (AE_Authentication InvalidCredentials)"
  by (auto simp: sign_headers_def rbind_Err_iff)

lemma bedrock_keys:
  "bedrock_client host cfg key = Inr c \<Longrightarrow> cl_kind c = CK_Bedrock \<and>
     (cl_access_key c, cl_secret_key c) = (case key of Some k \<Rightarrow> as_aws_credentials k | None \<Rightarrow> (None, None))"
  by (cases "case key of Some k \<Rightarrow> as_aws_credentials k | None \<Rightarrow> (None, None)") (auto simp: bedrock_client_def)

section \<open>A concrete dispatcher\<close>

definition sample_host :: "string \<Rightarrow> string option" where
  "sample_host url = strip_prefix ''https://'' url"

definition vacant_defaults :: "headers \<Rightarrow> headers \<Rightarrow> headers" where
  "vacant_defaults ds hs = hs @ filter (\<lambda>d. header_get (fst d) hs = None) ds"

lemma vacant_defaults_law: "defaults_law vacant_defaults"
  by (simp add: defaults_law_def vacant_defaults_def header_values_missing)

definition sample_client :: "inference_provider \<Rightarrow> client" where
  "sample_client p = projr (client_new_inner sample_host sample_config p (Some (Key_Secret ''sk-gateway'')))"

definition sample_network :: "nat \<Rightarrow> headers \<Rightarrow> (eventsource_error, sse_event) result list \<Rightarrow> ymd network" where
  "sample_network status hs evs =
     \<lparr>nw_join = (\<lambda>b p. Some (b @ p)), nw_defaults = vacant_defaults, nw_host = sample_host, nw_sign = (\<lambda>a s r u h b. Inr []),
      nw_send = (\<lambda>og. Inr \<lparr>rp_status = status, rp_version = HTTP_11, rp_headers = hs, rp_body = Inr ''{}''\<rparr>),
      nw_events = (\<lambda>og. evs), nw_status_body = (\<lambda>e. Inr []), nw_http_date = Map.empty, nw_unix_time = 0\<rparr>"

definition sample_dispatch :: "bool \<Rightarrow> headers \<Rightarrow> inference_provider \<Rightarrow> ymd dispatch_request" where
  "sample_dispatch is_stream hs p =
     \<lparr>dq_method = ''POST'', dq_headers = hs, dq_body = Inr ''{}'',
      dq_mapper_context = Some \<lparr>mx_is_stream = is_stream, mx_model = None\<rparr>, dq_request_context = Some None,
      dq_api_endpoint = Some (EP_OpenAI OpenAI_ChatCompletions), dq_path_and_query = Some ''/v1/chat/completions'',
      dq_provider = Some p, dq_router_id = Some R_Default\<rparr>"

definition sample_dispatcher :: "inference_provider \<Rightarrow> dispatcher" where
  "sample_dispatcher p = \<lparr>di_client = sample_client p, di_provider = p, di_rate_limit_tx = True\<rparr>"

definition sample_state :: "endpoint_metrics \<Rightarrow> dispatch_state" where
  "sample_state em = \<lparr>st_metrics = [EP_OpenAI OpenAI_ChatCompletions \<mapsto> em], st_events = []\<rparr>"

lemma sample_providers [simp]:
  "map_of (cfg_providers sample_config) P_OpenAI =
     Some \<lparr>gp_models = [''gpt-4o''], gp_base_url = ''https://api.openai.com'', gp_version = None\<rparr>"
  "map_of (cfg_providers sample_config) P_Anthropic =
     Some \<lparr>gp_models = [''claude-3-opus''], gp_base_url = ''https://api.anthropic.com'', gp_version = Some ''2023-06-01''\<rparr>"
  by (simp_all add: sample_config_def)

lemma sample_openai_client:
  "client_new_inner sample_host sample_config P_OpenAI (Some (Key_Secret ''sk-gateway'')) = Inr (sample_client P_OpenAI)"
  by (simp add: sample_client_def client_new_inner_def openai_client_def bearer_client_def provider_base_url_def host_headers_def
      insert_value_def header_value_from_str_def value_byte_def sample_host_def
      strip_prefix_def)

lemma sample_anthropic_client:
  "client_new_inner sample_host sample_config P_Anthropic (Some (Key_Secret ''sk-gateway'')) = Inr (sample_client P_Anthropic)"
  by (simp add: sample_client_def client_new_inner_def anthropic_client_def provider_base_url_def host_headers_def
      insert_value_def header_value_from_str_def value_byte_def sample_host_def
      strip_prefix_def)

lemma sample_kinds: "cl_kind (sample_client P_OpenAI) = CK_OpenAI" "cl_kind (sample_client P_Anthropic) = CK_Anthropic"
  using sample_openai_client sample_anthropic_client
  by (auto simp: client_new_inner_def openai_client_def dest: bearer_client_headers(1) anthropic_client_headers(1))

lemma sample_prepared:
  assumes "p = P_OpenAI \<or> p = P_Anthropic"
  shows "prepare_request (sample_dispatcher p) sample_config (sample_network s rhs evs) (sample_dispatch b hs p) =
    Inr (projr (prepare_request (sample_dispatcher p) sample_config (sample_network s rhs evs) (sample_dispatch b hs p)))"
  using assms
  by (elim disjE) (simp_all add: prepare_request_def sample_dispatch_def sample_dispatcher_def sample_network_def
      outgoing_request_def sign_headers_plain sample_kinds)

section \<open>Properties\<close>



text \<open>The headers of the client win over the default headers of a provider's HTTP client: a request
  to Anthropic that carries an \<open>x-api-key\<close> is sent with the caller's value, and the key that the gateway is
  configured with is not used.\<close>

theorem caller_overrides_anthropic_key:
  assumes "client_new_inner host cfg P_Anthropic (Some (Key_Secret k)) = Inr (di_client D)"
    and "prepare_request D cfg' N req = Inr pr" "defaults_law (nw_defaults N)"
  shows "header_values ''x-api-key'' (og_headers (pr_outgoing pr)) =
    (if header_values ''x-api-key'' (dq_headers req) = [] then [k] else header_values ''x-api-key'' (dq_headers req))"
proof -
  have "anthropic_client host cfg (Some (Key_Secret k)) = Inr (di_client D)"
    using assms(1) by (simp add: client_new_inner_def)
  note c = anthropic_client_headers[OF this]
  then show ?thesis using prepared_headers[OF assms(2)]
    by (simp add: header_values_defaults[OF assms(3) c(4)] header_values_stripped)
qed

theorem caller_overrides_anthropic_key_witness:
  "header_values ''x-api-key'' (og_headers (pr_outgoing (projr (prepare_request (sample_dispatcher P_Anthropic)
      sample_config (sample_network 200 [] []) (sample_dispatch False [(''x-api-key'', ''mine'')] P_Anthropic))))) = [''mine'']"
  using caller_overrides_anthropic_key[OF _ sample_prepared[OF disjI2[OF refl]],
      where host = sample_host and cfg = sample_config and k = "''sk-gateway''"] sample_anthropic_client
  by (simp add: sample_dispatcher_def sample_network_def vacant_defaults_law) (simp add: sample_dispatch_def header_values_def)


lemma sample_auth:
  "prepare_request (sample_dispatcher p) cfg N (sample_dispatch b hs q) = Inr pr \<Longrightarrow>
     pr_auth pr = None \<and> mx_is_stream (pr_mapper_context pr) = b"
  by (auto simp: prepare_request_def sample_dispatch_def)

lemma sample_not_observed: "\<not> is_observability_enabled (cfg_helicone sample_config)"
  by (simp add: is_observability_enabled_def sample_config_def base_config_def helicone_config_default_def)

lemma sample_parts:
  "dq_api_endpoint (sample_dispatch b hs q) = Some (EP_OpenAI OpenAI_ChatCompletions)"
  "st_metrics (sample_state em) (EP_OpenAI OpenAI_ChatCompletions) = Some em"
  "st_events (sample_state em) = []"
  "nw_send (sample_network s rhs evs) og =
     Inr \<lparr>rp_status = s, rp_version = HTTP_11, rp_headers = rhs, rp_body = Inr ''{}''\<rparr>"
  "nw_events (sample_network s rhs evs) og = evs"
  "di_rate_limit_tx (sample_dispatcher q)"
  by (simp_all add: sample_dispatch_def sample_state_def sample_network_def sample_dispatcher_def)

lemma sample_retry_after: "extract_retry_after N [(''retry-after'', ''7'')] = Some 7"
  by (simp add: extract_retry_after_def header_str_def header_get_def header_to_str_def visible_byte_def
      parse_unsigned_def char_digit_def)


text \<open>A streaming request never signals the rate-limit monitor, whatever the provider answers: a 429
  is the error of the first event, which is returned before the status of a response is looked at. Its
  only trace is the count of the request, and of an error if the first event is one that counts.\<close>

theorem streaming_never_signals_rate_limit:
  assumes "prepare_request D cfg N req = Inr p" "dq_api_endpoint req = Some e" "st_metrics st e = Some em"
    and "mx_is_stream (pr_mapper_context p)"
  shows "snd (dispatch D cfg N now req st) =
    st\<lparr>st_metrics := (st_metrics st)(e \<mapsto>
      (case nw_events N (pr_outgoing p) of
         Inl err # _ \<Rightarrow> incr_for_stream_error (incr_req_count em now) err now
       | _ \<Rightarrow> incr_req_count em now))\<rparr>"
  by (rule dispatch_state_stream[OF assms])

theorem streaming_never_signals_rate_limit_witness:
  "st_events (snd (dispatch (sample_dispatcher P_OpenAI) sample_config
      (sample_network 200 [] [Inl (ES_InvalidStatusCode 429 ''Too Many Requests'')])
      5 (sample_dispatch True [] P_OpenAI) (sample_state (projr (endpoint_metrics_default 0))))) = []"
proof -
  note prep = sample_prepared[OF disjI1[OF refl], of 200 "[]"
    "[Inl (ES_InvalidStatusCode 429 ''Too Many Requests'')]" True "[]"]
  note fields = conjunct2[OF sample_auth[OF prep]]
  show ?thesis
    by (subst streaming_never_signals_rate_limit[OF prep sample_parts(1,2)]) (simp_all add: fields sample_parts)
qed

text \<open>The body of a streaming answer whose events carry no error: the data of the messages in the order
  of the events, up to the first \<open>[DONE]\<close> after the first event, which is not part of it; a \<open>[DONE]\<close> that
  comes as the first event is dropped and does not end the stream.\<close>

theorem stream_frames:
  assumes "\<forall>ev \<in> set (first # rest). \<exists>x. ev = Inr x"
  shows "sse_stream sb (first # rest) = Inr (map Inr
    (filter (\<lambda>d. d \<noteq> DONE) (List.map_filter (\<lambda>ev. case ev of Inr (SSE_Message d) \<Rightarrow> Some d | _ \<Rightarrow> None) [first]) @
     takeWhile (\<lambda>d. d \<noteq> DONE) (List.map_filter (\<lambda>ev. case ev of Inr (SSE_Message d) \<Rightarrow> Some d | _ \<Rightarrow> None) rest)))"
proof -
  obtain ev where "first = Inr ev" using assms by auto
  then show ?thesis using sse_loop_no_errors[of rest sb] assms
    by (cases ev) (auto simp: sse_stream_def List.map_filter_simps)
qed

theorem stream_frames_witness:
  "sse_stream (\<lambda>e. Inr []) [Inr SSE_Open, Inr (SSE_Message ''a''), Inr (SSE_Message ''b''),
      Inr (SSE_Message ''[DONE]''), Inr (SSE_Message ''c'')] = Inr [Inr ''a'', Inr ''b'']"
  by (subst stream_frames) (auto simp: List.map_filter_simps DONE_def)

end
