(* ===== verification/Control_Plane.thy ===== *)
theory Control_Plane
  imports Config Http
begin

text \<open>
  The control plane (\<open>control_plane/\<close>): the state that its messages update, the websocket client that
  reads them and reconnects, and the authentication of requests against the keys of that state
  (\<open>middleware/auth.rs\<close>). Parameters: the JSON reader and writer of the messages, SHA-256, the UUID
  parser, and what the websocket gives.
\<close>

section \<open>Messages\<close>

record auth_data =
  ad_user_id :: string
  ad_organization_id :: string

record cp_key =
  ky_key_hash :: string
  ky_owner_id :: string

record cp_config =
  cg_auth :: auth_data
  cg_keys :: "cp_key list"
  cg_router_id :: string
  cg_router_config :: string

datatype cp_update =
    Up_AuthData auth_data
  | Up_Config cp_config
  | Up_Keys "cp_key list"

datatype cp_status = St_Success | St_Error string
datatype cp_ack = Ack_Heartbeat cp_status | Ack_SendLog cp_status
datatype cp_error = Unauthorized string
datatype message_rx = Rx_Ack cp_ack | Rx_Update cp_update | Rx_Error cp_error
datatype message_tx = Tx_Heartbeat | Tx_RequestConfig | Tx_SendLog string

definition cp_config_default :: cp_config where
  "cp_config_default =
     \<lparr>cg_auth = \<lparr>ad_user_id = [], ad_organization_id = []\<rparr>, cg_keys = [], cg_router_id = [], cg_router_config = []\<rparr>"

definition get_key_from_hash :: "cp_config \<Rightarrow> string \<Rightarrow> cp_key option" where
  "get_key_from_hash c h = find (\<lambda>k. ky_key_hash k = h) (cg_keys c)"

text \<open>\<open>hash_key\<close>: the digest as lower-case hexadecimal digits.\<close>

definition hex_digit :: "nat \<Rightarrow> char" where
  "hex_digit d = (if d < 10 then digit_char d else char_of (87 + d))"

definition hex_byte :: "8 word \<Rightarrow> string" where
  "hex_byte b = [hex_digit (unat b div 16), hex_digit (unat b mod 16)]"

definition hash_key :: "(string \<Rightarrow> 8 word list) \<Rightarrow> string \<Rightarrow> string" where
  "hash_key sha256 key = concat (map hex_byte (sha256 (''Bearer '' @ key)))"

section \<open>The state\<close>

record cp_state =
  cs_last_heartbeat :: "nat option"
  cs_config :: cp_config
  cs_history :: "message_rx list"

definition MAX_HISTORY_SIZE :: nat where "MAX_HISTORY_SIZE = 100"

definition cp_state_new :: cp_state where
  "cp_state_new = \<lparr>cs_last_heartbeat = None, cs_config = cp_config_default, cs_history = []\<rparr>"

definition push_history :: "message_rx \<Rightarrow> cp_state \<Rightarrow> cp_state" where
  "push_history m s =
     (let h = cs_history s @ [m] in s\<lparr>cs_history := (if MAX_HISTORY_SIZE < length h then tl h else h)\<rparr>)"

text \<open>\<open>update\<close>: an acknowledgement is \<open>todo!()\<close>, a panic after the message is in the history.\<close>

fun apply_message :: "message_rx \<Rightarrow> (cp_state, 'e abort, unit) handler" where
  "apply_message (Rx_Update (Up_Keys data)) s = (Inr (), s\<lparr>cs_config := (cs_config s)\<lparr>cg_keys := data\<rparr>\<rparr>)"
| "apply_message (Rx_Update (Up_AuthData data)) s = (Inr (), s\<lparr>cs_config := (cs_config s)\<lparr>cg_auth := data\<rparr>\<rparr>)"
| "apply_message (Rx_Update (Up_Config data)) s = (Inr (), s\<lparr>cs_config := data\<rparr>)"
| "apply_message (Rx_Ack a) s = (Inl Panicked, s)"
| "apply_message (Rx_Error e) s = (Inr (), s)"

definition cp_state_update :: "message_rx \<Rightarrow> (cp_state, 'e abort, unit) handler" where
  "cp_state_update m s = apply_message m (push_history m s)"

section \<open>The websocket client\<close>

text \<open>\<open>handle_message\<close>; \<open>de\<close> reads a message.\<close>

definition handle_message :: "(string \<Rightarrow> (string, message_rx) result) \<Rightarrow> string \<Rightarrow> (cp_state, string abort, unit) handler" where
  "handle_message de bytes = hbind (hlift (map_err Failed (de bytes))) cp_state_update"

text \<open>The request of the connection: the builder fails on a value that no header may have.\<close>

definition ws_request_headers :: "helicone_config \<Rightarrow> string \<Rightarrow> string \<Rightarrow> headers option" where
  "ws_request_headers cfg host generated_key =
     (let hs = [(''host'', host), (''authorization'', ''Bearer '' @ hc_api_key cfg), (''connection'', ''Upgrade''),
                (''upgrade'', ''websocket''), (''sec-websocket-version'', ''13''),
                (''sec-websocket-key'', generated_key)]
      in if list_all (\<lambda>(n, v). header_value_from_str v \<noteq> None) hs then Some hs else None)"

text \<open>What a connection yields before it ends, and the attempts to connect, in the order they are made.\<close>

datatype ws_item = WS_Message string | WS_AlreadyClosed | WS_Failed string

type_synonym connection = "ws_item list"
type_synonym attempts = "(string, connection) result list"

definition connect_async_and_split :: "(string, connection) result \<Rightarrow> (init_error, connection) result" where
  "connect_async_and_split r = map_err WebsocketConnection r"

text \<open>\<open>connect_with_retry\<close>: \<open>None\<close> says that it is still trying after the given attempts.\<close>

fun connect_with_retry :: "attempts \<Rightarrow> ((init_error, connection) result \<times> attempts) option" where
  "connect_with_retry [] = None"
| "connect_with_retry (a # rest) =
     (case connect_async_and_split a of
        Inr c \<Rightarrow> Some (Inr c, rest)
      | Inl e \<Rightarrow> (case e of WebsocketConnection _ \<Rightarrow> connect_with_retry rest | _ \<Rightarrow> Some (Inl e, rest)))"

lemma connect_with_retry_shorter:
  "connect_with_retry as = Some (r, rest) \<Longrightarrow> length rest < length as"
  by (induction as arbitrary: r rest) (auto split: sum.splits init_error.splits)

text \<open>How far \<open>run_control_plane_forever\<close> has got.\<close>

datatype cp_outcome = CP_Reconnecting | CP_Panicked | CP_Returned runtime_error

function run_control_plane ::
  "(string \<Rightarrow> (string, message_rx) result) \<Rightarrow> connection \<Rightarrow> attempts \<Rightarrow> cp_state \<Rightarrow> cp_outcome \<times> cp_state" where
  "run_control_plane de [] as s =
     (case connect_with_retry as of
        None \<Rightarrow> (CP_Reconnecting, s)
      | Some (Inl e, _) \<Rightarrow> (CP_Returned (RE_Init e), s)
      | Some (Inr c, as') \<Rightarrow> run_control_plane de c as' s)"
| "run_control_plane de (WS_Message m # c) as s =
     (case handle_message de m s of
        (Inl Panicked, s') \<Rightarrow> (CP_Panicked, s')
      | (_, s') \<Rightarrow> run_control_plane de c as s')"
| "run_control_plane de (WS_AlreadyClosed # c) as s =
     (case connect_with_retry as of
        None \<Rightarrow> (CP_Reconnecting, s)
      | Some (Inl e, _) \<Rightarrow> (CP_Returned (RE_Init e), s)
      | Some (Inr c', as') \<Rightarrow> run_control_plane de c' as' s)"
| "run_control_plane de (WS_Failed e # c) as s = run_control_plane de c as s"
  by pat_completeness auto
termination
  by (relation "inv_image (less_than <*lex*> less_than) (\<lambda>(de, c, as, s). (length as, length c))")
     (auto dest: connect_with_retry_shorter)

text \<open>\<open>send_message\<close>: the sink's answer, the messages that went out, and the attempts left. A message whose
  connection is closed starts a new connection.\<close>

datatype send_outcome = SO_Sent | SO_AlreadyClosed | SO_Failed string

definition send_message ::
  "(message_tx \<Rightarrow> (string, string) result) \<Rightarrow> (string \<Rightarrow> send_outcome) \<Rightarrow> message_tx \<Rightarrow> attempts \<Rightarrow>
     ((string + init_error, unit) result \<times> string list \<times> attempts) option" where
  "send_message ser send m as =
     (case ser m of
        Inl e \<Rightarrow> Some (Inl (Inl e), [], as)
      | Inr bytes \<Rightarrow>
          (case send bytes of
             SO_Sent \<Rightarrow> Some (Inr (), [bytes], as)
           | SO_AlreadyClosed \<Rightarrow>
               map_option (\<lambda>(r, as'). (map_err Inr (rbind r (\<lambda>_. Inr ())), [], as')) (connect_with_retry as)
           | SO_Failed e \<Rightarrow> Some (Inr (), [], as)))"

section \<open>Authentication\<close>

record auth_metrics =
  am_attempts :: nat
  am_rejections :: nat

text \<open>SHA-256 and the UUID parser, which gives the printed form of the id.\<close>

record crypto =
  cy_sha256 :: "string \<Rightarrow> 8 word list"
  cy_uuid :: "string \<Rightarrow> string option"

definition parse_id :: "crypto \<Rightarrow> string \<Rightarrow> (auth_error, string) result" where
  "parse_id Y s = ok_or InvalidCredentials (cy_uuid Y s)"

definition authenticate_request_inner :: "crypto \<Rightarrow> cp_config \<Rightarrow> string \<Rightarrow> (auth_error, auth_context) result" where
  "authenticate_request_inner Y config api_key =
     (let api_key_without_bearer = remove_all ''Bearer '' api_key;
          computed_hash = hash_key (cy_sha256 Y) api_key_without_bearer
      in case get_key_from_hash config computed_hash of
           Some key \<Rightarrow>
             rbind (parse_id Y (ky_owner_id key)) (\<lambda>user.
             rbind (parse_id Y (ad_organization_id (cg_auth config))) (\<lambda>org.
               Inr \<lparr>ac_api_key = api_key_without_bearer, ac_user_id = user, ac_org_id = org\<rparr>))
         | None \<Rightarrow> Inl InvalidCredentials)"

text \<open>\<open>authorize\<close>: the \<open>AuthContext\<close> that the request gets, none if authentication is disabled.\<close>

definition authorize ::
  "crypto \<Rightarrow> helicone_config \<Rightarrow> cp_config \<Rightarrow> headers \<Rightarrow> (auth_metrics, error_response, auth_context option) handler" where
  "authorize Y cfg config hs mt =
     (if is_auth_disabled cfg then (Inr None, mt)
      else case header_str ''authorization'' hs of
          None \<Rightarrow> (Inl (auth_into_response MissingAuthorizationHeader), mt)
        | Some api_key \<Rightarrow>
            (let mt' = mt\<lparr>am_attempts := am_attempts mt + 1\<rparr> in
             case authenticate_request_inner Y config api_key of
               Inr ctx \<Rightarrow> (Inr (Some ctx), mt')
             | Inl e \<Rightarrow> (Inl (auth_into_response e), mt'\<lparr>am_rejections := am_rejections mt' + 1\<rparr>)))"

section \<open>Lemmas\<close>

lemma remove_all_prefix: "p \<noteq> [] \<Longrightarrow> remove_all p (p @ s) = remove_all p s"
  by (subst remove_all.simps) simp

lemma push_history_fields [simp]:
  "cs_config (push_history m s) = cs_config s" "cs_last_heartbeat (push_history m s) = cs_last_heartbeat s"
  by (simp_all add: push_history_def Let_def)

lemma apply_message_history [simp]: "cs_history (snd (apply_message m s)) = cs_history s"
  by (induction m s rule: apply_message.induct) auto

lemma apply_message_ack: "fst (apply_message m s) = Inl Panicked \<longleftrightarrow> (\<exists>a. m = Rx_Ack a)"
  by (induction m s rule: apply_message.induct) auto

lemma update_history:
  "cs_history (snd (cp_state_update m s)) =
     (if MAX_HISTORY_SIZE \<le> length (cs_history s) then tl (cs_history s) @ [m] else cs_history s @ [m])"
  by (cases "cs_history s") (auto simp: cp_state_update_def push_history_def Let_def MAX_HISTORY_SIZE_def)

lemma connect_with_retry_ok: "connect_with_retry as = Some (r, rest) \<Longrightarrow> \<exists>c. r = Inr c \<and> Inr c \<in> set as"
  by (induction as arbitrary: r rest) (auto simp: connect_async_and_split_def split: sum.splits)

lemma handle_message_cases:
  assumes "handle_message de m s = (r, s')"
  shows "(\<exists>e. de m = Inl e \<and> r = Inl (Failed e) \<and> s' = s) \<or>
    (\<exists>x. de m = Inr x \<and> (r, s') = cp_state_update x s)"
  using assms by (cases "de m") (auto simp: handle_message_def hbind_def hlift_def split: sum.splits prod.splits)

lemma update_bounded:
  "length (cs_history s) \<le> MAX_HISTORY_SIZE \<Longrightarrow> length (cs_history (snd (cp_state_update m s))) \<le> MAX_HISTORY_SIZE"
  by (auto simp: update_history MAX_HISTORY_SIZE_def)

lemma run_control_plane_inv:
  assumes "length (cs_history s) \<le> MAX_HISTORY_SIZE"
  shows "length (cs_history (snd (run_control_plane de c as s))) \<le> MAX_HISTORY_SIZE \<and>
    (\<forall>e. fst (run_control_plane de c as s) \<noteq> CP_Returned e) \<and>
    (fst (run_control_plane de c as s) = CP_Panicked \<longrightarrow>
      (\<exists>a h. cs_history (snd (run_control_plane de c as s)) = h @ [Rx_Ack a]))"
  using assms
proof (induction de c as s rule: run_control_plane.induct)
  case (1 de as s)
  then show ?case by (auto dest: connect_with_retry_ok split: option.splits sum.splits prod.splits)
next
  case (2 de m c as s)
  obtain r s' where h: "handle_message de m s = (r, s')" by fastforce
  note cs = handle_message_cases[OF h]
  have b: "length (cs_history s') \<le> MAX_HISTORY_SIZE"
    using cs update_bounded[OF "2.prems"] "2.prems" by (metis snd_conv)
  show ?case
  proof (cases "r = Inl Panicked")
    case True
    then obtain x where x: "(r, s') = cp_state_update x s" using cs by auto
    obtain a where "x = Rx_Ack a"
      using apply_message_ack[of x "push_history x s"] x True by (metis cp_state_update_def fst_conv)
    then have "\<exists>a h. cs_history s' = h @ [Rx_Ack a]" using update_history[of x s] x by (metis snd_conv)
    then show ?thesis using h True b by simp
  next
    case False
    then have "run_control_plane de (WS_Message m # c) as s = run_control_plane de c as s'"
      using h by (auto split: sum.splits abort.splits)
    moreover have "length (cs_history (snd (run_control_plane de c as s'))) \<le> MAX_HISTORY_SIZE \<and>
      (\<forall>e. fst (run_control_plane de c as s') \<noteq> CP_Returned e) \<and>
      (fst (run_control_plane de c as s') = CP_Panicked \<longrightarrow>
        (\<exists>a h. cs_history (snd (run_control_plane de c as s')) = h @ [Rx_Ack a]))"
    proof (cases r)
      case (Inl e)
      then obtain e' where "r = Inl (Failed e')" using False by (cases e) auto
      then show ?thesis using "2.IH"(1)[OF h[symmetric]] b h "2.IH" by (metis abort.distinct(1))
    next
      case (Inr u)
      then show ?thesis using "2.IH" b h by auto
    qed
    ultimately show ?thesis by simp
  qed
next
  case (3 de c as s)
  then show ?case by (auto dest: connect_with_retry_ok split: option.splits sum.splits prod.splits)
next
  case (4 de e c as s)
  then show ?case by simp
qed

section \<open>The state after a sequence of messages\<close>

definition cp_after :: "message_rx list \<Rightarrow> cp_state" where
  "cp_after ms = foldl (\<lambda>s m. snd (cp_state_update m s :: (unit abort, unit) result \<times> cp_state)) cp_state_new ms"

definition keys_of :: "message_rx \<Rightarrow> cp_key list option" where
  "keys_of m = (case m of Rx_Update (Up_Keys ks) \<Rightarrow> Some ks | Rx_Update (Up_Config c) \<Rightarrow> Some (cg_keys c) | _ \<Rightarrow> None)"

definition org_of :: "message_rx \<Rightarrow> string option" where
  "org_of m = (case m of Rx_Update (Up_AuthData a) \<Rightarrow> Some (ad_organization_id a)
     | Rx_Update (Up_Config c) \<Rightarrow> Some (ad_organization_id (cg_auth c)) | _ \<Rightarrow> None)"

text \<open>What the last message that says something about it says.\<close>

definition latest :: "(message_rx \<Rightarrow> 'a option) \<Rightarrow> 'a \<Rightarrow> message_rx list \<Rightarrow> 'a" where
  "latest f d ms = (case rev (List.map_filter f ms) of [] \<Rightarrow> d | x # _ \<Rightarrow> x)"

lemma latest_snoc [simp]: "latest f d (ms @ [m]) = (case f m of Some x \<Rightarrow> x | None \<Rightarrow> latest f d ms)"
  by (auto simp: latest_def List.map_filter_def split: option.splits)

lemma latest_Nil [simp]: "latest f d [] = d"
  by (simp add: latest_def List.map_filter_def)

lemma cp_after_Nil [simp]: "cp_after [] = cp_state_new"
  by (simp add: cp_after_def)

lemma cp_after_snoc [simp]: "cp_after (ms @ [m]) = snd (cp_state_update m (cp_after ms) :: (unit abort, unit) result \<times> cp_state)"
  by (simp add: cp_after_def)

lemma update_config:
  "cs_config (snd (cp_state_update m s)) =
     (case m of Rx_Update (Up_Keys ks) \<Rightarrow> (cs_config s)\<lparr>cg_keys := ks\<rparr>
      | Rx_Update (Up_AuthData a) \<Rightarrow> (cs_config s)\<lparr>cg_auth := a\<rparr>
      | Rx_Update (Up_Config c) \<Rightarrow> c | _ \<Rightarrow> cs_config s)"
  by (cases "(m, push_history m s)" rule: apply_message.cases) (auto simp: cp_state_update_def)

lemma cp_after_keys: "cg_keys (cs_config (cp_after ms)) = latest keys_of [] ms"
  by (induction ms rule: rev_induct)
     (auto simp: cp_state_new_def cp_config_default_def update_config keys_of_def split: message_rx.splits cp_update.splits)

lemma cp_after_org: "ad_organization_id (cg_auth (cs_config (cp_after ms))) = latest org_of [] ms"
  by (induction ms rule: rev_induct)
     (auto simp: cp_state_new_def cp_config_default_def update_config org_of_def split: message_rx.splits cp_update.splits)

lemma header_str_single:
  "header_str n [(n, v)] = (if list_all visible_byte v then Some v else None)"
  by (simp add: header_str_def header_get_def header_to_str_def)

section \<open>Properties\<close>

text \<open>Whatever the control plane sends and however its connections fail, the client never gives up: it does
  not return, neither with an error nor without, and the history that it keeps has at most a hundred
  messages.\<close>

theorem control_plane_never_returns:
  "(\<forall>e. fst (run_control_plane de c as cp_state_new) \<noteq> CP_Returned e) \<and>
    length (cs_history (snd (run_control_plane de c as cp_state_new))) \<le> MAX_HISTORY_SIZE"
  using run_control_plane_inv[of cp_state_new] by (simp add: cp_state_new_def)

text \<open>The acknowledgement of a heartbeat or of a log, which the protocol has for the messages that the
  client sends, panics the client, and nothing else does: after a panic the last message of the
  history is an acknowledgement.\<close>

theorem acknowledgement_panics:
  assumes "de m = Inr (Rx_Ack a)" "length (cs_history s) \<le> MAX_HISTORY_SIZE"
  shows "fst (run_control_plane de (WS_Message m # c) as s) = CP_Panicked \<and>
    (\<forall>de' c' as'. fst (run_control_plane de' c' as' s) = CP_Panicked \<longrightarrow>
      (\<exists>b h. cs_history (snd (run_control_plane de' c' as' s)) = h @ [Rx_Ack b]))"
  using run_control_plane_inv[OF assms(2)] assms(1)
  by (simp add: handle_message_def cp_state_update_def hbind_def hlift_def)

theorem acknowledgement_panics_witness:
  "fst (run_control_plane (\<lambda>_. Inr (Rx_Ack (Ack_Heartbeat St_Success))) [WS_Message ''{}''] [] cp_state_new) = CP_Panicked"
  using acknowledgement_panics[where de = "\<lambda>_. Inr (Rx_Ack (Ack_Heartbeat St_Success))" and m = "''{}''"
      and s = cp_state_new and c = "[]" and as = "[]"]
  by (simp add: cp_state_new_def)


definition sample_crypto :: crypto where
  "sample_crypto = \<lparr>cy_sha256 = map of_char, cy_uuid = Some\<rparr>"

definition sample_key :: cp_key where
  "sample_key = \<lparr>ky_key_hash = hash_key (map of_char) ''sk-1'', ky_owner_id = ''u1''\<rparr>"


text \<open>The scheme of the \<open>authorization\<close> header is not required: every occurrence of \<open>Bearer\<close> and a space is
  cut out of the value before it is hashed, so a bare key, a key with the scheme and a key with the
  scheme repeated are the same request to the gateway.\<close>

theorem bearer_scheme_optional:
  "authorize Y cfg config [(''authorization'', ''Bearer '' @ k)] mt = authorize Y cfg config [(''authorization'', k)] mt"
proof -
  have "list_all visible_byte ''Bearer ''" by (simp add: visible_byte_def)
  then show ?thesis
    using remove_all_prefix[of "''Bearer ''" k]
    by (simp add: authorize_def header_str_single authenticate_request_inner_def del: append.simps)
qed

end
