(* ===== verification/Layers.thy ===== *)
theory Layers
  imports Control_Plane Rate_Limiter
begin

text \<open>
  The layers around the routers (\<open>middleware/\<close>, \<open>utils/\<close>), each as a transformer of services, and the front
  of the stack of \<open>app.rs\<close>: panic handler, health check, timer, error handler, authentication, global rate
  limit. Parameters: the in-memory limiter of \<open>tower_governor\<close>, and what stands behind the front.
\<close>

section \<open>Services and replies\<close>

text \<open>A request with the extensions that the layers add: the identity of the caller, the start time (the
  \<open>Instant\<close> and the \<open>DateTime\<close> are set together), the provider, the router and the request context.\<close>

record request_context =
  rx_for_router :: bool
  rx_auth_context :: "auth_context option"

record front_request =
  fq_method :: string
  fq_path :: string
  fq_headers :: headers
  fq_auth :: "auth_context option"
  fq_start :: "int option"
  fq_provider :: "inference_provider option"
  fq_router_id :: "router_id option"
  fq_context :: "request_context option"

datatype reply = Reply response | Reply_Error error_response

type_synonym ('s, 'e, 'r) service = "front_request \<Rightarrow> ('s, 'e abort, 'r) handler"

section \<open>Layers\<close>

text \<open>\<open>AddExtensions::call\<close>: a router id that is not given does not remove one that is there.\<close>

definition add_extensions ::
  "inference_provider \<Rightarrow> router_id option \<Rightarrow> ('s, 'e, 'r) service \<Rightarrow> ('s, 'e, 'r) service" where
  "add_extensions p rid inner req =
     (let req1 = req\<lparr>fq_provider := Some p\<rparr>
      in inner (case rid of Some r \<Rightarrow> req1\<lparr>fq_router_id := Some r\<rparr> | None \<Rightarrow> req1))"

text \<open>\<open>request_context::Service::call\<close>: the identity moves into the context.\<close>

definition request_context_layer :: "bool \<Rightarrow> ('s, 'e, 'r) service \<Rightarrow> ('s, 'e, 'r) service" where
  "request_context_layer for_router inner req =
     inner (req\<lparr>fq_auth := None, fq_context := Some \<lparr>rx_for_router = for_router, rx_auth_context = fq_auth req\<rparr>\<rparr>)"

definition timer_layer :: "int \<Rightarrow> ('s, 'e, 'r) service \<Rightarrow> ('s, 'e, 'r) service" where
  "timer_layer now inner req = inner (req\<lparr>fq_start := Some now\<rparr>)"

definition healthy_response :: response where
  "healthy_response = \<lparr>rp_status = 200, rp_version = HTTP_11, rp_headers = [], rp_body = Inr []\<rparr>"

definition health_check_layer :: "('s, 'e, reply) service \<Rightarrow> ('s, 'e, reply) service" where
  "health_check_layer inner req =
     (if fq_method req = ''GET'' \<and> fq_path req = ''/health'' then hlift (Inr (Reply healthy_response)) else inner req)"

text \<open>\<open>ErrorHandler\<close>: an error is counted under its metric and becomes a response. The count is a field of the
  state, which \<open>upd\<close> increments.\<close>

definition error_handler_layer ::
  "('e \<Rightarrow> error_response) \<Rightarrow> ('e \<Rightarrow> string) \<Rightarrow> (string \<Rightarrow> 's \<Rightarrow> 's) \<Rightarrow> ('s, 'e, reply) service \<Rightarrow> ('s, 'f, reply) service" where
  "error_handler_layer render metric upd inner req st =
     (case inner req st of
        (Inr r, st') \<Rightarrow> (Inr r, st')
      | (Inl (Failed e), st') \<Rightarrow> (Inr (Reply_Error (render e)), upd (metric e) st')
      | (Inl Panicked, st') \<Rightarrow> (Inl Panicked, st'))"

text \<open>\<open>ErrorHandler::poll_ready\<close>: an error of the inner service is logged, and is answered with \<open>Pending\<close>.\<close>

fun error_handler_poll_ready :: "('e, unit) result poll \<Rightarrow> ('f, unit) result poll" where
  "error_handler_poll_ready (Ready (Inr u)) = Ready (Inr u)"
| "error_handler_poll_ready (Ready (Inl e)) = Pending"
| "error_handler_poll_ready Pending = Pending"

text \<open>\<open>ResponseFuture::poll\<close> of the error handler.\<close>

fun error_handler_poll ::
  "('e \<Rightarrow> error_response) \<Rightarrow> ('e \<Rightarrow> string) \<Rightarrow> ('e, reply) result poll \<Rightarrow> reply poll \<times> string list" where
  "error_handler_poll render metric Pending = (Pending, [])"
| "error_handler_poll render metric (Ready (Inr r)) = (Ready r, [])"
| "error_handler_poll render metric (Ready (Inl e)) = (Ready (Reply_Error (render e)), [metric e])"

text \<open>\<open>PanicResponder\<close>: the payload of the panic goes to the error, whose response does not show it.\<close>

datatype panic_payload = Payload_String string | Payload_Str string | Payload_Other

fun panic_details :: "panic_payload \<Rightarrow> string" where
  "panic_details (Payload_String s) = s"
| "panic_details (Payload_Str s) = s"
| "panic_details Payload_Other =
     ''Service panicked but `CatchPanic` was unable to downcast the panic info''"

definition response_for_panic ::
  "(nat \<Rightarrow> string) \<Rightarrow> (internal_error \<Rightarrow> string) \<Rightarrow> panic_payload \<Rightarrow> error_response" where
  "response_for_panic status display payload = api_into_response status display (AE_Panic (panic_details payload))"

definition catch_panic_layer ::
  "error_response \<Rightarrow> ('s, 'e, reply) service \<Rightarrow> ('s, 'e, reply) service" where
  "catch_panic_layer panic inner req st =
     (case inner req st of (Inl Panicked, st') \<Rightarrow> (Inr (Reply_Error panic), st') | r \<Rightarrow> r)"

text \<open>\<open>ResponseHeaderService\<close>: the extensions of a response that name the provider and its request id.\<close>

record tagged_response =
  tg_headers :: headers
  tg_provider :: "inference_provider option"
  tg_provider_request_id :: "string option"

definition set_header :: "bool \<Rightarrow> string \<Rightarrow> string option \<Rightarrow> headers \<Rightarrow> headers" where
  "set_header enabled n v hs = (if enabled then case v of Some x \<Rightarrow> header_insert n x hs | None \<Rightarrow> hs else hs)"

definition response_header_future :: "response_headers_config \<Rightarrow> tagged_response \<Rightarrow> tagged_response" where
  "response_header_future cfg resp =
     resp\<lparr>tg_headers :=
       set_header (rh_provider_request_id cfg) ''helicone-provider-req-id'' (tg_provider_request_id resp)
         (set_header (rh_provider cfg) ''helicone-provider''
            (Option.bind (tg_provider resp) (\<lambda>p. header_value_from_str (provider_as_ref p))) (tg_headers resp))\<rparr>"

section \<open>The front of the stack\<close>

text \<open>The state: metrics, the store of the Redis limiter, the state of the in-memory limiter, and the requests
  that have got behind the front.\<close>

record ('c, 'g) front_state =
  ft_auth :: auth_metrics
  ft_errors :: "string \<Rightarrow> nat"
  ft_redis :: 'c
  ft_governor :: 'g
  ft_inner :: "front_request list"

text \<open>The in-memory limiter decides for a key: it refuses with a response, or admits and adds headers.\<close>

record ('c, 'g) front_env =
  fe_crypto :: crypto
  fe_helicone :: helicone_config
  fe_limiter :: inner_layer
  fe_redis :: "'c rl_redis"
  fe_governor :: "governor_config \<Rightarrow> string \<Rightarrow> 'g \<Rightarrow> (response, response \<Rightarrow> response) result \<times> 'g"
  fe_no_key :: response
  fe_status_text :: "nat \<Rightarrow> string"
  fe_display :: "internal_error \<Rightarrow> string"

definition auth_layer ::
  "('c, 'g) front_env \<Rightarrow> cp_config \<Rightarrow> (('c, 'g) front_state, 'e, reply) service \<Rightarrow>
     (('c, 'g) front_state, 'e, reply) service" where
  "auth_layer E config inner req st =
     (case authorize (fe_crypto E) (fe_helicone E) config (fq_headers req) (ft_auth st) of
        (Inl response, mt) \<Rightarrow> (Inr (Reply_Error response), st\<lparr>ft_auth := mt\<rparr>)
      | (Inr ctx, mt) \<Rightarrow>
          inner (case ctx of Some c \<Rightarrow> req\<lparr>fq_auth := Some c\<rparr> | None \<Rightarrow> req) (st\<lparr>ft_auth := mt\<rparr>))"

definition to_rl_request :: "front_request \<Rightarrow> rl_request" where
  "to_rl_request req = \<lparr>lq_user = map_option ac_user_id (fq_auth req), lq_start_ms = fq_start req\<rparr>"

text \<open>\<open>rate_limit::Service\<close> with the three layers it may have; \<open>inner\<close> is what stands behind.\<close>

definition call_inner :: "front_request \<Rightarrow> ('c, 'g) front_state \<Rightarrow> ('c, 'g) front_state" where
  "call_inner req st = st\<lparr>ft_inner := ft_inner st @ [req]\<rparr>"

definition rate_limit_service ::
  "('c, 'g) front_env \<Rightarrow> int \<Rightarrow> (front_request \<Rightarrow> (api_error, response) result) \<Rightarrow>
     (('c, 'g) front_state, api_error, reply) service" where
  "rate_limit_service E utc_now inner req st =
     (case fe_limiter E of
        IL_None \<Rightarrow> (map_err Failed (rbind (inner req) (\<lambda>r. Inr (Reply r))), call_inner req st)
      | IL_Redis limits _ rid \<Rightarrow>
          (case rl_make_request (fe_redis E) (inner req) (lc_per_api_key limits) utc_now (to_rl_request req) rid
                  (ft_redis st) of
             (r, c, called) \<Rightarrow>
               (rbind r (\<lambda>x. Inr (Reply x)), (if called then call_inner req else id) (st\<lparr>ft_redis := c\<rparr>)))
      | IL_InMemory gc \<Rightarrow>
          (case get_user_id (to_rl_request req) of
             Inl _ \<Rightarrow> (Inr (Reply (increment_retry_after_header (fe_no_key E))), st)
           | Inr user \<Rightarrow>
               (case fe_governor E gc user (ft_governor st) of
                  (Inl refusal, g) \<Rightarrow>
                    (Inr (Reply (increment_retry_after_header refusal)), st\<lparr>ft_governor := g\<rparr>)
                | (Inr headers_of, g) \<Rightarrow>
                    (map_err Failed (rbind (inner req) (\<lambda>r. Inr (Reply (increment_retry_after_header (headers_of r))))),
                     call_inner req (st\<lparr>ft_governor := g\<rparr>)))))"

definition count_error :: "string \<Rightarrow> ('c, 'g) front_state \<Rightarrow> ('c, 'g) front_state" where
  "count_error m st = st\<lparr>ft_errors := (ft_errors st)(m := ft_errors st m + 1)\<rparr>"

text \<open>The stack of \<open>build_service_stack\<close> down to the global rate limit.\<close>

definition front_call ::
  "('c, 'g) front_env \<Rightarrow> cp_config \<Rightarrow> int \<Rightarrow> panic_payload \<Rightarrow> (front_request \<Rightarrow> (api_error, response) result) \<Rightarrow>
     (('c, 'g) front_state, api_error, reply) service" where
  "front_call E config now payload inner =
     catch_panic_layer (response_for_panic (fe_status_text E) (fe_display E) payload)
       (health_check_layer
         (timer_layer now
           (error_handler_layer (api_into_response (fe_status_text E) (fe_display E)) api_error_metric_of count_error
             (auth_layer E config
               (rate_limit_service E now inner)))))"

section \<open>Lemmas\<close>

lemma rate_limit_service_inner:
  "ft_inner (snd (rate_limit_service E now inner req st)) = ft_inner st \<or>
   ft_inner (snd (rate_limit_service E now inner req st)) = ft_inner st @ [req]"
  by (auto simp: rate_limit_service_def call_inner_def split: inner_layer.splits prod.splits sum.splits)

lemma error_handler_inner:
  "ft_inner (snd (error_handler_layer render metric count_error f req st)) = ft_inner (snd (f req st))"
  by (auto simp: error_handler_layer_def count_error_def split: prod.splits sum.splits abort.splits)

lemma error_handler_no_fail: "fst (error_handler_layer render metric upd f req st) \<noteq> Inl (Failed e)"
  by (auto simp: error_handler_layer_def split: prod.splits sum.splits abort.splits)

lemma catch_panic_state: "snd (catch_panic_layer p f req st) = snd (f req st)"
  by (auto simp: catch_panic_layer_def split: prod.splits sum.splits abort.splits)

lemma catch_panic_total:
  "(\<And>e. fst (f req st) \<noteq> Inl (Failed e)) \<Longrightarrow> \<exists>r. fst (catch_panic_layer p f req st) = Inr r"
  by (cases "f req st") (auto simp: catch_panic_layer_def split: sum.splits abort.splits)

text \<open>The front on a request that is no health check.\<close>

definition front_core ::
  "('c, 'g) front_env \<Rightarrow> cp_config \<Rightarrow> int \<Rightarrow> (front_request \<Rightarrow> (api_error, response) result) \<Rightarrow>
     (('c, 'g) front_state, api_error, reply) service" where
  "front_core E config now inner req =
     error_handler_layer (api_into_response (fe_status_text E) (fe_display E)) api_error_metric_of count_error
       (auth_layer E config (rate_limit_service E now inner)) (req\<lparr>fq_start := Some now\<rparr>)"

lemma front_call_core:
  "\<not> (fq_method req = ''GET'' \<and> fq_path req = ''/health'') \<Longrightarrow>
     front_call E config now payload inner req st =
       catch_panic_layer (response_for_panic (fe_status_text E) (fe_display E) payload)
         (\<lambda>r. front_core E config now inner req) req st"
  by (auto simp: front_call_def health_check_layer_def timer_layer_def front_core_def catch_panic_layer_def)

lemma front_call_health:
  "fq_method req = ''GET'' \<Longrightarrow> fq_path req = ''/health'' \<Longrightarrow>
     front_call E config now payload inner req st = (Inr (Reply healthy_response), st)"
  by (simp add: front_call_def health_check_layer_def catch_panic_layer_def hlift_def)

lemma front_core_rejected:
  "authorize (fe_crypto E) (fe_helicone E) config (fq_headers req) (ft_auth st) = (Inl er, mt) \<Longrightarrow>
     front_core E config now inner req st = (Inr (Reply_Error er), st\<lparr>ft_auth := mt\<rparr>)"
  by (simp add: front_core_def error_handler_layer_def auth_layer_def)

lemma front_core_inner:
  assumes "authorize (fe_crypto E) (fe_helicone E) config (fq_headers req) (ft_auth st) = (Inr ctx, mt)"
  shows "ft_inner (snd (front_core E config now inner req st)) = ft_inner st \<or>
    ft_inner (snd (front_core E config now inner req st)) = ft_inner st @
      [req\<lparr>fq_start := Some now, fq_auth := (case ctx of Some c \<Rightarrow> Some c | None \<Rightarrow> fq_auth req)\<rparr>]"
  using assms
    rate_limit_service_inner[of E now inner "req\<lparr>fq_start := Some now\<rparr>" "st\<lparr>ft_auth := mt\<rparr>"]
    rate_limit_service_inner[of E now inner "req\<lparr>fq_start := Some now, fq_auth := ctx\<rparr>" "st\<lparr>ft_auth := mt\<rparr>"]
  by (auto simp: front_core_def error_handler_inner auth_layer_def split: option.splits)

section \<open>Properties\<close>


text \<open>A rate limit without authentication closes the gateway: the key of a limiter is the user of the
  request, so that with authentication disabled a global limiter, over Redis or in memory, lets no
  request pass; the limiter over Redis answers each with 500.\<close>

theorem rate_limit_needs_auth:
  assumes "is_auth_disabled (fe_helicone E)" "fe_limiter E \<noteq> IL_None" "rr_pool (fe_redis E) = Inr ()"
    and "fq_auth req = None" "\<not> (fq_method req = ''GET'' \<and> fq_path req = ''/health'')"
  shows "ft_inner (snd (front_call E config now payload inner req st)) = ft_inner st \<and>
    (case fe_limiter E of
       IL_Redis limits url rid \<Rightarrow>
         (\<exists>er. fst (front_call E config now payload inner req st) = Inr (Reply_Error er) \<and> er_status er = 500)
     | _ \<Rightarrow> fst (front_call E config now payload inner req st) =
         Inr (Reply (increment_retry_after_header (fe_no_key E))))"
  using assms
  by (auto simp: front_call_core front_core_def error_handler_layer_def auth_layer_def authorize_def
      rate_limit_service_def to_rl_request_def get_user_id_def rl_make_request_def get_redis_rl_key_def
      catch_panic_layer_def count_error_def internal_into_response_def json_error_def split: inner_layer.splits)

definition sample_front :: "inner_layer \<Rightarrow> (redis_store, unit) front_env" where
  "sample_front l =
     \<lparr>fe_crypto = sample_crypto, fe_helicone = helicone_config_default Map.empty, fe_limiter = l,
      fe_redis = redis_model, fe_governor = (\<lambda>g k s. (Inr id, s)), fe_no_key = healthy_response\<lparr>rp_status := 500\<rparr>,
      fe_status_text = show_nat, fe_display = (\<lambda>e. [])\<rparr>"

definition sample_front_request :: "string \<Rightarrow> front_request" where
  "sample_front_request path =
     \<lparr>fq_method = ''POST'', fq_path = path, fq_headers = [], fq_auth = None, fq_start = None, fq_provider = None,
      fq_router_id = None, fq_context = None\<rparr>"

definition sample_front_state :: "(redis_store, unit) front_state" where
  "sample_front_state =
     \<lparr>ft_auth = \<lparr>am_attempts = 0, am_rejections = 0\<rparr>, ft_errors = (\<lambda>m. 0), ft_redis = (0, Map.empty),
      ft_governor = (), ft_inner = []\<rparr>"

theorem rate_limit_needs_auth_witness:
  "\<exists>er. fst (front_call (sample_front (IL_Redis \<lparr>lc_per_api_key = ten_per_second\<rparr> ''redis://localhost'' None))
      cp_config_default 0 Payload_Other (\<lambda>r. Inr healthy_response) (sample_front_request ''/ai'') sample_front_state) =
    Inr (Reply_Error er) \<and> er_status er = 500"
  using rate_limit_needs_auth[of "sample_front (IL_Redis \<lparr>lc_per_api_key = ten_per_second\<rparr> ''redis://localhost'' None)"
      "sample_front_request ''/ai''"]
  by (simp add: sample_front_def sample_front_request_def redis_model_def is_auth_disabled_def helicone_config_default_def)

text \<open>What the response headers layer shows of the provider.\<close>

lemma response_headers_shown:
  "header_get ''helicone-provider'' (tg_headers (response_header_future cfg resp)) =
     (case (rh_provider cfg, Option.bind (tg_provider resp) (\<lambda>p. header_value_from_str (provider_as_ref p))) of
        (True, Some v) \<Rightarrow> Some v
      | _ \<Rightarrow> header_get ''helicone-provider'' (tg_headers resp))"
  "header_get ''helicone-provider-req-id'' (tg_headers (response_header_future cfg resp)) =
     (case (rh_provider_request_id cfg, tg_provider_request_id resp) of
        (True, Some v) \<Rightarrow> Some v
      | _ \<Rightarrow> header_get ''helicone-provider-req-id'' (tg_headers resp))"
  by (auto simp: response_header_future_def set_header_def split: option.splits)

lemma response_headers_disabled:
  "\<not> rh_provider cfg \<Longrightarrow> \<not> rh_provider_request_id cfg \<Longrightarrow> response_header_future cfg resp = resp"
  by (simp add: response_header_future_def set_header_def)

lemma error_handler_poll_never_fails:
  "error_handler_poll render metric p = (q, ms) \<Longrightarrow> is_pending p = is_pending q \<and> length ms \<le> 1"
  by (cases "(render, metric, p)" rule: error_handler_poll.cases) auto

end
