(* ===== verification/Mapper_Service.thy ===== *)
theory Mapper_Service
  imports Dispatcher
begin

text \<open>
  The mapper middleware (\<open>middleware/mapper/service.rs\<close>) and the generic converter of bodies
  (\<open>TypedEndpointConverter\<close> of \<open>middleware/mapper/mod.rs\<close>). Parameters: the JSON reader and writer
  (\<open>serde_json\<close>), \<open>PathAndQuery::from_str\<close>, and the service behind the mapper.
\<close>

section \<open>Converters of bodies\<close>

text \<open>What a converter is made of: the derived readers and writers of the two endpoints and the conversions of
  requests, responses, chunks and errors, each of which may fail; that of a request may panic.\<close>

record ('sreq, 'treq, 'tresp, 'sresp, 'tchunk, 'schunk, 'terr, 'serr, 'd) typed_parts =
  tp_read_request :: "string \<Rightarrow> (string, 'sreq) result"
  tp_is_stream :: "'sreq \<Rightarrow> bool"
  tp_convert_request :: "'sreq \<Rightarrow> (mapper_error abort, 'treq) result"
  tp_model :: "'treq \<Rightarrow> (mapper_error, 'd model_id) result"
  tp_write_request :: "'treq \<Rightarrow> (string, string) result"
  tp_read_response :: "string \<Rightarrow> (string, 'tresp) result"
  tp_convert_response :: "'tresp \<Rightarrow> (mapper_error, 'sresp) result"
  tp_write_response :: "'sresp \<Rightarrow> (string, string) result"
  tp_read_chunk :: "string \<Rightarrow> (string, 'tchunk) result"
  tp_convert_chunk :: "'tchunk \<Rightarrow> (mapper_error, 'schunk option) result"
  tp_write_chunk :: "'schunk \<Rightarrow> (string, string) result"
  tp_read_error :: "string \<Rightarrow> (string, 'terr) result"
  tp_convert_error :: "nat \<Rightarrow> 'terr \<Rightarrow> (mapper_error, 'serr) result"
  tp_write_error :: "'serr \<Rightarrow> (string, string) result"
  tp_request_type :: string
  tp_response_type :: string
  tp_chunk_type :: string
  tp_error_type :: string

text \<open>The trait object \<open>EndpointConverter\<close>: it works on bytes.\<close>

record 'd endpoint_converter =
  ec_convert_req_body :: "string \<Rightarrow> (api_error abort, string \<times> 'd mapper_context) result"
  ec_convert_resp_body :: "nat \<Rightarrow> string \<Rightarrow> bool \<Rightarrow> (api_error, string option) result"

definition mapper_err :: "('a::type \<Rightarrow> internal_error) \<Rightarrow> ('a, 'b) result \<Rightarrow> (api_error, 'b) result" where
  "mapper_err f r = map_err (\<lambda>e. AE_Internal (f e)) r"

definition convert_req_body ::
  "('sreq, 'treq, 'tresp, 'sresp, 'tchunk, 'schunk, 'terr, 'serr, 'd) typed_parts \<Rightarrow> string \<Rightarrow>
     (api_error abort, string \<times> 'd mapper_context) result" where
  "convert_req_body T bytes =
     rbind (map_err (\<lambda>e. Failed (AE_InvalidRequest (InvalidRequestBody e))) (tp_read_request T bytes)) (\<lambda>source_request.
     rbind (map_err (lift_err (\<lambda>e. AE_Internal (MapperErr e))) (tp_convert_request T source_request)) (\<lambda>target_request.
     rbind (map_err Failed (mapper_err MapperErr (tp_model T target_request))) (\<lambda>model.
     rbind (map_err Failed (mapper_err (Serialize (tp_request_type T)) (tp_write_request T target_request))) (\<lambda>target_bytes.
       Inr (target_bytes, \<lparr>mx_is_stream = tp_is_stream T source_request, mx_model = Some model\<rparr>)))))"

definition convert_resp_body ::
  "('sreq, 'treq, 'tresp, 'sresp, 'tchunk, 'schunk, 'terr, 'serr, 'd) typed_parts \<Rightarrow> nat \<Rightarrow> string \<Rightarrow> bool \<Rightarrow>
     (api_error, string option) result" where
  "convert_resp_body T status bytes is_stream =
     (if is_stream then
        rbind (mapper_err (Deserialize (tp_chunk_type T)) (tp_read_chunk T bytes)) (\<lambda>chunk.
        rbind (mapper_err MapperErr (tp_convert_chunk T chunk)) (\<lambda>target.
          case target of
            Some c \<Rightarrow> rbind (mapper_err (Serialize (tp_response_type T)) (tp_write_chunk T c)) (\<lambda>b. Inr (Some b))
          | None \<Rightarrow> Inr None))
      else if is_client_error status \<or> is_server_error status then
        rbind (mapper_err (Deserialize (tp_error_type T)) (tp_read_error T bytes)) (\<lambda>err.
        rbind (mapper_err MapperErr (tp_convert_error T status err)) (\<lambda>target.
        rbind (mapper_err (Serialize (tp_response_type T)) (tp_write_error T target)) (\<lambda>b. Inr (Some b))))
      else
        rbind (mapper_err (Deserialize (tp_response_type T)) (tp_read_response T bytes)) (\<lambda>resp.
        rbind (mapper_err MapperErr (tp_convert_response T resp)) (\<lambda>target.
        rbind (mapper_err (Serialize (tp_response_type T)) (tp_write_response T target)) (\<lambda>b. Inr (Some b)))))"

definition typed_endpoint_converter ::
  "('sreq, 'treq, 'tresp, 'sresp, 'tchunk, 'schunk, 'terr, 'serr, 'd) typed_parts \<Rightarrow> 'd endpoint_converter" where
  "typed_endpoint_converter T =
     \<lparr>ec_convert_req_body = convert_req_body T, ec_convert_resp_body = convert_resp_body T\<rparr>"

text \<open>\<open>openai_error_from_status\<close>, with the types and codes of \<open>openai.rs\<close>.\<close>

record openai_error =
  oe_message :: string
  oe_code :: "string option"
  oe_param :: "string option"
  oe_type :: "string option"

definition get_error_type :: "nat \<Rightarrow> string" where
  "get_error_type status =
     (if status = 429 then ''tokens''
      else if is_client_error status then INVALID_REQUEST_ERROR_TYPE else SERVER_ERROR_TYPE)"

definition get_error_code :: "nat \<Rightarrow> string option" where
  "get_error_code status =
     (if status = 401 \<or> status = 403 then Some ''invalid_api_key''
      else if status = 429 then Some ''rate_limit_exceeded'' else None)"

definition openai_error_from_status :: "nat \<Rightarrow> string option \<Rightarrow> openai_error" where
  "openai_error_from_status status message =
     \<lparr>oe_message = (case message of Some m \<Rightarrow> m | None \<Rightarrow> get_error_type status),
      oe_code = get_error_code status, oe_param = None, oe_type = Some (get_error_type status)\<rparr>"

section \<open>The service\<close>

text \<open>The converters of the registry, its map, and the parser of paths; \<open>body_error\<close> prints the error of a
  frame.\<close>

record ('n, 'd) mapper_env =
  me_chrono :: "('n, 'd) chrono"
  me_registry :: converter_registry
  me_converter :: "converter \<Rightarrow> 'd endpoint_converter"
  me_path_and_query :: "string \<Rightarrow> (string, string) result"
  me_body_error :: "api_error \<Rightarrow> string"

definition query_of :: "string \<Rightarrow> string option" where
  "query_of pq = snd (splitn2 (CHR ''?'') pq)"

definition lookup_converter :: "('n, 'd) mapper_env \<Rightarrow> api_endpoint \<Rightarrow> api_endpoint \<Rightarrow> (api_error, 'd endpoint_converter) result" where
  "lookup_converter M source target =
     rbind (ok_or (AE_Internal (InvalidConverter source target)) (get_converter (me_registry M) source target))
       (\<lambda>c. Inr (me_converter M c))"

definition mapped_path ::
  "('n, 'd) mapper_env \<Rightarrow> api_endpoint \<Rightarrow> string \<Rightarrow> 'd mapper_context \<Rightarrow> (api_error, string) result" where
  "mapped_path M target pq ctx =
     rbind (map_err AE_Internal (endpoint_path (me_chrono M) target (mx_model ctx) (mx_is_stream ctx))) (\<lambda>base_path.
     mapper_err InvalidUri
       (me_path_and_query M (case query_of pq of Some q \<Rightarrow> base_path @ ''?'' @ q | None \<Rightarrow> base_path)))"

definition map_request ::
  "('n, 'd) mapper_env \<Rightarrow> api_endpoint \<Rightarrow> api_endpoint \<Rightarrow> string \<Rightarrow> 'd dispatch_request \<Rightarrow>
     (api_error abort, 'd dispatch_request) result" where
  "map_request M source target pq req =
     rbind (map_err Failed (mapper_err CollectBodyError (dq_body req))) (\<lambda>bytes.
     rbind (map_err Failed (lookup_converter M source target)) (\<lambda>conv.
     rbind (ec_convert_req_body conv bytes) (\<lambda>(body, ctx).
     rbind (map_err Failed (mapped_path M target pq ctx)) (\<lambda>path.
       Inr (req\<lparr>dq_body := Inr body, dq_path_and_query := Some path, dq_mapper_context := Some ctx,
                dq_api_endpoint := Some target\<rparr>)))))"

text \<open>A frame of a stream: an error of the body is wrapped, a chunk without a counterpart is left out, the others
  become events.\<close>

definition sse_frame :: "string \<Rightarrow> string" where
  "sse_frame data = ''data: '' @ data @ [CHR 0x0A, CHR 0x0A]"

fun map_frames ::
  "('n, 'd) mapper_env \<Rightarrow> (api_error, 'd endpoint_converter) result \<Rightarrow> nat \<Rightarrow> frames \<Rightarrow> frames" where
  "map_frames M conv status [] = []"
| "map_frames M conv status (Inl e # fs) =
     Inl (AE_Stream (SE_Body (me_body_error M e))) # map_frames M conv status fs"
| "map_frames M conv status (Inr bytes # fs) =
     (case rbind conv (\<lambda>c. ec_convert_resp_body c status bytes True) of
        Inl e \<Rightarrow> Inl e # map_frames M conv status fs
      | Inr (Some data) \<Rightarrow> Inr (sse_frame data) # map_frames M conv status fs
      | Inr None \<Rightarrow> map_frames M conv status fs)"

text \<open>Collecting a body: the first error, or all frames together.\<close>

fun collect_frames :: "('n, 'd) mapper_env \<Rightarrow> frames \<Rightarrow> (string, string) result" where
  "collect_frames M [] = Inr []"
| "collect_frames M (Inl e # fs) = Inl (me_body_error M e)"
| "collect_frames M (Inr b # fs) = rbind (collect_frames M fs) (\<lambda>r. Inr (b @ r))"

definition map_response ::
  "('n, 'd) mapper_env \<Rightarrow> api_endpoint \<Rightarrow> api_endpoint \<Rightarrow> 'd dispatch_response \<Rightarrow> (api_error, 'd dispatch_response) result" where
  "map_response M source target resp =
     (let is_stream = mx_is_stream (ds_mapper_context resp) in
      rbind (lookup_converter M target source) (\<lambda>conv.
        if is_stream then
          Inr (resp\<lparr>ds_body := map_frames M (lookup_converter M target source) (ds_status resp) (ds_body resp)\<rparr>)
        else
          rbind (mapper_err CollectBodyError (collect_frames M (ds_body resp))) (\<lambda>bytes.
          rbind (ec_convert_resp_body conv (ds_status resp) bytes is_stream) (\<lambda>body.
          rbind (ok_or (AE_Internal (MapperErr EmptyResponseBody)) body) (\<lambda>b.
            Inr (resp\<lparr>ds_body := [Inr b]\<rparr>))))))"

definition mapper_call ::
  "('n, 'd) mapper_env \<Rightarrow> ('d dispatch_request \<Rightarrow> ('s, api_error abort, 'd dispatch_response) handler) \<Rightarrow>
     'd dispatch_request \<Rightarrow> ('s, api_error abort, 'd dispatch_response) handler" where
  "mapper_call M inner req =
     hbind (hlift (
       rbind (ok_or (Failed (AE_Internal (ExtensionNotFound ''InferenceProvider''))) (dq_provider req)) (\<lambda>provider.
       rbind (ok_or (Failed (AE_Internal (ExtensionNotFound ''PathAndQuery''))) (dq_path_and_query req)) (\<lambda>pq.
       rbind (ok_or (Failed (AE_Internal (ExtensionNotFound ''ApiEndpoint''))) (dq_api_endpoint req)) (\<lambda>source.
       rbind (map_err (\<lambda>e. Failed (AE_InvalidRequest e)) (endpoint_mapped source provider)) (\<lambda>target.
       rbind (map_request M source target pq (req\<lparr>dq_path_and_query := None\<rparr>)) (\<lambda>req'.
         Inr (source, target, req')))))))) (\<lambda>(source, target, req').
     hbind (inner req') (\<lambda>resp.
       hlift (map_err Failed (map_response M target source resp))))"

section \<open>Interface: a converter of bodies\<close>

text \<open>
  What the mapper relies on: a body that is not a chunk of a stream always has a counterpart, and what a
  converter reports is never that a converter is missing.
\<close>

definition missing_converter :: "api_error \<Rightarrow> bool" where
  "missing_converter e \<longleftrightarrow> (\<exists>a b. e = AE_Internal (InvalidConverter a b))"

locale body_converter =
  fixes conv :: "'d endpoint_converter"
  assumes whole_body: "ec_convert_resp_body conv status b False = Inr r \<Longrightarrow> r \<noteq> None"
    and request_errors: "ec_convert_req_body conv b = Inl (Failed e) \<Longrightarrow> \<not> missing_converter e"
    and response_errors: "ec_convert_resp_body conv status b s = Inl e \<Longrightarrow> \<not> missing_converter e"
begin

lemma map_response_whole:
  assumes "lookup_converter M target source = Inr conv" "\<not> mx_is_stream (ds_mapper_context resp)"
    and "map_response M source target resp = Inr resp'"
  shows "\<exists>b. ds_body resp' = [Inr b] \<and> ds_status resp' = ds_status resp \<and> ds_headers resp' = ds_headers resp"
  using assms by (auto simp: map_response_def)

lemma map_response_not_empty:
  assumes "lookup_converter M target source = Inr conv" "collect_frames M (ds_body resp) = Inr bytes"
    and "ec_convert_resp_body conv (ds_status resp) bytes (mx_is_stream (ds_mapper_context resp)) = Inr r"
  shows "map_response M source target resp \<noteq> Inl (AE_Internal (MapperErr EmptyResponseBody))"
  using assms whole_body[of "ds_status resp" bytes r]
  by (cases "mx_is_stream (ds_mapper_context resp)") (auto simp: map_response_def mapper_err_def Let_def)

lemma map_response_has_converter:
  assumes "lookup_converter M target source = Inr conv" "map_response M source target resp = Inl e"
  shows "\<not> missing_converter e"
  using assms
  by (auto simp: map_response_def mapper_err_def Let_def rbind_Err_iff missing_converter_def
      dest!: response_errors split: if_splits)

end

lemma mapper_err_iff [simp]:
  "mapper_err f r = Inr x \<longleftrightarrow> r = Inr x"
  "mapper_err f r = Inl e \<longleftrightarrow> (\<exists>x. r = Inl x \<and> e = AE_Internal (f x))"
  by (auto simp: mapper_err_def)

lemma lift_err_Failed_iff: "Failed e = lift_err f a \<longleftrightarrow> (\<exists>x. a = Failed x \<and> e = f x)"
  by (cases a) auto

interpretation typed: body_converter "typed_endpoint_converter T" for T
proof
  fix status b s e r
  show "ec_convert_resp_body (typed_endpoint_converter T) status b False = Inr r \<Longrightarrow> r \<noteq> None"
    by (auto simp: typed_endpoint_converter_def convert_resp_body_def split: if_splits)
  show "ec_convert_req_body (typed_endpoint_converter T) b = Inl (Failed e) \<Longrightarrow> \<not> missing_converter e"
    by (auto simp: typed_endpoint_converter_def convert_req_body_def rbind_Err_iff missing_converter_def lift_err_Failed_iff)
  show "ec_convert_resp_body (typed_endpoint_converter T) status b s = Inl e \<Longrightarrow> \<not> missing_converter e"
    by (auto simp: typed_endpoint_converter_def convert_resp_body_def rbind_Err_iff missing_converter_def
        split: if_splits option.splits)
qed

section \<open>Lemmas\<close>

fun converter_provider :: "converter \<Rightarrow> inference_provider" where
  "converter_provider AnthropicConverter = P_Anthropic"
| "converter_provider GoogleGeminiConverter = P_GoogleGemini"
| "converter_provider OpenAIConverter = P_OpenAI"
| "converter_provider OllamaConverter = P_Ollama"
| "converter_provider BedrockConverter = P_Bedrock"

lemma registry_new_provider:
  assumes "endpoint_mapped e p = Inr e'"
  shows "\<exists>c. get_converter registry_new e e' = Some c \<and> converter_provider c = p"
proof -
  obtain x where e: "e = EP_OpenAI x" using assms
    by (auto simp: endpoint_mapped_def split: api_endpoint.splits inference_provider.splits)
  have "x = OpenAI_ChatCompletions" by (cases x) simp
  then show ?thesis using assms e
    by (cases p) (auto simp: endpoint_mapped_def get_converter_def registry_new_def register_converter_def Let_def)
qed

lemma lookup_mapped:
  assumes "me_registry M = registry_new" "endpoint_mapped e p = Inr e'"
  shows "\<exists>c. lookup_converter M e e' = Inr (me_converter M c) \<and> converter_provider c = p"
  using registry_new_provider[OF assms(2)] assms(1) by (auto simp: lookup_converter_def)

lemma map_request_Ok:
  assumes "map_request M source target pq req = Inr req'"
  shows "\<exists>bytes conv body ctx path. dq_body req = Inr bytes \<and> lookup_converter M source target = Inr conv \<and>
    ec_convert_req_body conv bytes = Inr (body, ctx) \<and> mapped_path M target pq ctx = Inr path \<and>
    req' = req\<lparr>dq_body := Inr body, dq_path_and_query := Some path, dq_mapper_context := Some ctx,
               dq_api_endpoint := Some target\<rparr>"
  using assms by (auto simp: map_request_def split: prod.splits)

lemma map_frames_converted:
  assumes "lookup_converter M source target = Inr c"
    and "\<forall>d \<in> set ds. \<exists>r. ec_convert_resp_body c status d True = Inr r"
  shows "map_frames M (lookup_converter M source target) status (map Inr ds) =
    map (\<lambda>x. Inr (sse_frame x))
      (List.map_filter (\<lambda>d. projr (ec_convert_resp_body c status d True)) ds)"
  using assms(2) by (induction ds) (auto simp: assms(1) List.map_filter_simps split: option.splits)

definition event_data :: "(eventsource_error, sse_event) result list \<Rightarrow> string list" where
  "event_data evs = List.map_filter (\<lambda>ev. case ev of Inr (SSE_Message d) \<Rightarrow> Some d | _ \<Rightarrow> None) evs"

lemma outgoing_extensions:
  "outgoing_request D N req url body = Inl (AE_Internal (ExtensionNotFound x)) \<Longrightarrow> cl_kind (di_client D) = CK_Bedrock"
  by (rule ccontr) (simp add: outgoing_request_def sign_headers_plain)

section \<open>Properties\<close>


definition sample_mapper :: "(string \<Rightarrow> (api_error, string option) result) \<Rightarrow> (ymd, ymd) mapper_env" where
  "sample_mapper conv =
     \<lparr>me_chrono = padded_calendar, me_registry = registry_new,
      me_converter = (\<lambda>c. \<lparr>ec_convert_req_body = (\<lambda>b. Inr (b, \<lparr>mx_is_stream = False, mx_model = None\<rparr>)),
                           ec_convert_resp_body = (\<lambda>s b is_stream. conv b)\<rparr>),
      me_path_and_query = Inr, me_body_error = (\<lambda>e. [])\<rparr>"

lemma sample_lookup:
  "lookup_converter (sample_mapper f) (EP_OpenAI OpenAI_ChatCompletions) (EP_Anthropic Anthropic_Messages) =
     Inr \<lparr>ec_convert_req_body = (\<lambda>b. Inr (b, \<lparr>mx_is_stream = False, mx_model = None\<rparr>)),
          ec_convert_resp_body = (\<lambda>s b is_stream. f b)\<rparr>"
  by (simp add: lookup_converter_def sample_mapper_def get_converter_def registry_new_def register_converter_def Let_def)

lemma sample_mapped:
  "map_request (sample_mapper f) (EP_OpenAI OpenAI_ChatCompletions) (EP_Anthropic Anthropic_Messages)
      ''/v1/chat/completions?beta=1'' (sample_dispatch False [] P_Anthropic) =
    Inr ((sample_dispatch False [] P_Anthropic)\<lparr>dq_body := Inr ''{}'', dq_path_and_query := Some ''/v1/messages?beta=1'',
      dq_mapper_context := Some \<lparr>mx_is_stream = False, mx_model = None\<rparr>,
      dq_api_endpoint := Some (EP_Anthropic Anthropic_Messages)\<rparr>)"
  by (simp add: map_request_def sample_lookup)
     (simp add: sample_dispatch_def mapped_path_def sample_mapper_def query_of_def mapper_err_def)


text \<open>C10. The mapper never lacks a converter: with the registry that the gateway builds, every endpoint that a
  request may have and every provider that the endpoint can be mapped to have one, and it is the one of
  that provider; so the error that a converter is missing is never an answer of the mapper.\<close>

theorem mapper_has_converter:
  assumes "me_registry M = registry_new" "\<And>c. body_converter (me_converter M c)"
    and "endpoint_mapped source p = Inr target"
  shows "(\<exists>c. converter_provider c = p \<and> lookup_converter M source target = Inr (me_converter M c)) \<and>
    (\<forall>pq req e. map_request M source target pq req = Inl (Failed e) \<longrightarrow> \<not> missing_converter e) \<and>
    (\<forall>resp e. map_response M target source resp = Inl e \<longrightarrow> \<not> missing_converter e)"
proof -
  obtain c where c: "lookup_converter M source target = Inr (me_converter M c)" "converter_provider c = p"
    using lookup_mapped[OF assms(1,3)] by blast
  note conv = assms(2)[of c]
  have path: "mapped_path M target pq ctx \<noteq> Inl (AE_Internal (InvalidConverter x y))" for pq ctx x y
    by (cases target) (auto simp: mapped_path_def rbind_Err_iff split: option.splits)
  have body: "ec_convert_req_body (me_converter M c) b \<noteq> Inl (Failed (AE_Internal (InvalidConverter x y)))" for b x y
    using body_converter.request_errors[OF conv, of b "AE_Internal (InvalidConverter x y)"]
    by (auto simp: missing_converter_def)
  have "\<not> missing_converter e" if "map_request M source target pq req = Inl (Failed e)" for pq req e
    using that c(1) by (auto simp: map_request_def rbind_Err_iff missing_converter_def path body)
  moreover have "\<not> missing_converter e" if "map_response M target source resp = Inl e" for resp e
    using body_converter.map_response_has_converter[OF conv c(1)] that by blast
  ultimately show ?thesis using c by blast
qed

definition plain_parts :: "(string, string, string, string, string, string, string, string, ymd) typed_parts" where
  "plain_parts =
     \<lparr>tp_read_request = Inr, tp_is_stream = (\<lambda>r. False), tp_convert_request = Inr, tp_model = (\<lambda>r. Inr sample_gpt),
      tp_write_request = Inr, tp_read_response = Inr, tp_convert_response = Inr, tp_write_response = Inr,
      tp_read_chunk = Inr, tp_convert_chunk = (\<lambda>c. Inr (Some c)), tp_write_chunk = Inr,
      tp_read_error = (\<lambda>b. Inl ''expected value''), tp_convert_error = (\<lambda>s. Inr), tp_write_error = Inr,
      tp_request_type = ''Request'', tp_response_type = ''Response'', tp_chunk_type = ''Chunk'', tp_error_type = ''Error''\<rparr>"

definition plain_mapper :: "(ymd, ymd) mapper_env" where
  "plain_mapper = (sample_mapper (\<lambda>b. Inr None))\<lparr>me_converter := (\<lambda>c. typed_endpoint_converter plain_parts)\<rparr>"

theorem mapper_has_converter_witness:
  "\<exists>c. converter_provider c = P_Ollama \<and>
     lookup_converter plain_mapper (EP_OpenAI OpenAI_ChatCompletions) (EP_Ollama Ollama_ChatCompletions) =
       Inr (me_converter plain_mapper c)"
  by (rule mapper_has_converter[THEN conjunct1])
     (simp_all add: plain_mapper_def sample_mapper_def endpoint_mapped_def typed.body_converter_axioms)

text \<open>An error of the provider whose body is not the error object that its API documents, a page of a proxy for
  instance, is not reported as such: the mapper fails to read it, and the caller gets an internal
  error with status 500 whatever the status of the provider was, a 404 or a 429 included.\<close>

theorem unreadable_error_hides_status:
  assumes "lookup_converter M source target = Inr (typed_endpoint_converter T)"
    and "\<not> mx_is_stream (ds_mapper_context resp)" "is_client_error (ds_status resp) \<or> is_server_error (ds_status resp)"
    and "collect_frames M (ds_body resp) = Inr bytes" "tp_read_error T bytes = Inl e"
  shows "\<exists>er. map_response M target source resp = Inl er \<and> er_status (api_into_response status display er) = 500"
  using assms
  by (auto simp: map_response_def typed_endpoint_converter_def convert_resp_body_def mapper_err_def
      internal_into_response_def json_error_def)

theorem unreadable_error_hides_status_witness:
  "\<exists>er. map_response plain_mapper (EP_Ollama Ollama_ChatCompletions) (EP_OpenAI OpenAI_ChatCompletions)
      \<lparr>ds_status = 429, ds_headers = [], ds_body = [Inr ''<html>''], ds_provider = P_Ollama, ds_router_id = None,
       ds_auth_context = None, ds_provider_request_id = None,
       ds_mapper_context = \<lparr>mx_is_stream = False, mx_model = None\<rparr>, ds_path_and_query = []\<rparr> = Inl er \<and>
    er_status (api_into_response show_nat (\<lambda>e. []) er) = 500"
  by (rule unreadable_error_hides_status[where T = plain_parts and bytes = "''<html>''" and e = "''expected value''"])
     (simp_all add: plain_mapper_def sample_mapper_def lookup_converter_def get_converter_def registry_new_def
        register_converter_def Let_def plain_parts_def)

text \<open>C13. A stream from end to end: of the events of a provider, none of them an error, the client gets those data
  that the converter of the provider has a counterpart for, in their order and each as one event, up
  to the first \<open>[DONE]\<close>. The end marker itself is not passed on.\<close>

theorem stream_end_to_end:
  assumes "\<forall>ev \<in> set rest. \<exists>x. ev = Inr x" "lookup_converter M source target = Inr c"
    and "\<forall>d \<in> set (event_data rest). \<exists>r. ec_convert_resp_body c status d True = Inr r"
  shows "\<exists>fs. sse_stream sb (Inr SSE_Open # rest) = Inr fs \<and>
    map_frames M (lookup_converter M source target) status fs =
      map (\<lambda>x. Inr (sse_frame x))
        (List.map_filter (\<lambda>d. projr (ec_convert_resp_body c status d True)) (takeWhile (\<lambda>d. d \<noteq> DONE) (event_data rest)))"
proof -
  have "sse_stream sb (Inr SSE_Open # rest) = Inr (map Inr (takeWhile (\<lambda>d. d \<noteq> DONE) (event_data rest)))"
    using sse_loop_no_errors[OF assms(1), of sb] by (simp add: sse_stream_def event_data_def)
  moreover have "\<forall>d \<in> set (takeWhile (\<lambda>d. d \<noteq> DONE) (event_data rest)). \<exists>r. ec_convert_resp_body c status d True = Inr r"
    using assms(3) set_takeWhileD by fastforce
  ultimately show ?thesis using map_frames_converted[OF assms(2)] by blast
qed

theorem stream_end_to_end_witness:
  "\<exists>fs. sse_stream (\<lambda>e. Inr []) [Inr SSE_Open, Inr (SSE_Message ''{}''), Inr (SSE_Message ''[DONE]'')] = Inr fs \<and>
    map_frames plain_mapper (lookup_converter plain_mapper (EP_OpenAI OpenAI_ChatCompletions) (EP_Ollama Ollama_ChatCompletions))
      200 fs = [Inr (sse_frame ''{}'')]"
  using stream_end_to_end[of "[Inr (SSE_Message ''{}''), Inr (SSE_Message ''[DONE]'')]" plain_mapper
      "EP_OpenAI OpenAI_ChatCompletions" "EP_Ollama Ollama_ChatCompletions" "typed_endpoint_converter plain_parts" 200 "\<lambda>e. Inr []"]
  by (simp add: plain_mapper_def sample_mapper_def lookup_converter_def get_converter_def registry_new_def
      register_converter_def Let_def typed_endpoint_converter_def convert_resp_body_def plain_parts_def event_data_def
      List.map_filter_simps DONE_def mapper_err_def)

end
