(* ===== verification/Chat_Types.thy ===== *)
theory Chat_Types
  imports Config
begin

text \<open>
  The bodies of the OpenAI and the Anthropic chat endpoints, with the constructors and fields that the
  converters of the gateway name. JSON values, the \<open>f32\<close> numbers and the fields of a request that no
  converter looks at are type parameters. And the converters between endpoints of the same body
  (\<open>openai.rs\<close>, \<open>gemini.rs\<close>, \<open>ollama.rs\<close> of \<open>middleware/mapper/\<close>), which only map the model.
\<close>

section \<open>OpenAI\<close>

datatype oa_role = OR_System | OR_User | OR_Assistant | OR_Tool | OR_Function

datatype finish_reason = FR_Stop | FR_Length | FR_ToolCalls | FR_FunctionCall | FR_ContentFilter

text \<open>Token counts; the details of the prompt are its cached tokens.\<close>

record oa_usage =
  us_prompt_tokens :: "32 word"
  us_completion_tokens :: "32 word"
  us_total_tokens :: "32 word"
  us_prompt_details :: "32 word option option"

text \<open>The function of a tool, a call of a tool, and the choice of a tool.\<close>

record 'j oa_function =
  of_name :: string
  of_description :: "string option"
  of_parameters :: "'j option"

record tool_call =
  tc_id :: string
  tc_name :: string
  tc_arguments :: string

datatype oa_tool_choice = OT_Named string | OT_Auto | OT_Required | OT_None

datatype oa_stop = Stop_String string | Stop_Array "string list"

datatype user_part = UP_Text string | UP_ImageUrl string | UP_InputAudio
datatype user_content = UC_Text string | UC_Array "user_part list"
datatype assistant_part = AP_Text string | AP_Refusal string
datatype assistant_content = AC_Text string | AC_Array "assistant_part list"
datatype tool_content = TL_Text string | TL_Array "string list"

datatype oa_message =
    OM_Developer message_content
  | OM_System message_content
  | OM_User user_content
  | OM_Assistant "assistant_content option" "tool_call list option"
  | OM_Tool (om_tool_call_id: string) tool_content
  | OM_Function (om_function_name: string)

text \<open>\<open>CreateChatCompletionRequest\<close>; \<open>or_rest\<close> are the fields that no converter reads.\<close>

record ('f, 'j, 'x) oa_request =
  or_model :: string
  or_messages :: "oa_message list"
  or_max_completion_tokens :: "32 word option"
  or_max_tokens :: "32 word option"
  or_temperature :: "'f option"
  or_top_p :: "'f option"
  or_stop :: "oa_stop option"
  or_stream :: "bool option"
  or_tools :: "'j oa_function list option"
  or_tool_choice :: "oa_tool_choice option"
  or_user :: "string option"
  or_rest :: 'x

record oa_response_message =
  rm_content :: "string option"
  rm_refusal :: "string option"
  rm_tool_calls :: "tool_call list option"

record oa_choice =
  ch_index :: "32 word"
  ch_message :: oa_response_message
  ch_finish_reason :: "finish_reason option"

record oa_response =
  rs_id :: string
  rs_model :: string
  rs_object :: string
  rs_created :: "32 word"
  rs_choices :: "oa_choice list"
  rs_usage :: "oa_usage option"

record tool_call_chunk =
  kk_index :: "32 word"
  kk_id :: "string option"
  kk_name :: "string option"
  kk_arguments :: "string option"

record oa_delta =
  dl_role :: "oa_role option"
  dl_content :: "string option"
  dl_tool_calls :: "tool_call_chunk list option"
  dl_refusal :: "string option"

record oa_choice_stream =
  sc_index :: "32 word"
  sc_delta :: oa_delta
  sc_finish_reason :: "finish_reason option"

record oa_chunk =
  ck_id :: string
  ck_model :: string
  ck_object :: string
  ck_created :: "32 word"
  ck_choices :: "oa_choice_stream list"
  ck_usage :: "oa_usage option"

text \<open>The part of a request that \<open>system_prompt\<close> and \<open>is_stream\<close> look at.\<close>

fun chat_message_of :: "oa_message \<Rightarrow> chat_message" where
  "chat_message_of (OM_Developer c) = CM_Developer c"
| "chat_message_of (OM_System c) = CM_System c"
| "chat_message_of (OM_User c) = CM_User"
| "chat_message_of (OM_Assistant c t) = CM_Assistant"
| "chat_message_of (OM_Tool i c) = CM_Tool"
| "chat_message_of (OM_Function n) = CM_Function"

definition chat_request_of :: "('f, 'j, 'x) oa_request \<Rightarrow> chat_request" where
  "chat_request_of r =
     \<lparr>cr_model = or_model r, cr_stream = or_stream r, cr_messages = map chat_message_of (or_messages r)\<rparr>"

section \<open>Anthropic\<close>

datatype an_role = AR_User | AR_Assistant

record image_source =
  im_type :: string
  im_media_type :: string
  im_data :: string

datatype 'j content_block =
    CB_Text string
  | CB_Image image_source
  | CB_ToolUse string string 'j
  | CB_ToolResult string string
  | CB_Thinking
  | CB_RedactedThinking

datatype 'j an_content = AN_Text string | AN_Blocks "'j content_block list"

record 'j an_message =
  nm_role :: an_role
  nm_content :: "'j an_content"

record 'j an_tool =
  nt_name :: string
  nt_description :: "string option"
  nt_input_schema :: 'j

datatype an_tool_choice = AT_Tool string | AT_Auto | AT_Any | AT_None

text \<open>\<open>CreateMessageParams\<close>; \<open>nr_thinking\<close> is the budget of enabled thinking.\<close>

record ('f, 'j) an_request =
  nr_max_tokens :: "32 word"
  nr_messages :: "'j an_message list"
  nr_model :: string
  nr_system :: "string option"
  nr_temperature :: "'f option"
  nr_stop_sequences :: "string list option"
  nr_stream :: "bool option"
  nr_top_k :: "32 word option"
  nr_top_p :: "'f option"
  nr_tools :: "'j an_tool list option"
  nr_tool_choice :: "an_tool_choice option"
  nr_metadata :: "(string \<times> string) list option"
  nr_thinking :: "nat option"

record an_usage =
  nu_input_tokens :: "32 word"
  nu_output_tokens :: "32 word"

datatype stop_reason = SR_EndTurn | SR_StopSequence | SR_MaxTokens | SR_ToolUse | SR_Refusal

text \<open>\<open>CreateMessageResponse\<close>, which has the fields of the content of a \<open>MessageStart\<close> too.\<close>

record 'j an_response =
  ns_id :: string
  ns_model :: string
  ns_role :: an_role
  ns_content :: "'j content_block list"
  ns_stop_reason :: "stop_reason option"
  ns_stop_sequence :: "string option"
  ns_usage :: an_usage
  ns_type :: string

datatype block_delta = BD_Text string | BD_InputJson string | BD_Thinking | BD_Signature

datatype 'j stream_event =
    EV_MessageStart "'j an_response"
  | EV_ContentBlockStart nat "'j content_block"
  | EV_ContentBlockDelta nat block_delta
  | EV_ContentBlockStop nat
  | EV_MessageDelta "stop_reason option" "string option" "an_usage option"
  | EV_MessageStop
  | EV_Ping
  | EV_Error string

section \<open>Converters that only map the model\<close>

definition mapped_model_name ::
  "('n, 'd) chrono \<Rightarrow> 'w config \<Rightarrow> 'w router_config option \<Rightarrow> inference_provider \<Rightarrow> string \<Rightarrow> (mapper_error, string) result" where
  "mapped_model_name ch cfg rc p name =
     rbind (model_id_from_str ch name) (\<lambda>source_model.
     rbind (map_model ch cfg rc source_model p) (\<lambda>target_model.
       Inr (model_id_display ch target_model)))"

definition openai_request ::
  "('n, 'd) chrono \<Rightarrow> 'w config \<Rightarrow> 'w router_config option \<Rightarrow> ('f, 'j, 'x) oa_request \<Rightarrow> (mapper_error, ('f, 'j, 'x) oa_request) result" where
  "openai_request ch cfg rc req =
     rbind (mapped_model_name ch cfg rc P_OpenAI (or_model req)) (\<lambda>m. Inr (req\<lparr>or_model := m\<rparr>))"

definition gemini_request ::
  "('n, 'd) chrono \<Rightarrow> 'w config \<Rightarrow> 'w router_config option \<Rightarrow> ('f, 'j, 'x) oa_request \<Rightarrow> (mapper_error, ('f, 'j, 'x) oa_request) result" where
  "gemini_request ch cfg rc req =
     rbind (mapped_model_name ch cfg rc P_GoogleGemini (or_model req)) (\<lambda>m. Inr (req\<lparr>or_model := m\<rparr>))"

definition ollama_request ::
  "('n, 'd) chrono \<Rightarrow> 'w config \<Rightarrow> 'w router_config option \<Rightarrow> ('f, 'j, 'x) oa_request \<Rightarrow> (mapper_error, ('f, 'j, 'x) oa_request) result" where
  "ollama_request ch cfg rc req =
     rbind (mapped_model_name ch cfg rc P_Ollama (or_model req)) (\<lambda>m. Inr (req\<lparr>or_model := m\<rparr>))"

text \<open>Responses, chunks and errors of these endpoints are those of OpenAI.\<close>

definition same_response :: "'a \<Rightarrow> (mapper_error, 'a) result" where
  "same_response r = Inr r"

definition same_chunk :: "'a \<Rightarrow> (mapper_error, 'a option) result" where
  "same_chunk c = Inr (Some c)"

definition same_error :: "nat \<Rightarrow> 'a \<Rightarrow> (mapper_error, 'a) result" where
  "same_error status e = Inr e"

text \<open>\<open>AiRequest::model\<close> of a converted request.\<close>

definition request_model ::
  "('n, 'd) chrono \<Rightarrow> inference_provider \<Rightarrow> ('f, 'j, 'x) oa_request \<Rightarrow> (mapper_error, 'd model_id) result" where
  "request_model ch p req = from_str_and_provider ch p (or_model req)"

text \<open>\<open>u32::try_from(index).unwrap_or(0)\<close> of a \<open>usize\<close>.\<close>

definition u32_or_0 :: "nat \<Rightarrow> 32 word" where
  "u32_or_0 n = (if n < 2 ^ 32 then of_nat n else 0)"

section \<open>What the converters share\<close>

text \<open>JSON: the default value and the writers of values, of texts and of optional texts.\<close>

record 'j json_ops =
  js_default :: 'j
  js_write :: "'j \<Rightarrow> (string, string) result"
  js_write_text :: "string \<Rightarrow> (string, string) result"
  js_write_text_option :: "string option \<Rightarrow> (string, string) result"

definition OPENAI_CHAT_COMPLETION_OBJECT :: string where "OPENAI_CHAT_COMPLETION_OBJECT = ''chat.completion''"
definition CHAT_COMPLETION_CHUNK_OBJECT :: string where "CHAT_COMPLETION_CHUNK_OBJECT = ''chat.completion.chunk''"
definition DEFAULT_MAX_TOKENS :: "32 word" where "DEFAULT_MAX_TOKENS = 2000"

fun stop_list :: "oa_stop \<Rightarrow> string list" where
  "stop_list (Stop_String s) = [s]"
| "stop_list (Stop_Array ss) = ss"

definition delta_empty :: oa_delta where
  "delta_empty = \<lparr>dl_role = None, dl_content = None, dl_tool_calls = None, dl_refusal = None\<rparr>"

text \<open>The text of a chunk.\<close>

definition chunk_text :: "oa_chunk \<Rightarrow> string" where
  "chunk_text c = concat (map (\<lambda>ch. case dl_content (sc_delta ch) of Some t \<Rightarrow> t | None \<Rightarrow> []) (ck_choices c))"

text \<open>\<open>filter_map\<close> with a function that may panic.\<close>

fun filter_map_try :: "('a \<Rightarrow> ('e, 'b option) result) \<Rightarrow> 'a list \<Rightarrow> ('e, 'b list) result" where
  "filter_map_try f [] = Inr []"
| "filter_map_try f (x # xs) =
     rbind (f x) (\<lambda>y. rbind (filter_map_try f xs) (\<lambda>ys. Inr (case y of Some b \<Rightarrow> b # ys | None \<Rightarrow> ys)))"

lemma filter_map_try_Ok:
  "filter_map_try f xs = Inr ys \<longleftrightarrow>
     (\<exists>zs. list_all2 (\<lambda>x z. f x = Inr z) xs zs \<and> ys = List.map_filter (\<lambda>z. z) zs)"
proof (induction xs arbitrary: ys)
  case Nil
  then show ?case by (auto simp: List.map_filter_simps)
next
  case (Cons x xs)
  show ?case
  proof
    assume "filter_map_try f (x # xs) = Inr ys"
    then obtain z ys' where z: "f x = Inr z" "filter_map_try f xs = Inr ys'"
      "ys = (case z of Some b \<Rightarrow> b # ys' | None \<Rightarrow> ys')" by auto
    then obtain zs where "list_all2 (\<lambda>x z. f x = Inr z) xs zs" "ys' = List.map_filter (\<lambda>z. z) zs"
      using Cons.IH by blast
    then have "list_all2 (\<lambda>x z. f x = Inr z) (x # xs) (z # zs) \<and> ys = List.map_filter (\<lambda>z. z) (z # zs)"
      using z by (auto simp: List.map_filter_simps split: option.splits)
    then show "\<exists>zs. list_all2 (\<lambda>x z. f x = Inr z) (x # xs) zs \<and> ys = List.map_filter (\<lambda>z. z) zs" by blast
  next
    assume "\<exists>zs. list_all2 (\<lambda>x z. f x = Inr z) (x # xs) zs \<and> ys = List.map_filter (\<lambda>z. z) zs"
    then obtain z zs where "f x = Inr z" "list_all2 (\<lambda>x z. f x = Inr z) xs zs" "ys = List.map_filter (\<lambda>z. z) (z # zs)"
      by (auto simp: list_all2_Cons1)
    then show "filter_map_try f (x # xs) = Inr ys"
      using Cons.IH[of "List.map_filter (\<lambda>z. z) zs"] by (auto simp: List.map_filter_simps split: option.splits)
  qed
qed

lemma filter_map_try_filter:
  assumes "\<And>x. \<not> P x \<Longrightarrow> f x = Inr None"
  shows "filter_map_try f (filter P xs) = filter_map_try f xs"
proof (induction xs)
  case (Cons x xs)
  then show ?case using assms[of x] by (cases "P x"; cases "filter_map_try f xs") auto
qed simp

text \<open>The prompts of a conversation.\<close>

fun is_prompt :: "oa_message \<Rightarrow> bool" where
  "is_prompt (OM_Developer c) = True"
| "is_prompt (OM_System c) = True"
| "is_prompt m = False"

end
