(* ===== verification/Anthropic_Mapper.thy ===== *)
theory Anthropic_Mapper
  imports Chat_Types Mapper_Service
begin

text \<open>
  The converter between the OpenAI and the Anthropic endpoint (\<open>middleware/mapper/anthropic.rs\<close>):
  requests, responses and the chunks of a stream. Parameters: writing JSON, decoding base64, and the
  detection of a media type from the first bytes of a file.
\<close>

section \<open>Parameters\<close>

record data_uri_ops =
  du_base64 :: "string \<Rightarrow> string option"
  du_infer :: "string \<Rightarrow> string option"

definition PLACEHOLDER_STREAM_ID :: string where "PLACEHOLDER_STREAM_ID = ''anthropic-stream-id''"
definition PLACEHOLDER_MODEL_NAME :: string where "PLACEHOLDER_MODEL_NAME = ''anthropic-model''"
section \<open>Requests\<close>

text \<open>The version that Anthropic's aliases need, whatever version the mapped model has.\<close>

fun anthropic_alias :: "'d model_id \<Rightarrow> 'd model_id" where
  "anthropic_alias (ModelIdWithVersion P_Anthropic m) =
     ModelIdWithVersion P_Anthropic
       (m\<lparr>mv_version := (if str_contains ''claude-3'' (mv_model m) then Latest else ImplicitLatest)\<rparr>)"
| "anthropic_alias m = m"

definition anthropic_target_model ::
  "('n, 'd) chrono \<Rightarrow> 'w config \<Rightarrow> 'w router_config option \<Rightarrow> string \<Rightarrow> (mapper_error, 'd model_id) result" where
  "anthropic_target_model ch cfg rc name =
     rbind (model_id_from_str ch name) (\<lambda>source_model.
     rbind (map_model ch cfg rc source_model P_Anthropic) (\<lambda>target_model.
       Inr (anthropic_alias target_model)))"

text \<open>\<open>mime_from_data_uri\<close>: the slice of the first 64 bytes panics inside a character.\<close>

definition continuation_byte :: "char \<Rightarrow> bool" where
  "continuation_byte c \<longleftrightarrow> 128 \<le> (of_char c :: nat) \<and> (of_char c :: nat) < 192"

definition mime_from_data_uri :: "data_uri_ops \<Rightarrow> string \<Rightarrow> ('e abort, string option) result" where
  "mime_from_data_uri U uri =
     (case splitn2 (CHR '','') uri of
        (_, None) \<Rightarrow> Inr None
      | (_, Some b64) \<Rightarrow>
          if 64 < length b64 \<and> continuation_byte (b64 ! 64) then Inl Panicked
          else Inr (Option.bind (du_base64 U (take 64 b64)) (du_infer U)))"

definition image_block :: "data_uri_ops \<Rightarrow> string \<Rightarrow> ('e abort, 'j content_block option) result" where
  "image_block U url =
     (if starts_with ''http'' url
      then Inr (Some (CB_Image \<lparr>im_type = ''url'', im_media_type = [], im_data = url\<rparr>))
      else rbind (mime_from_data_uri U url) (\<lambda>mime.
        Inr (Option.bind mime (\<lambda>media_type.
          map_option (\<lambda>b64. CB_Image \<lparr>im_type = ''base64'', im_media_type = media_type, im_data = b64\<rparr>)
            (snd (splitn2 (CHR '','') url))))))"

fun user_block :: "data_uri_ops \<Rightarrow> user_part \<Rightarrow> ('e abort, 'j content_block option) result" where
  "user_block U (UP_Text t) = Inr (Some (CB_Text t))"
| "user_block U (UP_ImageUrl url) = image_block U url"
| "user_block U UP_InputAudio = Inr None"

fun assistant_block :: "assistant_part \<Rightarrow> 'j content_block" where
  "assistant_block (AP_Text t) = CB_Text t"
| "assistant_block (AP_Refusal t) = CB_Text t"

text \<open>The message that a message becomes, if any: prompts are in the request already, an assistant message
  without content is left out, and so is a function that is no tool of the request.\<close>

fun anthropic_message ::
  "data_uri_ops \<Rightarrow> 'j an_tool list option \<Rightarrow> oa_message \<Rightarrow> ('e abort, 'j an_message option) result" where
  "anthropic_message U tools (OM_Developer c) = Inr None"
| "anthropic_message U tools (OM_System c) = Inr None"
| "anthropic_message U tools (OM_User (UC_Text t)) = Inr (Some \<lparr>nm_role = AR_User, nm_content = AN_Text t\<rparr>)"
| "anthropic_message U tools (OM_User (UC_Array parts)) =
     rbind (filter_map_try (user_block U) parts) (\<lambda>blocks.
       Inr (Some \<lparr>nm_role = AR_User, nm_content = AN_Blocks blocks\<rparr>))"
| "anthropic_message U tools (OM_Assistant None calls) = Inr None"
| "anthropic_message U tools (OM_Assistant (Some (AC_Text t)) calls) =
     Inr (Some \<lparr>nm_role = AR_Assistant, nm_content = AN_Text t\<rparr>)"
| "anthropic_message U tools (OM_Assistant (Some (AC_Array parts)) calls) =
     Inr (Some \<lparr>nm_role = AR_Assistant, nm_content = AN_Blocks (map assistant_block parts)\<rparr>)"
| "anthropic_message U tools (OM_Tool call_id (TL_Text t)) =
     Inr (Some \<lparr>nm_role = AR_Assistant, nm_content = AN_Blocks [CB_ToolResult call_id t]\<rparr>)"
| "anthropic_message U tools (OM_Tool call_id (TL_Array ts)) =
     Inr (Some \<lparr>nm_role = AR_Assistant, nm_content = AN_Blocks (map (CB_ToolResult call_id) ts)\<rparr>)"
| "anthropic_message U tools (OM_Function name) =
     Inr (map_option (\<lambda>tool. \<lparr>nm_role = AR_Assistant,
            nm_content = AN_Blocks [CB_ToolUse name (nt_name tool) (nt_input_schema tool)]\<rparr>)
       (Option.bind tools (find (\<lambda>tool. nt_name tool = name))))"

definition anthropic_tool :: "'j json_ops \<Rightarrow> 'j oa_function \<Rightarrow> 'j an_tool" where
  "anthropic_tool J f =
     \<lparr>nt_name = of_name f, nt_description = of_description f,
      nt_input_schema = (case of_parameters f of Some p \<Rightarrow> p | None \<Rightarrow> js_default J)\<rparr>"

fun anthropic_tool_choice :: "oa_tool_choice \<Rightarrow> an_tool_choice" where
  "anthropic_tool_choice (OT_Named n) = AT_Tool n"
| "anthropic_tool_choice OT_Auto = AT_Auto"
| "anthropic_tool_choice OT_Required = AT_Any"
| "anthropic_tool_choice OT_None = AT_None"

definition anthropic_request ::
  "('n, 'd) chrono \<Rightarrow> 'w config \<Rightarrow> 'w router_config option \<Rightarrow> 'j json_ops \<Rightarrow> data_uri_ops \<Rightarrow> ('f, 'j, 'x) oa_request \<Rightarrow>
     (mapper_error abort, ('f, 'j) an_request) result" where
  "anthropic_request ch cfg rc J U req =
     (let tools = map_option (map (anthropic_tool J)) (or_tools req) in
      rbind (map_err Failed (anthropic_target_model ch cfg rc (or_model req))) (\<lambda>target_model.
      rbind (filter_map_try (anthropic_message U tools) (or_messages req)) (\<lambda>messages.
        Inr \<lparr>nr_max_tokens = (case or_max_completion_tokens req of
                Some n \<Rightarrow> n
              | None \<Rightarrow> (case or_max_tokens req of Some n \<Rightarrow> n | None \<Rightarrow> DEFAULT_MAX_TOKENS)),
             nr_messages = messages, nr_model = model_id_display ch target_model,
             nr_system = system_prompt (chat_request_of req), nr_temperature = or_temperature req,
             nr_stop_sequences = map_option stop_list (or_stop req), nr_stream = or_stream req, nr_top_k = None,
             nr_top_p = or_top_p req, nr_tools = tools,
             nr_tool_choice = map_option anthropic_tool_choice (or_tool_choice req),
             nr_metadata = map_option (\<lambda>user. [(''user_id'', user)]) (or_user req), nr_thinking = None\<rparr>)))"

section \<open>Responses\<close>

text \<open>The loop over the content blocks: the calls of tools so far and the text.\<close>

fun response_content ::
  "'j json_ops \<Rightarrow> 'j content_block list \<Rightarrow> tool_call list \<Rightarrow> string option \<Rightarrow>
     (mapper_error, tool_call list \<times> string option) result" where
  "response_content J [] calls content = Inr (calls, content)"
| "response_content J (CB_ToolUse i n input # bs) calls content =
     rbind (map_err SerdeError (js_write J input)) (\<lambda>arguments.
       response_content J bs (calls @ [\<lparr>tc_id = i, tc_name = n, tc_arguments = arguments\<rparr>]) content)"
| "response_content J (CB_ToolResult i c # bs) calls content =
     rbind (map_err SerdeError (js_write_text J c)) (\<lambda>arguments.
       response_content J bs (calls @ [\<lparr>tc_id = i, tc_name = i, tc_arguments = arguments\<rparr>]) content)"
| "response_content J (CB_Text t # bs) calls content = response_content J bs calls (Some t)"
| "response_content J (CB_Image s # bs) calls content = response_content J bs calls content"
| "response_content J (CB_Thinking # bs) calls content = response_content J bs calls content"
| "response_content J (CB_RedactedThinking # bs) calls content = response_content J bs calls content"

definition openai_usage :: "an_usage \<Rightarrow> oa_usage" where
  "openai_usage u =
     \<lparr>us_prompt_tokens = nu_input_tokens u, us_completion_tokens = nu_output_tokens u,
      us_total_tokens = nu_input_tokens u + nu_output_tokens u,
      us_prompt_details = None\<rparr>"

definition anthropic_response :: "'j json_ops \<Rightarrow> 'j an_response \<Rightarrow> (mapper_error, oa_response) result" where
  "anthropic_response J r =
     rbind (response_content J (ns_content r) [] None) (\<lambda>(calls, content).
       Inr \<lparr>rs_id = ns_id r, rs_model = ns_model r, rs_object = OPENAI_CHAT_COMPLETION_OBJECT, rs_created = 0,
            rs_choices = [\<lparr>ch_index = 0,
              ch_message = \<lparr>rm_content = content, rm_refusal = None,
                            rm_tool_calls = (if calls = [] then None else Some calls)\<rparr>,
              ch_finish_reason = None\<rparr>],
            rs_usage = Some (openai_usage (ns_usage r))\<rparr>)"

section \<open>Streams\<close>

fun openai_finish_reason :: "stop_reason \<Rightarrow> finish_reason" where
  "openai_finish_reason SR_EndTurn = FR_Stop"
| "openai_finish_reason SR_StopSequence = FR_Stop"
| "openai_finish_reason SR_MaxTokens = FR_Length"
| "openai_finish_reason SR_ToolUse = FR_ToolCalls"
| "openai_finish_reason SR_Refusal = FR_ContentFilter"

definition placeholder_chunk :: "oa_choice_stream \<Rightarrow> oa_usage option \<Rightarrow> oa_chunk" where
  "placeholder_chunk choice usage =
     \<lparr>ck_id = PLACEHOLDER_STREAM_ID, ck_model = PLACEHOLDER_MODEL_NAME, ck_object = CHAT_COMPLETION_CHUNK_OBJECT,
      ck_created = 0, ck_choices = [choice], ck_usage = usage\<rparr>"

text \<open>The loop over the content blocks of a \<open>MessageStart\<close>, with the position of the block.\<close>

fun start_content ::
  "'j json_ops \<Rightarrow> nat \<Rightarrow> 'j content_block list \<Rightarrow> string \<Rightarrow> tool_call_chunk list \<Rightarrow>
     (mapper_error, string \<times> tool_call_chunk list) result" where
  "start_content J idx [] acc calls = Inr (acc, calls)"
| "start_content J idx (b # bs) acc calls =
     (case b of
        CB_Text t \<Rightarrow> start_content J (idx + 1) bs (acc @ t) calls
      | CB_ToolUse i n input \<Rightarrow>
          rbind (map_err SerdeError (js_write J input)) (\<lambda>arguments.
            start_content J (idx + 1) bs acc
              (calls @ [\<lparr>kk_index = u32_or_0 idx, kk_id = Some i, kk_name = Some n, kk_arguments = Some arguments\<rparr>]))
      | CB_ToolResult i c \<Rightarrow> start_content J (idx + 1) bs (acc @ [CHR 0x0A] @ c) calls
      | _ \<Rightarrow> start_content J (idx + 1) bs acc calls)"

fun openai_role :: "an_role \<Rightarrow> oa_role" where
  "openai_role AR_User = OR_User"
| "openai_role AR_Assistant = OR_Assistant"

definition message_start_chunk :: "'j json_ops \<Rightarrow> 'j an_response \<Rightarrow> (mapper_error, oa_chunk) result" where
  "message_start_chunk J m =
     rbind (start_content J 0 (ns_content m) [] []) (\<lambda>(acc, calls).
       Inr \<lparr>ck_id = ns_id m, ck_model = ns_model m, ck_object = CHAT_COMPLETION_CHUNK_OBJECT, ck_created = 0,
            ck_choices = [\<lparr>sc_index = 0,
              sc_delta = \<lparr>dl_role = Some (openai_role (ns_role m)), dl_content = Some acc, dl_tool_calls = Some calls,
                          dl_refusal = (if ns_stop_reason m = Some SR_Refusal then ns_stop_sequence m else None)\<rparr>,
              sc_finish_reason = map_option openai_finish_reason (ns_stop_reason m)\<rparr>],
            ck_usage = Some (openai_usage (ns_usage m))\<rparr>)"

definition delta_usage :: "an_usage option \<Rightarrow> oa_usage" where
  "delta_usage u =
     (case u of
        Some x \<Rightarrow> openai_usage x
      | None \<Rightarrow> \<lparr>us_prompt_tokens = 0, us_completion_tokens = 0, us_total_tokens = 0, us_prompt_details = None\<rparr>)"

fun anthropic_chunk :: "'j json_ops \<Rightarrow> 'j stream_event \<Rightarrow> (mapper_error, oa_chunk option) result" where
  "anthropic_chunk J (EV_MessageStart m) = rbind (message_start_chunk J m) (\<lambda>c. Inr (Some c))"
| "anthropic_chunk J (EV_ContentBlockStart index (CB_ToolUse i n input)) =
     rbind (map_err SerdeError (js_write J input)) (\<lambda>arguments.
       Inr (Some (placeholder_chunk
         \<lparr>sc_index = 0,
          sc_delta = delta_empty\<lparr>dl_tool_calls := Some [\<lparr>kk_index = u32_or_0 index, kk_id = Some i, kk_name = Some n,
                                                     kk_arguments = Some arguments\<rparr>]\<rparr>,
          sc_finish_reason = None\<rparr> None)))"
| "anthropic_chunk J (EV_ContentBlockStart index b) = Inr None"
| "anthropic_chunk J (EV_ContentBlockDelta index (BD_Text t)) =
     Inr (Some (placeholder_chunk
       \<lparr>sc_index = u32_or_0 index, sc_delta = delta_empty\<lparr>dl_content := Some t\<rparr>, sc_finish_reason = None\<rparr> None))"
| "anthropic_chunk J (EV_ContentBlockDelta index (BD_InputJson partial_json)) =
     Inr (Some (placeholder_chunk
       \<lparr>sc_index = u32_or_0 index,
        sc_delta = delta_empty\<lparr>dl_tool_calls := Some [\<lparr>kk_index = u32_or_0 index, kk_id = None, kk_name = None,
                                                   kk_arguments = Some partial_json\<rparr>]\<rparr>,
        sc_finish_reason = None\<rparr> None))"
| "anthropic_chunk J (EV_ContentBlockDelta index d) = Inr None"
| "anthropic_chunk J (EV_ContentBlockStop index) = Inr None"
| "anthropic_chunk J EV_MessageStop = Inr None"
| "anthropic_chunk J EV_Ping = Inr None"
| "anthropic_chunk J (EV_MessageDelta reason stop_sequence usage) =
     Inr (Some (placeholder_chunk
       \<lparr>sc_index = 0, sc_delta = delta_empty\<lparr>dl_refusal := stop_sequence\<rparr>,
        sc_finish_reason = map_option openai_finish_reason reason\<rparr> (Some (delta_usage usage))))"
| "anthropic_chunk J (EV_Error e) = Inr None"

section \<open>The converter of the endpoint to itself and of errors\<close>

definition anthropic_messages_request ::
  "('n, 'd) chrono \<Rightarrow> 'w config \<Rightarrow> 'w router_config option \<Rightarrow> ('f, 'j) an_request \<Rightarrow> (mapper_error, ('f, 'j) an_request) result" where
  "anthropic_messages_request ch cfg rc req =
     rbind (mapped_model_name ch cfg rc P_Anthropic (nr_model req)) (\<lambda>m. Inr (req\<lparr>nr_model := m\<rparr>))"

record anthropic_api_error =
  ea_message :: string
  ea_error_kind :: string
  ea_kind :: string

definition anthropic_error :: "nat \<Rightarrow> anthropic_api_error \<Rightarrow> (mapper_error, openai_error) result" where
  "anthropic_error status e = Inr (openai_error_from_status status (Some (ea_message e)))"

section \<open>Lemmas\<close>

text \<open>Which messages reach Anthropic, and in which role.\<close>

fun message_sent :: "string set \<Rightarrow> oa_message \<Rightarrow> bool" where
  "message_sent tools (OM_Developer c) = False"
| "message_sent tools (OM_System c) = False"
| "message_sent tools (OM_User c) = True"
| "message_sent tools (OM_Assistant c calls) = (c \<noteq> None)"
| "message_sent tools (OM_Tool i c) = True"
| "message_sent tools (OM_Function n) = (n \<in> tools)"

fun message_role :: "oa_message \<Rightarrow> an_role" where
  "message_role (OM_User c) = AR_User"
| "message_role m = AR_Assistant"

definition tool_names :: "('f, 'j, 'x) oa_request \<Rightarrow> string set" where
  "tool_names req = (case or_tools req of Some ts \<Rightarrow> of_name ` set ts | None \<Rightarrow> {})"

lemma find_tool:
  "find (\<lambda>tool. nt_name tool = n) (map (anthropic_tool J) ts) = None \<longleftrightarrow> n \<notin> of_name ` set ts"
  by (auto simp: find_None_iff anthropic_tool_def)

lemma anthropic_message_sent:
  assumes "anthropic_message U (map_option (map (anthropic_tool J)) (or_tools req)) m = Inr z"
  shows "(z \<noteq> None) = message_sent (tool_names req) m \<and> (\<forall>x. z = Some x \<longrightarrow> nm_role x = message_role m)"
proof (cases m)
  case (OM_Function n)
  show ?thesis
  proof (cases "or_tools req")
    case None
    then show ?thesis using assms OM_Function by (simp add: tool_names_def)
  next
    case (Some ts)
    then show ?thesis using assms OM_Function find_tool[of n J ts]
      by (cases "find (\<lambda>tool. nt_name tool = n) (map (anthropic_tool J) ts)") (auto simp: tool_names_def)
  qed
next
  case (OM_User c)
  then show ?thesis using assms by (cases c) auto
next
  case (OM_Tool i c)
  then show ?thesis using assms by (cases c) auto
next
  case (OM_Assistant c calls)
  show ?thesis
  proof (cases c)
    case (Some a)
    then show ?thesis using assms OM_Assistant by (cases a) auto
  qed (use assms OM_Assistant in auto)
qed (use assms in auto)

lemma messages_sent:
  assumes "list_all2 (\<lambda>m z. anthropic_message U (map_option (map (anthropic_tool J)) (or_tools req)) m = Inr z) ms zs"
  shows "map nm_role (List.map_filter (\<lambda>z. z) zs) = map message_role (filter (message_sent (tool_names req)) ms)"
  using assms
proof (induction ms zs)
  case (Cons m ms z zs)
  then show ?case using anthropic_message_sent[OF Cons.hyps(1)]
    by (cases z) (auto simp: List.map_filter_simps)
qed (simp add: List.map_filter_simps)

lemma anthropic_request_Ok:
  assumes "anthropic_request ch cfg rc J U req = Inr out"
  shows "\<exists>t zs. anthropic_target_model ch cfg rc (or_model req) = Inr t \<and> nr_model out = model_id_display ch t \<and>
    list_all2 (\<lambda>m z. anthropic_message U (map_option (map (anthropic_tool J)) (or_tools req)) m =
      (Inr z :: (mapper_error abort, _) result)) (or_messages req) zs \<and>
    nr_messages out = List.map_filter (\<lambda>z. z) zs \<and> nr_system out = system_prompt (chat_request_of req) \<and>
    nr_stream out = or_stream req"
  using assms by (auto simp: anthropic_request_def Let_def filter_map_try_Ok)

text \<open>The text of an event.\<close>

fun block_text :: "'j content_block \<Rightarrow> string" where
  "block_text (CB_Text t) = t"
| "block_text (CB_ToolResult i c) = CHR 0x0A # c"
| "block_text b = []"

fun event_text :: "'j stream_event \<Rightarrow> string" where
  "event_text (EV_MessageStart m) = concat (map block_text (ns_content m))"
| "event_text (EV_ContentBlockDelta i (BD_Text t)) = t"
| "event_text ev = []"

lemma start_content_text:
  "start_content J idx bs acc calls = Inr (acc', calls') \<Longrightarrow> acc' = acc @ concat (map block_text bs)"
proof (induction bs arbitrary: idx acc calls)
  case (Cons b bs)
  show ?case
  proof (cases b)
    case (CB_Text t)
    then show ?thesis using Cons.IH[of "idx + 1" "acc @ t"] Cons.prems by simp
  next
    case (CB_ToolResult i c)
    then show ?thesis using Cons.IH[of "idx + 1" "acc @ [CHR 0x0A] @ c"] Cons.prems by simp
  qed (use Cons.IH[of "idx + 1" acc] Cons.prems in auto)
qed simp

lemma anthropic_chunk_text:
  assumes "anthropic_chunk J ev = Inr c"
  shows "(case c of Some x \<Rightarrow> chunk_text x | None \<Rightarrow> []) = event_text ev"
  using assms
  by (induction J ev rule: anthropic_chunk.induct)
     (auto simp: chunk_text_def placeholder_chunk_def delta_empty_def message_start_chunk_def dest: start_content_text)

lemma response_content_Ok:
  assumes "response_content J bs calls content = Inr (calls', content')"
  shows "content' = (case rev (List.map_filter (\<lambda>b. case b of CB_Text t \<Rightarrow> Some t | _ \<Rightarrow> None) bs) of
      t # _ \<Rightarrow> Some t | [] \<Rightarrow> content) \<and>
    map (\<lambda>c. (tc_id c, tc_name c)) calls' = map (\<lambda>c. (tc_id c, tc_name c)) calls @
      List.map_filter (\<lambda>b. case b of CB_ToolUse i n x \<Rightarrow> Some (i, n) | CB_ToolResult i x \<Rightarrow> Some (i, i) | _ \<Rightarrow> None) bs"
  using assms
  by (induction J bs calls content arbitrary: calls' content' rule: response_content.induct)
     (auto simp: List.map_filter_simps split: list.splits)

lemma anthropic_alias_display:
  "model_id_display ch (anthropic_alias (ModelIdWithVersion P_Anthropic m)) =
     mv_model m @ (if str_contains ''claude-3'' (mv_model m) then ''-latest'' else [])"
  by (simp add: model_id_with_version_display_def)

section \<open>A concrete conversion\<close>

definition sample_json :: "string json_ops" where
  "sample_json = \<lparr>js_default = ''null'', js_write = Inr, js_write_text = Inr,
     js_write_text_option = (\<lambda>t. Inr (case t of Some s \<Rightarrow> s | None \<Rightarrow> ''null''))\<rparr>"

definition sample_uri :: data_uri_ops where
  "sample_uri = \<lparr>du_base64 = Some, du_infer = (\<lambda>b. Some ''image/png'')\<rparr>"

definition sample_chat :: "string \<Rightarrow> oa_message list \<Rightarrow> (nat, string, unit) oa_request" where
  "sample_chat model ms =
     \<lparr>or_model = model, or_messages = ms, or_max_completion_tokens = None, or_max_tokens = None,
      or_temperature = None, or_top_p = None, or_stop = None, or_stream = None, or_tools = None,
      or_tool_choice = None, or_user = None, or_rest = ()\<rparr>"

definition dated_opus :: "ymd model_id_with_version" where
  "dated_opus = \<lparr>mv_model = ''claude-3-opus'', mv_version = Preview\<rparr>"

lemma sample_map_opus:
  "map_model padded_calendar sample_config None (ModelIdWithVersion P_Anthropic dated_opus) P_Anthropic =
     Inr (ModelIdWithVersion P_Anthropic dated_opus)"
  by (simp add: map_model_def sample_config_def dated_opus_def)

lemma parse_sample_opus:
  "model_id_from_str padded_calendar ''anthropic/claude-3-opus-preview'' = Inr (ModelIdWithVersion P_Anthropic dated_opus)"
proof -
  have r: "rfind ''-preview-'' ''claude-3-opus-preview'' = None"
    by (simp add: rfind_def find_index_None_iff upt_rec)
  have p: "strip_suffix ''-preview'' ''claude-3-opus-preview'' = Some ''claude-3-opus''"
    by (simp add: strip_suffix_def ends_with_def)
  show ?thesis
    by (simp add: model_id_from_str_def provider_from_str_def model_id_with_version_from_str_def
        parse_model_and_version_def dated_preview_def dated_opus_def ends_with_def r p)
qed

section \<open>Properties\<close>

text \<open>The version of a model is not what Anthropic is asked for: a request for a dated or preview version of
  a model, once the model is mapped, goes out with the name of its alias, \<open>-latest\<close> for the models of
  the third generation and the bare name for the others.\<close>

theorem anthropic_version_ignored:
  assumes "model_id_from_str ch (or_model req) = Inr s" "map_model ch cfg rc s P_Anthropic = Inr (ModelIdWithVersion P_Anthropic m)"
    and "anthropic_request ch cfg rc J U req = Inr out"
  shows "nr_model out = mv_model m @ (if str_contains ''claude-3'' (mv_model m) then ''-latest'' else [])"
proof -
  obtain t where t: "anthropic_target_model ch cfg rc (or_model req) = Inr t" "nr_model out = model_id_display ch t"
    using anthropic_request_Ok[OF assms(3)] by blast
  then have "t = anthropic_alias (ModelIdWithVersion P_Anthropic m)"
    using assms(1,2) by (auto simp: anthropic_target_model_def)
  then show ?thesis using t(2) anthropic_alias_display by metis
qed

theorem anthropic_version_ignored_witness:
  "nr_model (projr (anthropic_request padded_calendar sample_config None sample_json sample_uri
      (sample_chat ''anthropic/claude-3-opus-preview'' [OM_User (UC_Text ''Hi'')]))) = ''claude-3-opus-latest''"
proof -
  have "\<exists>out. anthropic_request padded_calendar sample_config None sample_json sample_uri
      (sample_chat ''anthropic/claude-3-opus-preview'' [OM_User (UC_Text ''Hi'')]) = Inr out"
    by (simp add: anthropic_request_def Let_def anthropic_target_model_def parse_sample_opus sample_map_opus sample_chat_def)
  then obtain out where out: "anthropic_request padded_calendar sample_config None sample_json sample_uri
      (sample_chat ''anthropic/claude-3-opus-preview'' [OM_User (UC_Text ''Hi'')]) = Inr out" by blast
  have "str_contains ''claude-3'' ''claude-3-opus''" by (simp add: str_contains_def rfind_def upt_rec)
  then show ?thesis
    using anthropic_version_ignored[OF _ sample_map_opus out] parse_sample_opus out
    by (simp add: sample_chat_def dated_opus_def)
qed



text \<open>What is left of an answer of Anthropic: the content is the last text block alone, the tool calls are
  those of the answer in their order, and the reason why the answer ended is never passed on.\<close>

theorem anthropic_response_content:
  assumes "anthropic_response J r = Inr out"
  shows "\<exists>choice. rs_choices out = [choice] \<and> ch_finish_reason choice = None \<and>
    rm_content (ch_message choice) = (case rev (List.map_filter (\<lambda>b. case b of CB_Text t \<Rightarrow> Some t | _ \<Rightarrow> None) (ns_content r)) of
      t # _ \<Rightarrow> Some t | [] \<Rightarrow> None) \<and>
    (case rm_tool_calls (ch_message choice) of Some cs \<Rightarrow> map (\<lambda>c. (tc_id c, tc_name c)) cs | None \<Rightarrow> []) =
      List.map_filter (\<lambda>b. case b of CB_ToolUse i n x \<Rightarrow> Some (i, n) | CB_ToolResult i x \<Rightarrow> Some (i, i) | _ \<Rightarrow> None) (ns_content r)"
  using assms by (auto simp: anthropic_response_def dest!: response_content_Ok split: prod.splits)

definition two_texts :: "string an_response" where
  "two_texts =
     \<lparr>ns_id = ''msg_1'', ns_model = ''claude-3-opus'', ns_role = AR_Assistant, ns_content = [CB_Text ''Hello'', CB_Text ''bye''],
      ns_stop_reason = Some SR_MaxTokens, ns_stop_sequence = None, ns_usage = \<lparr>nu_input_tokens = 1, nu_output_tokens = 2\<rparr>, ns_type = ''message''\<rparr>"

theorem anthropic_response_content_witness:
  "\<exists>out. anthropic_response sample_json two_texts = Inr out \<and>
     map (rm_content \<circ> ch_message) (rs_choices out) = [Some ''bye''] \<and> map ch_finish_reason (rs_choices out) = [None]"
proof -
  obtain out where out: "anthropic_response sample_json two_texts = Inr out"
    by (simp add: anthropic_response_def two_texts_def)
  show ?thesis using anthropic_response_content[OF out] out
    by (auto simp: two_texts_def List.map_filter_simps)
qed

end
