(* ===== verification/Bedrock_Mapper.thy ===== *)
theory Bedrock_Mapper
  imports Chat_Types Mapper_Service
begin

text \<open>
  The converter between the OpenAI endpoint and Bedrock's Converse API (\<open>middleware/mapper/bedrock.rs\<close>,
  \<open>endpoints/bedrock/converse.rs\<close>): requests, responses, the events of a stream and errors. Parameters:
  the builders of the AWS SDK, which fail when a required member is not set, and its documents.
\<close>

section \<open>Types of the SDK\<close>

datatype bd_role = BR_User | BR_Assistant | BR_Unknown

datatype bd_image_format = BF_Png | BF_Other

record bd_image =
  bi_format :: bd_image_format
  bi_source :: string

text \<open>Content blocks; those of reasoning and of guards with their text, where they have one.\<close>

datatype 'doc bd_block =
    BB_Text string
  | BB_Image bd_image
  | BB_ToolUse (bb_name: string) (bb_id: string) (bb_input: 'doc)
  | BB_ToolResult string string
  | BB_Reasoning "string option"
  | BB_Guard "string option"
  | BB_Other

record 'doc bd_message =
  bm_role :: bd_role
  bm_content :: "'doc bd_block list"

record 'doc bd_tool_spec =
  bs_name :: string
  bs_description :: "string option"
  bs_schema :: "'doc option"

datatype 'doc bd_tool = BT_ToolSpec "'doc bd_tool_spec" | BT_OtherTool

datatype bd_tool_choice = BC_Tool string | BC_Auto | BC_Any

record 'doc bd_tool_config =
  bg_tool_choice :: "bd_tool_choice option"
  bg_tools :: "'doc bd_tool list"

record 'f bd_inference =
  bf_top_p :: 'f
  bf_temperature :: 'f
  bf_max_tokens :: int
  bf_stop_sequences :: "string list option"

text \<open>\<open>ConverseInput\<close>, with the members that the converter sets; \<open>bq_system\<close> is not one of them.\<close>

record ('f, 'doc) bd_input =
  bq_model_id :: "string option"
  bq_system :: "string list option"
  bq_messages :: "'doc bd_message list option"
  bq_request_metadata :: "(string \<times> string) list option"
  bq_tool_config :: "'doc bd_tool_config option"
  bq_inference_config :: "'f bd_inference option"

record bd_usage =
  bu_input_tokens :: int
  bu_output_tokens :: int
  bu_total_tokens :: int
  bu_cache_read :: "int option"

datatype 'doc bd_output_kind = BO_Message "'doc bd_message" | BO_Unknown

text \<open>\<open>ConverseOutput\<close>; \<open>bo_trace\<close> is \<open>trace.prompt_router.invoked_model_id\<close>.\<close>

record 'doc bd_output =
  bo_trace :: "string option option option"
  bo_usage :: "bd_usage option"
  bo_output :: "'doc bd_output_kind option"

datatype bd_start = BS_ToolUse string string | BS_Unknown

datatype bd_delta = DE_Text string | DE_ToolUse string | DE_Other

datatype bd_event =
    BE_MessageStart bd_role
  | BE_ContentBlockStart int "bd_start option"
  | BE_ContentBlockDelta int "bd_delta option"
  | BE_ContentBlockStop int
  | BE_MessageStop string
  | BE_Metadata "bd_usage option"
  | BE_Unknown

text \<open>The builders and the documents of the SDK.\<close>

record ('f, 'j, 'doc) bedrock_sdk =
  sd_zero :: 'f
  sd_document :: "'j \<Rightarrow> 'doc option"
  sd_as_string :: "'doc \<Rightarrow> string option"
  sd_tool_choice :: "string \<Rightarrow> string option"
  sd_tool_spec :: "'doc bd_tool_spec \<Rightarrow> 'doc bd_tool_spec option"
  sd_image :: "bd_image \<Rightarrow> bd_image option"
  sd_tool_result :: "string \<Rightarrow> string \<Rightarrow> 'doc bd_block option"
  sd_tool_use :: "string \<Rightarrow> string \<Rightarrow> 'doc option \<Rightarrow> 'doc bd_block option"
  sd_message :: "'doc bd_message \<Rightarrow> 'doc bd_message option"
  sd_tool_config :: "'doc bd_tool_config \<Rightarrow> 'doc bd_tool_config option"
  sd_usage :: "bd_usage \<Rightarrow> (string, bd_usage) result"
  sd_input :: "('f, 'doc) bd_input \<Rightarrow> (string, ('f, 'doc) bd_input) result"

text \<open>A builder whose required members are set returns the value with them.\<close>

definition sdk_law :: "('f, 'j, 'doc) bedrock_sdk \<Rightarrow> bool" where
  "sdk_law S \<longleftrightarrow>
     (\<forall>n. sd_tool_choice S n = Some n) \<and>
     (\<forall>t. sd_tool_spec S t = Some t) \<and> (\<forall>i. sd_image S i = Some i) \<and>
     (\<forall>i t. sd_tool_result S i t = Some (BB_ToolResult i t)) \<and>
     (\<forall>n i d. sd_tool_use S n i d = map_option (BB_ToolUse n i) d) \<and>
     (\<forall>m. sd_message S m = Some m) \<and> (\<forall>c. sd_tool_config S c = Some c) \<and>
     (\<forall>u. sd_usage S u = Inr u) \<and> (\<forall>i. sd_input S i = Inr i)"

section \<open>Requests\<close>

definition bedrock_tool_choice :: "('f, 'j, 'doc) bedrock_sdk \<Rightarrow> oa_tool_choice option \<Rightarrow> bd_tool_choice option" where
  "bedrock_tool_choice S choice =
     (case choice of
        Some (OT_Named n) \<Rightarrow> map_option BC_Tool (sd_tool_choice S n)
      | Some OT_Auto \<Rightarrow> Some BC_Auto
      | Some OT_Required \<Rightarrow> Some BC_Any
      | Some OT_None \<Rightarrow> None
      | None \<Rightarrow> None)"

text \<open>A tool without parameters is left out.\<close>

definition bedrock_tool :: "('f, 'j, 'doc) bedrock_sdk \<Rightarrow> 'j oa_function \<Rightarrow> 'doc bd_tool option" where
  "bedrock_tool S f =
     Option.bind (of_parameters f) (\<lambda>parameters.
     Option.bind (sd_document S parameters) (\<lambda>json_value.
       map_option BT_ToolSpec
         (sd_tool_spec S \<lparr>bs_name = of_name f, bs_description = of_description f, bs_schema = Some json_value\<rparr>)))"

definition bedrock_tools :: "('f, 'j, 'doc) bedrock_sdk \<Rightarrow> 'j oa_function list option \<Rightarrow> 'doc bd_tool list option" where
  "bedrock_tools S tools = map_option (List.map_filter (bedrock_tool S)) tools"

fun bedrock_user_part :: "('f, 'j, 'doc) bedrock_sdk \<Rightarrow> user_part \<Rightarrow> 'doc bd_block option" where
  "bedrock_user_part S (UP_Text t) = Some (BB_Text t)"
| "bedrock_user_part S (UP_ImageUrl url) =
     (if starts_with ''http'' url then None
      else map_option BB_Image (sd_image S \<lparr>bi_format = BF_Png, bi_source = url\<rparr>))"
| "bedrock_user_part S UP_InputAudio = None"

fun bedrock_user_blocks :: "('f, 'j, 'doc) bedrock_sdk \<Rightarrow> user_content \<Rightarrow> 'doc bd_block list" where
  "bedrock_user_blocks S (UC_Text t) = [BB_Text t]"
| "bedrock_user_blocks S (UC_Array parts) = List.map_filter (bedrock_user_part S) parts"

fun bedrock_assistant_part :: "assistant_part \<Rightarrow> 'doc bd_block" where
  "bedrock_assistant_part (AP_Text t) = BB_Text t"
| "bedrock_assistant_part (AP_Refusal t) = BB_Text t"

fun bedrock_assistant_blocks :: "assistant_content \<Rightarrow> 'doc bd_block list" where
  "bedrock_assistant_blocks (AC_Text t) = [BB_Text t]"
| "bedrock_assistant_blocks (AC_Array parts) = map bedrock_assistant_part parts"

fun bedrock_tool_blocks :: "('f, 'j, 'doc) bedrock_sdk \<Rightarrow> string \<Rightarrow> tool_content \<Rightarrow> 'doc bd_block list" where
  "bedrock_tool_blocks S call_id (TL_Text t) =
     (case sd_tool_result S call_id t of Some b \<Rightarrow> [b] | None \<Rightarrow> [])"
| "bedrock_tool_blocks S call_id (TL_Array ts) = List.map_filter (sd_tool_result S call_id) ts"

fun named_tool :: "string \<Rightarrow> 'doc bd_tool \<Rightarrow> bool" where
  "named_tool name (BT_ToolSpec spec) = (bs_name spec = name)"
| "named_tool name BT_OtherTool = False"

text \<open>The content of a function message: the call of the tool of that name, with the schema of the tool as its
  input.\<close>

definition bedrock_function_blocks ::
  "('f, 'j, 'doc) bedrock_sdk \<Rightarrow> string \<Rightarrow> 'doc bd_tool \<Rightarrow> (mapper_error, 'doc bd_block list) result" where
  "bedrock_function_blocks S name tool =
     (case tool of
        BT_OtherTool \<Rightarrow> Inl (ToolMappingInvalid name)
      | BT_ToolSpec spec \<Rightarrow> Inr (case sd_tool_use S name name (bs_schema spec) of Some b \<Rightarrow> [b] | None \<Rightarrow> []))"

definition push_message :: "('f, 'j, 'doc) bedrock_sdk \<Rightarrow> bd_role \<Rightarrow> 'doc bd_block list \<Rightarrow> 'doc bd_message option" where
  "push_message S role content = sd_message S \<lparr>bm_role = role, bm_content = content\<rparr>"

fun bedrock_message ::
  "('f, 'j, 'doc) bedrock_sdk \<Rightarrow> 'doc bd_tool list option \<Rightarrow> oa_message \<Rightarrow> (mapper_error, 'doc bd_message option) result" where
  "bedrock_message S tools (OM_Developer c) = Inr None"
| "bedrock_message S tools (OM_System c) = Inr None"
| "bedrock_message S tools (OM_User c) = Inr (push_message S BR_User (bedrock_user_blocks S c))"
| "bedrock_message S tools (OM_Assistant None calls) = Inr None"
| "bedrock_message S tools (OM_Assistant (Some c) calls) = Inr (push_message S BR_Assistant (bedrock_assistant_blocks c))"
| "bedrock_message S tools (OM_Tool call_id c) = Inr (push_message S BR_Assistant (bedrock_tool_blocks S call_id c))"
| "bedrock_message S tools (OM_Function name) =
     (case Option.bind tools (find (named_tool name)) of
        None \<Rightarrow> Inr None
      | Some tool \<Rightarrow> rbind (bedrock_function_blocks S name tool) (\<lambda>content. Inr (push_message S BR_Assistant content)))"

text \<open>\<open>i32::try_from(max_tokens).unwrap_or(DEFAULT_MAX_TOKENS as i32)\<close>.\<close>

definition bedrock_max_tokens :: "32 word option \<Rightarrow> int" where
  "bedrock_max_tokens n =
     (let max_tokens = (case n of Some x \<Rightarrow> x | None \<Rightarrow> DEFAULT_MAX_TOKENS) in
      if uint max_tokens < 2 ^ 31 then uint max_tokens else uint DEFAULT_MAX_TOKENS)"

definition bedrock_request ::
  "('n, 'd) chrono \<Rightarrow> 'w config \<Rightarrow> 'w router_config option \<Rightarrow> ('f, 'j, 'doc) bedrock_sdk \<Rightarrow> ('f, 'j, 'x) oa_request \<Rightarrow>
     (mapper_error, ('f, 'doc) bd_input) result" where
  "bedrock_request ch cfg rc S req =
     rbind (mapped_model_name ch cfg rc P_Bedrock (or_model req)) (\<lambda>model.
       let tools = bedrock_tools S (or_tools req) in
       rbind (filter_map_try (bedrock_message S tools) (or_messages req)) (\<lambda>messages.
         map_err FailedToMapBedrockMessage (sd_input S
           \<lparr>bq_model_id = Some model, bq_system = None, bq_messages = Some messages,
            bq_request_metadata = map_option (\<lambda>user. [(''user_id'', user)]) (or_user req),
            bq_tool_config = Option.bind tools (\<lambda>ts.
              sd_tool_config S \<lparr>bg_tool_choice = bedrock_tool_choice S (or_tool_choice req), bg_tools = ts\<rparr>),
            bq_inference_config = Some
              \<lparr>bf_top_p = (case or_top_p req of Some x \<Rightarrow> x | None \<Rightarrow> sd_zero S),
               bf_temperature = (case or_temperature req of Some x \<Rightarrow> x | None \<Rightarrow> sd_zero S),
               bf_max_tokens = bedrock_max_tokens (or_max_completion_tokens req),
               bf_stop_sequences = map_option stop_list (or_stop req)\<rparr>\<rparr>)))"

text \<open>\<open>AiRequest::model\<close>.\<close>

definition converse_model ::
  "('n, 'd) chrono \<Rightarrow> ('f, 'doc) bd_input \<Rightarrow> (mapper_error, 'd model_id) result" where
  "converse_model ch input =
     rbind (ok_or ME_InvalidRequest (bq_model_id input)) (\<lambda>model. from_str_and_provider ch P_Bedrock model)"

section \<open>Responses\<close>

text \<open>\<open>try_into().unwrap_or(0)\<close> from \<open>i32\<close> to \<open>u32\<close>, and \<open>try_into().ok()\<close>.\<close>

definition u32_of_i32 :: "int \<Rightarrow> 32 word option" where
  "u32_of_i32 n = (if 0 \<le> n then Some (word_of_int n) else None)"

definition i32_or_0 :: "int \<Rightarrow> 32 word" where
  "i32_or_0 n = (case u32_of_i32 n of Some w \<Rightarrow> w | None \<Rightarrow> 0)"

definition bedrock_usage ::
  "('f, 'j, 'doc) bedrock_sdk \<Rightarrow> bd_usage option \<Rightarrow> (mapper_error, oa_usage) result" where
  "bedrock_usage S usage =
     rbind (case usage of
         Some u \<Rightarrow> Inr u
       | None \<Rightarrow> map_err FailedToMapBedrockMessage
           (sd_usage S \<lparr>bu_input_tokens = uint DEFAULT_MAX_TOKENS, bu_output_tokens = uint DEFAULT_MAX_TOKENS,
                        bu_total_tokens = uint DEFAULT_MAX_TOKENS, bu_cache_read = None\<rparr>)) (\<lambda>u.
       Inr \<lparr>us_prompt_tokens = i32_or_0 (bu_input_tokens u), us_completion_tokens = i32_or_0 (bu_output_tokens u),
            us_total_tokens = i32_or_0 (bu_total_tokens u),
            us_prompt_details = Some (Option.bind (bu_cache_read u) u32_of_i32)\<rparr>)"

definition output_contents :: "'doc bd_output_kind option \<Rightarrow> 'doc bd_block list" where
  "output_contents output = (case output of Some (BO_Message m) \<Rightarrow> bm_content m | Some BO_Unknown \<Rightarrow> [] | None \<Rightarrow> [])"

text \<open>The loop over the content: the arguments of a tool result are those of the text so far, not of the result.\<close>

fun bedrock_content ::
  "('f, 'j, 'doc) bedrock_sdk \<Rightarrow> 'j json_ops \<Rightarrow> 'doc bd_block list \<Rightarrow> tool_call list \<Rightarrow> string option \<Rightarrow>
     (mapper_error, tool_call list \<times> string option) result" where
  "bedrock_content S J [] calls content = Inr (calls, content)"
| "bedrock_content S J (BB_ToolUse name i input # bs) calls content =
     bedrock_content S J bs
       (calls @ [\<lparr>tc_id = i, tc_name = name,
                  tc_arguments = (case sd_as_string S input of Some s \<Rightarrow> s | None \<Rightarrow> [])\<rparr>]) content"
| "bedrock_content S J (BB_ToolResult i result # bs) calls content =
     rbind (map_err SerdeError (js_write_text_option J content)) (\<lambda>arguments.
       bedrock_content S J bs (calls @ [\<lparr>tc_id = i, tc_name = i, tc_arguments = arguments\<rparr>]) content)"
| "bedrock_content S J (BB_Text t # bs) calls content = bedrock_content S J bs calls (Some t)"
| "bedrock_content S J (BB_Reasoning t # bs) calls content =
     bedrock_content S J bs calls (case t of Some x \<Rightarrow> Some x | None \<Rightarrow> content)"
| "bedrock_content S J (BB_Guard t # bs) calls content =
     bedrock_content S J bs calls (case t of Some x \<Rightarrow> Some x | None \<Rightarrow> content)"
| "bedrock_content S J (BB_Image i # bs) calls content = bedrock_content S J bs calls content"
| "bedrock_content S J (BB_Other # bs) calls content = bedrock_content S J bs calls content"

text \<open>\<open>uuid\<close> is the fresh identifier of the response.\<close>

definition bedrock_response ::
  "('f, 'j, 'doc) bedrock_sdk \<Rightarrow> 'j json_ops \<Rightarrow> string \<Rightarrow> 'doc bd_output \<Rightarrow> (mapper_error, oa_response) result" where
  "bedrock_response S J uuid r =
     rbind (bedrock_usage S (bo_usage r)) (\<lambda>usage.
     rbind (bedrock_content S J (output_contents (bo_output r)) [] None) (\<lambda>(calls, content).
       Inr \<lparr>rs_id = uuid,
            rs_model = (case Option.bind (Option.bind (bo_trace r) (\<lambda>t. t)) (\<lambda>m. m) of Some m \<Rightarrow> m | None \<Rightarrow> []),
            rs_object = OPENAI_CHAT_COMPLETION_OBJECT, rs_created = 0,
            rs_choices = [\<lparr>ch_index = 0,
              ch_message = \<lparr>rm_content = content, rm_refusal = None,
                            rm_tool_calls = (if calls = [] then None else Some calls)\<rparr>,
              ch_finish_reason = None\<rparr>],
            rs_usage = Some usage\<rparr>))"

section \<open>Streams\<close>

definition BEDROCK_STREAM_ID :: string where "BEDROCK_STREAM_ID = ''bedrock-stream-id''"
definition BEDROCK_MODEL_NAME :: string where "BEDROCK_MODEL_NAME = ''bedrock-model''"

fun bedrock_role :: "bd_role \<Rightarrow> oa_role" where
  "bedrock_role BR_Assistant = OR_Assistant"
| "bedrock_role BR_User = OR_User"
| "bedrock_role BR_Unknown = OR_System"

definition no_usage :: oa_usage where
  "no_usage = \<lparr>us_prompt_tokens = 0, us_completion_tokens = 0, us_total_tokens = 0, us_prompt_details = None\<rparr>"

text \<open>The choices of an event and its token counts.\<close>

fun bedrock_choices :: "bd_event \<Rightarrow> oa_choice_stream list" where
  "bedrock_choices (BE_MessageStart role) =
     [\<lparr>sc_index = 0, sc_delta = delta_empty\<lparr>dl_role := Some (bedrock_role role)\<rparr>, sc_finish_reason = None\<rparr>]"
| "bedrock_choices (BE_ContentBlockStart index (Some (BS_ToolUse i name))) =
     [\<lparr>sc_index = 0,
       sc_delta = delta_empty\<lparr>dl_tool_calls := Some [\<lparr>kk_index = i32_or_0 index, kk_id = Some i, kk_name = Some name,
                                                  kk_arguments = Some []\<rparr>]\<rparr>,
       sc_finish_reason = None\<rparr>]"
| "bedrock_choices (BE_ContentBlockDelta index (Some (DE_Text t))) =
     [\<lparr>sc_index = i32_or_0 index, sc_delta = delta_empty\<lparr>dl_content := Some t\<rparr>, sc_finish_reason = None\<rparr>]"
| "bedrock_choices (BE_ContentBlockDelta index (Some (DE_ToolUse input))) =
     [\<lparr>sc_index = 0,
       sc_delta = delta_empty\<lparr>dl_tool_calls := Some [\<lparr>kk_index = i32_or_0 index, kk_id = None, kk_name = None,
                                                  kk_arguments = Some input\<rparr>]\<rparr>,
       sc_finish_reason = None\<rparr>]"
| "bedrock_choices ev = []"

fun bedrock_event_usage :: "bd_event \<Rightarrow> oa_usage" where
  "bedrock_event_usage (BE_Metadata (Some u)) =
     no_usage\<lparr>us_prompt_tokens := i32_or_0 (bu_input_tokens u), us_completion_tokens := i32_or_0 (bu_output_tokens u),
              us_total_tokens := i32_or_0 (bu_total_tokens u)\<rparr>"
| "bedrock_event_usage ev = no_usage"

definition bedrock_chunk :: "bd_event \<Rightarrow> (mapper_error, oa_chunk option) result" where
  "bedrock_chunk ev =
     Inr (Some \<lparr>ck_id = BEDROCK_STREAM_ID, ck_model = BEDROCK_MODEL_NAME, ck_object = CHAT_COMPLETION_CHUNK_OBJECT,
                ck_created = 0, ck_choices = bedrock_choices ev, ck_usage = Some (bedrock_event_usage ev)\<rparr>)"

section \<open>Errors\<close>

text \<open>The error of the SDK is a unit structure: its reader takes nothing but \<open>null\<close>, and
  \<open>describe\<close> is what it says of another text.\<close>

definition json_space :: "char \<Rightarrow> bool" where
  "json_space c \<longleftrightarrow> c \<in> {CHR '' '', CHR 0x09, CHR 0x0A, CHR 0x0D}"

definition read_converse_error :: "(string \<Rightarrow> string) \<Rightarrow> string \<Rightarrow> (string, unit) result" where
  "read_converse_error describe b =
     (if takeWhile (\<lambda>c. \<not> json_space c) (dropWhile json_space b) = ''null'' \<and>
         list_all json_space (dropWhile (\<lambda>c. \<not> json_space c) (dropWhile json_space b))
      then Inr () else Inl (describe b))"

definition bedrock_error :: "nat \<Rightarrow> unit \<Rightarrow> (mapper_error, openai_error) result" where
  "bedrock_error status e = Inr (openai_error_from_status status None)"

section \<open>Lemmas\<close>

lemma bedrock_message_prompt: "is_prompt m \<Longrightarrow> bedrock_message S tools m = Inr None"
  by (cases m) auto

lemma u32_of_i32_bounds: "u32_of_i32 n = Some w \<Longrightarrow> n < 2 ^ 31 \<Longrightarrow> uint w = n"
  by (auto simp: u32_of_i32_def uint_word_of_int take_bit_int_eq_self split: if_splits)

definition block_message_text :: "'doc bd_block \<Rightarrow> string option" where
  "block_message_text b = (case b of BB_Text t \<Rightarrow> Some t | BB_Reasoning t \<Rightarrow> t | BB_Guard t \<Rightarrow> t | _ \<Rightarrow> None)"

definition last_of :: "'a list \<Rightarrow> 'a option \<Rightarrow> 'a option" where
  "last_of xs d = (case rev xs of x # _ \<Rightarrow> Some x | [] \<Rightarrow> d)"

lemma last_of_Nil [simp]: "last_of [] d = d"
  by (simp add: last_of_def)

lemma last_of_Cons [simp]: "last_of (x # xs) d = last_of xs (Some x)"
  by (auto simp: last_of_def split: list.splits)

text \<open>The calls of a content without tool results.\<close>

definition block_call :: "('f, 'j, 'doc) bedrock_sdk \<Rightarrow> 'doc bd_block \<Rightarrow> tool_call option" where
  "block_call S b =
     (case b of
        BB_ToolUse name i input \<Rightarrow>
          Some \<lparr>tc_id = i, tc_name = name, tc_arguments = (case sd_as_string S input of Some s \<Rightarrow> s | None \<Rightarrow> [])\<rparr>
      | _ \<Rightarrow> None)"

fun is_tool_result :: "'doc bd_block \<Rightarrow> bool" where
  "is_tool_result (BB_ToolResult i t) = True"
| "is_tool_result b = False"

lemma bedrock_content_no_results:
  assumes "list_all (\<lambda>b. \<not> is_tool_result b) bs"
  shows "bedrock_content S J bs calls content =
    Inr (calls @ List.map_filter (block_call S) bs, last_of (List.map_filter block_message_text bs) content)"
  using assms
  by (induction S J bs calls content rule: bedrock_content.induct)
     (auto simp: List.map_filter_simps block_call_def block_message_text_def split: option.splits)

fun bedrock_event_text :: "bd_event \<Rightarrow> string" where
  "bedrock_event_text (BE_ContentBlockDelta index (Some (DE_Text t))) = t"
| "bedrock_event_text ev = []"

lemma bedrock_chunk_text:
  "bedrock_chunk ev = Inr c \<Longrightarrow> (case c of Some x \<Rightarrow> chunk_text x | None \<Rightarrow> []) = bedrock_event_text ev"
  by (induction ev rule: bedrock_choices.induct)
     (auto simp: bedrock_chunk_def chunk_text_def delta_empty_def)

section \<open>Properties\<close>

text \<open>What Bedrock is not told: the system and developer messages of a request, first or later, and its
  \<open>max_tokens\<close> have no influence on the request that goes out; nor has the choice of no tool, which is
  sent as no choice.\<close>

theorem bedrock_ignores_prompts:
  "bedrock_request ch cfg rc S
     (req\<lparr>or_messages := filter (\<lambda>m. \<not> is_prompt m) (or_messages req), or_max_tokens := n,
          or_tool_choice := (if or_tool_choice req = Some OT_None then None else or_tool_choice req)\<rparr>) =
   bedrock_request ch cfg rc S req"
proof -
  have "filter_map_try (bedrock_message S tools) (filter (\<lambda>m. \<not> is_prompt m) ms) =
      filter_map_try (bedrock_message S tools) ms" for tools ms
    by (rule filter_map_try_filter) (simp add: bedrock_message_prompt)
  moreover have "bedrock_tool_choice S (if c = Some OT_None then None else c) = bedrock_tool_choice S c" for c
    by (simp add: bedrock_tool_choice_def)
  ultimately show ?thesis by (simp add: bedrock_request_def)
qed

text \<open>An answer of Bedrock: the tool calls are those of the answer in their order, but the arguments of a call
  whose input is not a bare string, as that of a tool is not, are empty; the content is the last of the
  texts; and the reason why the answer ended is not passed on.\<close>

theorem bedrock_tool_arguments:
  assumes "list_all (\<lambda>b. \<not> is_tool_result b) (output_contents (bo_output r))" "sdk_law S"
  shows "\<exists>out choice. bedrock_response S J uuid r = Inr out \<and> rs_choices out = [choice] \<and>
    ch_finish_reason choice = None \<and>
    rm_content (ch_message choice) = last_of (List.map_filter block_message_text (output_contents (bo_output r))) None \<and>
    (case rm_tool_calls (ch_message choice) of Some cs \<Rightarrow> cs | None \<Rightarrow> []) =
      List.map_filter (block_call S) (output_contents (bo_output r))"
proof -
  have "\<exists>u. bedrock_usage S (bo_usage r) = Inr u"
    using assms(2) by (cases "bo_usage r") (auto simp: bedrock_usage_def sdk_law_def)
  then show ?thesis by (auto simp: bedrock_response_def bedrock_content_no_results[OF assms(1)])
qed

definition sample_sdk :: "(nat, string, string) bedrock_sdk" where
  "sample_sdk =
     \<lparr>sd_zero = 0, sd_document = Some, sd_as_string = (\<lambda>d. None), sd_tool_choice = Some, sd_tool_spec = Some,
      sd_image = Some, sd_tool_result = (\<lambda>i t. Some (BB_ToolResult i t)),
      sd_tool_use = (\<lambda>n i d. map_option (BB_ToolUse n i) d), sd_message = Some, sd_tool_config = Some,
      sd_usage = Inr, sd_input = Inr\<rparr>"

lemma sample_sdk_law: "sdk_law sample_sdk"
  by (simp add: sdk_law_def sample_sdk_def)

definition weather_output :: "string bd_output" where
  "weather_output =
     \<lparr>bo_trace = None, bo_usage = None,
      bo_output = Some (BO_Message \<lparr>bm_role = BR_Assistant,
        bm_content = [BB_Text ''Let me see'', BB_ToolUse ''weather'' ''t1'' ''{city: Berlin}'']\<rparr>)\<rparr>"

definition plain_json :: "string json_ops" where
  "plain_json = \<lparr>js_default = ''null'', js_write = Inr, js_write_text = Inr,
     js_write_text_option = (\<lambda>t. Inr (case t of Some s \<Rightarrow> s | None \<Rightarrow> ''null''))\<rparr>"

theorem bedrock_tool_arguments_witness:
  "\<exists>out choice. bedrock_response sample_sdk plain_json ''id'' weather_output = Inr out \<and> rs_choices out = [choice] \<and>
     rm_content (ch_message choice) = Some ''Let me see'' \<and>
     rm_tool_calls (ch_message choice) = Some [\<lparr>tc_id = ''t1'', tc_name = ''weather'', tc_arguments = []\<rparr>]"
proof -
  have "list_all (\<lambda>b. \<not> is_tool_result b) (output_contents (bo_output weather_output))"
    by (simp add: weather_output_def output_contents_def)
  from bedrock_tool_arguments[OF this sample_sdk_law, of plain_json "''id''"] show ?thesis
    by (auto simp: weather_output_def output_contents_def List.map_filter_simps block_call_def block_message_text_def
        sample_sdk_def split: option.splits)
qed

text \<open>A stream of Bedrock: every event becomes one chunk that carries the text of the event, none is left out
  and none is refused; and no chunk ever has a reason why the answer ended, not even that of
  \<open>MessageStop\<close>.\<close>

theorem bedrock_stream_chunks:
  "\<exists>c. bedrock_chunk ev = Inr (Some c) \<and> chunk_text c = bedrock_event_text ev \<and>
     list_all (\<lambda>choice. sc_finish_reason choice = None) (ck_choices c)"
  by (induction ev rule: bedrock_choices.induct)
     (simp_all add: bedrock_chunk_def chunk_text_def delta_empty_def)

end
