(* ===== verification/OpenAI_Mapper.thy ===== *)
theory OpenAI_Mapper
  imports Anthropic_Mapper F64
begin

text \<open>
  The converter from the Anthropic to the OpenAI endpoint (\<open>middleware/mapper/openai.rs\<close>): requests,
  responses and chunks in the other direction than Anthropic_Mapper.thy. The registry of the gateway has
  no entry for it. Parameters: reading and writing JSON.
\<close>

section \<open>Requests\<close>

datatype reasoning_effort = RE_Low | RE_Medium | RE_High

text \<open>The fields of a request that no converter reads, as far as this one sets them; the others are \<open>None\<close>.\<close>

record 'j oa_extra =
  ox_reasoning_effort :: "reasoning_effort option"
  ox_metadata :: "'j option"
  ox_include_usage :: "bool option"

text \<open>Reading JSON and writing the metadata of a request.\<close>

record 'j json_env = "'j json_ops" +
  js_parse :: "string \<Rightarrow> (string, 'j) result"
  js_empty :: 'j
  js_metadata :: "(string \<times> string) list \<Rightarrow> (string, 'j) result"

text \<open>The share of the thinking budget in the tokens, in doubles; no comparison holds of not-a-number.\<close>

definition effort_of_share :: "f64 \<Rightarrow> reasoning_effort" where
  "effort_of_share reasoning_budget =
     (if f_lt reasoning_budget (f64_of_rat (33 / 100)) then RE_Low
      else if f_lt reasoning_budget (f64_of_rat (66 / 100)) then RE_Medium
      else if f_le reasoning_budget (f64_of_nat 1) then RE_High
      else RE_Medium)"

definition thinking_effort :: "nat \<Rightarrow> 32 word \<Rightarrow> reasoning_effort" where
  "thinking_effort budget_tokens max_tokens =
     effort_of_share (f_div (f64_of_nat budget_tokens) (f64_of_nat (unat max_tokens)))"

fun openai_tool_choice :: "an_tool_choice \<Rightarrow> oa_tool_choice" where
  "openai_tool_choice AT_Auto = OT_Auto"
| "openai_tool_choice AT_None = OT_None"
| "openai_tool_choice AT_Any = OT_Required"
| "openai_tool_choice (AT_Tool n) = OT_Named n"

definition openai_tool :: "'j an_tool \<Rightarrow> 'j oa_function" where
  "openai_tool t =
     \<lparr>of_name = nt_name t, of_description = nt_description t, of_parameters = Some (nt_input_schema t)\<rparr>"

fun openai_assistant_part :: "'j content_block \<Rightarrow> assistant_part option" where
  "openai_assistant_part (CB_Text t) = Some (AP_Text t)"
| "openai_assistant_part b = None"

fun openai_user_part :: "'j content_block \<Rightarrow> user_part option" where
  "openai_user_part (CB_Text t) = Some (UP_Text t)"
| "openai_user_part (CB_Image source) = Some (UP_ImageUrl (im_data source))"
| "openai_user_part b = None"

fun openai_assistant_content :: "'j an_content \<Rightarrow> assistant_content" where
  "openai_assistant_content (AN_Text t) = AC_Text t"
| "openai_assistant_content (AN_Blocks bs) = AC_Array (List.map_filter openai_assistant_part bs)"

fun openai_user_content :: "'j an_content \<Rightarrow> user_content" where
  "openai_user_content (AN_Text t) = UC_Text t"
| "openai_user_content (AN_Blocks bs) = UC_Array (List.map_filter openai_user_part bs)"

definition openai_message :: "'j an_message \<Rightarrow> oa_message" where
  "openai_message m =
     (case nm_role m of
        AR_Assistant \<Rightarrow> OM_Assistant (Some (openai_assistant_content (nm_content m))) None
      | AR_User \<Rightarrow> OM_User (openai_user_content (nm_content m)))"

text \<open>\<open>metadata.fields.remove("user_id")\<close>.\<close>

definition user_of :: "(string \<times> string) list option \<Rightarrow> string option" where
  "user_of metadata = Option.bind metadata (\<lambda>fields. map_of fields ''user_id'')"

definition other_metadata :: "(string \<times> string) list option \<Rightarrow> (string \<times> string) list option" where
  "other_metadata metadata = map_option (filter (\<lambda>(k, v). k \<noteq> ''user_id'')) metadata"

definition openai_metadata ::
  "('j, 'z) json_env_scheme \<Rightarrow> (string \<times> string) list option \<Rightarrow> (mapper_error, 'j option) result" where
  "openai_metadata J metadata =
     (case other_metadata metadata of
        Some kvs \<Rightarrow> map_err (\<lambda>_. ME_InvalidRequest) (rbind (js_metadata J kvs) (\<lambda>v. Inr (Some v)))
      | None \<Rightarrow> Inr None)"

definition openai_from_anthropic_request ::
  "('n, 'd) chrono \<Rightarrow> 'w config \<Rightarrow> 'w router_config option \<Rightarrow> ('j, 'z) json_env_scheme \<Rightarrow> ('f, 'j) an_request \<Rightarrow>
     (mapper_error, ('f, 'j, 'j oa_extra) oa_request) result" where
  "openai_from_anthropic_request ch cfg rc J req =
     rbind (mapped_model_name ch cfg rc P_OpenAI (nr_model req)) (\<lambda>model.
     rbind (openai_metadata J (nr_metadata req)) (\<lambda>metadata.
       Inr \<lparr>or_model = model,
            or_messages = (case nr_system req of Some prompt \<Rightarrow> [OM_Developer (MC_Text prompt)] | None \<Rightarrow> []) @
              map openai_message (nr_messages req),
            or_max_completion_tokens = Some (nr_max_tokens req), or_max_tokens = None,
            or_temperature = nr_temperature req, or_top_p = nr_top_p req,
            or_stop = map_option Stop_Array (nr_stop_sequences req), or_stream = nr_stream req,
            or_tools = map_option (map openai_tool) (nr_tools req),
            or_tool_choice = map_option openai_tool_choice (nr_tool_choice req), or_user = user_of (nr_metadata req),
            or_rest = \<lparr>ox_reasoning_effort = map_option (\<lambda>b. thinking_effort b (nr_max_tokens req)) (nr_thinking req),
                       ox_metadata = metadata,
                       ox_include_usage = (if nr_stream req = Some True then Some True else None)\<rparr>\<rparr>))"

section \<open>Responses\<close>

definition ANTHROPIC_MESSAGE_TYPE :: string where "ANTHROPIC_MESSAGE_TYPE = ''message''"

definition anthropic_usage :: "oa_usage option \<Rightarrow> an_usage" where
  "anthropic_usage u =
     (case u of
        Some x \<Rightarrow> \<lparr>nu_input_tokens = us_prompt_tokens x, nu_output_tokens = us_completion_tokens x\<rparr>
      | None \<Rightarrow> \<lparr>nu_input_tokens = 0, nu_output_tokens = 0\<rparr>)"

text \<open>A call whose arguments are no JSON is left out.\<close>

definition call_block :: "('j, 'z) json_env_scheme \<Rightarrow> tool_call \<Rightarrow> 'j content_block option" where
  "call_block J c =
     (case js_parse J (tc_arguments c) of Inr input \<Rightarrow> Some (CB_ToolUse (tc_id c) (tc_name c) input) | Inl _ \<Rightarrow> None)"

definition openai_content :: "('j, 'z) json_env_scheme \<Rightarrow> oa_response_message \<Rightarrow> 'j content_block list" where
  "openai_content J m =
     (case rm_tool_calls m of Some calls \<Rightarrow> List.map_filter (call_block J) calls | None \<Rightarrow> []) @
     (case rm_content m of Some t \<Rightarrow> [CB_Text t] | None \<Rightarrow> [])"

text \<open>\<open>choices.remove(0)\<close> panics without a choice.\<close>

definition anthropic_from_openai_response ::
  "('j, 'z) json_env_scheme \<Rightarrow> oa_response \<Rightarrow> (mapper_error abort, 'j an_response) result" where
  "anthropic_from_openai_response J r =
     (case rs_choices r of
        [] \<Rightarrow> Inl Panicked
      | choice # _ \<Rightarrow>
          Inr \<lparr>ns_id = rs_id r, ns_model = rs_model r, ns_role = AR_Assistant,
               ns_content = openai_content J (ch_message choice),
               ns_stop_reason = (if rm_refusal (ch_message choice) \<noteq> None then Some SR_Refusal else None),
               ns_stop_sequence = None, ns_usage = anthropic_usage (rs_usage r), ns_type = ANTHROPIC_MESSAGE_TYPE\<rparr>)"

section \<open>Streams\<close>

fun anthropic_role :: "oa_role \<Rightarrow> (mapper_error, an_role) result" where
  "anthropic_role OR_Assistant = Inr AR_Assistant"
| "anthropic_role OR_User = Inr AR_User"
| "anthropic_role r = Inl ME_InvalidRequest"

fun anthropic_stop_reason :: "finish_reason \<Rightarrow> stop_reason" where
  "anthropic_stop_reason FR_Stop = SR_EndTurn"
| "anthropic_stop_reason FR_Length = SR_MaxTokens"
| "anthropic_stop_reason FR_ToolCalls = SR_ToolUse"
| "anthropic_stop_reason FR_FunctionCall = SR_ToolUse"
| "anthropic_stop_reason FR_ContentFilter = SR_Refusal"

text \<open>The start of a call: its arguments, or an empty object when they are no JSON.\<close>

definition call_start :: "tool_call_chunk \<Rightarrow> (string \<times> string) option" where
  "call_start c = Option.bind (kk_id c) (\<lambda>i. map_option (\<lambda>n. (i, n)) (kk_name c))"

definition call_input :: "('j, 'z) json_env_scheme \<Rightarrow> tool_call_chunk \<Rightarrow> (string, 'j) result" where
  "call_input J c = js_parse J (case kk_arguments c of Some a \<Rightarrow> a | None \<Rightarrow> ''{}'')"

text \<open>In the first message, the block with the arguments is followed by one with the empty object.\<close>

definition start_blocks :: "('j, 'z) json_env_scheme \<Rightarrow> tool_call_chunk \<Rightarrow> 'j content_block list" where
  "start_blocks J c =
     (case call_start c of
        Some (i, n) \<Rightarrow>
          (case call_input J c of Inr input \<Rightarrow> [CB_ToolUse i n input] | Inl _ \<Rightarrow> []) @ [CB_ToolUse i n (js_empty J)]
      | None \<Rightarrow> [])"

definition start_message ::
  "('j, 'z) json_env_scheme \<Rightarrow> oa_chunk \<Rightarrow> oa_delta \<Rightarrow> an_role \<Rightarrow> 'j an_response" where
  "start_message J v delta role =
     \<lparr>ns_id = ck_id v, ns_model = ck_model v, ns_role = role,
      ns_content = (case dl_content delta of Some t \<Rightarrow> [CB_Text t] | None \<Rightarrow> []) @
        (case dl_tool_calls delta of Some calls \<Rightarrow> concat (map (start_blocks J) calls) | None \<Rightarrow> []),
      ns_stop_reason = None, ns_stop_sequence = None,
      ns_usage = \<lparr>nu_input_tokens = 0, nu_output_tokens = 0\<rparr>, ns_type = ANTHROPIC_MESSAGE_TYPE\<rparr>"

text \<open>The event of the first call of a tool in a delta.\<close>

definition tool_event :: "('j, 'z) json_env_scheme \<Rightarrow> oa_delta \<Rightarrow> 'j stream_event option" where
  "tool_event J delta =
     (case dl_tool_calls delta of
        Some (c # _) \<Rightarrow>
          (case call_start c of
             Some (i, n) \<Rightarrow>
               Some (EV_ContentBlockStart (unat (kk_index c)) (CB_ToolUse i n
                 (case call_input J c of Inr input \<Rightarrow> input | Inl _ \<Rightarrow> js_empty J)))
           | None \<Rightarrow>
               map_option (\<lambda>a. EV_ContentBlockDelta (unat (kk_index c)) (BD_InputJson a)) (kk_arguments c))
      | _ \<Rightarrow> None)"

definition openai_chunk ::
  "('j, 'z) json_env_scheme \<Rightarrow> oa_chunk \<Rightarrow> (mapper_error, 'j stream_event option) result" where
  "openai_chunk J v =
     (case ck_choices v of
        [] \<Rightarrow> Inr None
      | first_choice # _ \<Rightarrow>
          let delta = sc_delta first_choice in
          (case dl_role delta of
             Some r \<Rightarrow>
               rbind (anthropic_role r) (\<lambda>role. Inr (Some (EV_MessageStart (start_message J v delta role))))
           | None \<Rightarrow>
               (case sc_finish_reason first_choice of
                  Some reason \<Rightarrow>
                    Inr (Some (EV_MessageDelta (Some (anthropic_stop_reason reason)) None (Some (anthropic_usage (ck_usage v)))))
                | None \<Rightarrow>
                    (case tool_event J delta of
                       Some ev \<Rightarrow> Inr (Some ev)
                     | None \<Rightarrow>
                         (case dl_content delta of
                            Some t \<Rightarrow> Inr (Some (EV_ContentBlockDelta 0 (BD_Text t)))
                          | None \<Rightarrow> Inr (map_option (\<lambda>t. EV_ContentBlockDelta 0 (BD_Text t)) (dl_refusal delta)))))))"

section \<open>Lemmas\<close>

fun effort_rank :: "reasoning_effort \<Rightarrow> nat" where
  "effort_rank RE_Low = 0"
| "effort_rank RE_Medium = 1"
| "effort_rank RE_High = 2"

lemma f64_one: "f64_of_nat (Suc 0) = F_Fin 1"
  using f64_of_nat_exact[of 1] by simp

lemma effort_of_share_mono:
  assumes "f_le x y" "f_le y (F_Fin 1)"
  shows "effort_rank (effort_of_share x) \<le> effort_rank (effort_of_share y)"
proof -
  have "f_le x (F_Fin 1)" using assms f_le_trans by blast
  moreover have "f_lt y c \<Longrightarrow> f_lt x c" for c
    using assms(1) by (cases x; cases y; cases c) auto
  ultimately show ?thesis using assms(2) by (auto simp: effort_of_share_def f64_one)
qed

lemma f64_of_nat_mono: "m \<le> n \<Longrightarrow> f_le (f64_of_nat m) (f64_of_nat n)"
  by (simp add: f64_of_nat_def f64_of_rat_mono_nonneg)

lemma f64_of_u32: "f64_of_nat (unat (w :: 32 word)) = F_Fin (of_nat (unat w))"
proof (rule f64_of_nat_exact)
  have "unat w < 2 ^ 32" using unsigned_less[of w] by simp
  then show "unat w < 2 ^ 53" by (rule less_trans) simp
qed

lemma share_mono:
  assumes "m \<le> n" "0 < unat (c :: 32 word)"
  shows "f_le (f_div (f64_of_nat m) (f64_of_nat (unat c))) (f_div (f64_of_nat n) (f64_of_nat (unat c)))"
  unfolding f64_of_u32
proof (rule f_div_mono_pos)
  show "f_le (F_Fin 0) (f64_of_nat m)" by (simp add: f64_of_nat_def f64_of_rat_nonneg)
  show "(0 :: rat) < of_nat (unat c)" using assms(2) by (simp only: of_nat_0_less_iff)
qed (rule f64_of_nat_mono[OF assms(1)])

lemma share_of_all:
  assumes "0 < unat (c :: 32 word)"
  shows "f_div (f64_of_nat (unat c)) (f64_of_nat (unat c)) = F_Fin 1"
proof -
  have "(of_nat (unat c) :: rat) \<noteq> 0" using assms by (simp only: of_nat_eq_0_iff)
  moreover have "f64_of_rat 1 = F_Fin 1" using f64_one by (simp add: f64_of_nat_def)
  ultimately show ?thesis unfolding f64_of_u32 f_div.simps by (simp only: if_False divide_self not_False_eq_True)
qed

lemma effort_of_all: "effort_of_share (F_Fin 1) = RE_High"
proof -
  have "f64_of_rat (3 / 4) = F_Fin (3 / 4)"
  proof -
    have "ilog2 (3 / 4) = - 1" by (rule ilog2_unique) (simp_all add: power_int_minus)
    then have e: "lsb_exp (3 / 4) = - 53" by (simp add: lsb_exp_def)
    have "(3 / 4 :: rat) = of_int (3 * 2 ^ 51) * 2 powi lsb_exp (3 / 4)"
      by (simp add: e power_int_minus power_int_numeral)
    then have "round_pos (3 / 4) = 3 / 4" by (rule round_pos_exact)
    moreover have "(3 / 4 :: rat) < 2 powi 1024" using pow2_le[of 0 1024] by simp
    ultimately show ?thesis by (simp add: f64_of_rat_def)
  qed
  then have "\<not> f_lt (F_Fin 1) (f64_of_rat p)" if "0 \<le> p" "p \<le> 3 / 4" for p
    using f64_of_rat_mono_nonneg[OF that] by (cases "f64_of_rat p") auto
  then show ?thesis by (simp add: effort_of_share_def f64_one)
qed

text \<open>A quotient just above one is not rounded to one.\<close>

lemma f64_above_one: "f64_of_rat (4294967297 / 4294967296) = F_Fin (4294967297 / 4294967296)"
proof -
  have "ilog2 (4294967297 / 4294967296) = 0" by (rule ilog2_unique) (simp_all add: power_int_numeral)
  then have e: "lsb_exp (4294967297 / 4294967296) = - 52" by (simp add: lsb_exp_def)
  have "(4294967297 / 4294967296 :: rat) = of_int (2 ^ 52 + 2 ^ 20) * 2 powi lsb_exp (4294967297 / 4294967296)"
    by (simp add: e power_int_minus power_int_numeral)
  then have "round_pos (4294967297 / 4294967296) = 4294967297 / 4294967296" by (rule round_pos_exact)
  moreover have "(4294967297 / 4294967296 :: rat) < 2 powi 1" by (simp add: power_int_numeral)
  then have "(4294967297 / 4294967296 :: rat) < 2 powi 1024" using pow2_le[of 1 1024] by (rule less_le_trans) simp
  ultimately show ?thesis by (simp add: f64_of_rat_def)
qed

lemma share_above_one:
  assumes "0 < unat (c :: 32 word)" "unat c < n"
  shows "f_lt (F_Fin 1) (f_div (f64_of_nat n) (f64_of_nat (unat c)))"
proof -
  define k where "k = unat c"
  have k: "0 < k" "k < 2 ^ 32" using assms(1) unsigned_less[of c] by (simp_all add: k_def)
  then have "(4294967297 / 4294967296 :: rat) \<le> of_nat (Suc k) / of_nat k"
    by (simp add: field_simps)
  then have "f_le (F_Fin (4294967297 / 4294967296)) (f64_of_rat (of_nat (Suc k) / of_nat k))"
    using f64_of_rat_mono_nonneg[of "4294967297 / 4294967296"] by (simp only: f64_above_one)
  moreover have "f64_of_nat (Suc k) = F_Fin (of_nat (Suc k))" by (rule f64_of_nat_exact) (use k in simp)
  moreover have "f64_of_nat (unat c) = F_Fin (of_nat k)" by (simp only: f64_of_u32 k_def)
  ultimately have "f_le (F_Fin (4294967297 / 4294967296)) (f_div (f64_of_nat (Suc k)) (f64_of_nat (unat c)))"
    using k(1) by simp
  then have "f_le (F_Fin (4294967297 / 4294967296)) (f_div (f64_of_nat n) (f64_of_nat (unat c)))"
    by (rule f_le_trans) (rule share_mono, simp_all add: k_def assms Suc_leI)
  then show ?thesis by (rule f_lt_le_trans[rotated]) simp
qed

lemma effort_above_all:
  assumes "f_lt (F_Fin 1) x"
  shows "effort_of_share x = RE_Medium"
proof -
  have le: "f_le (f64_of_rat p) (F_Fin 1)" if "0 \<le> p" "p \<le> 1" for p
    using f64_of_rat_mono_nonneg[OF that] f64_one by (simp add: f64_of_nat_def)
  have "\<not> f_lt x (f64_of_rat p)" if "0 \<le> p" "p \<le> 1" for p
    using le[OF that] assms by (cases x; cases "f64_of_rat p") auto
  moreover have "\<not> f_le x (F_Fin 1)" using assms by (cases x) auto
  ultimately show ?thesis by (simp add: effort_of_share_def f64_one)
qed

text \<open>Messages of texts alone, which both directions keep.\<close>

fun is_text_block :: "'j content_block \<Rightarrow> bool" where
  "is_text_block (CB_Text t) = True"
| "is_text_block b = False"

fun text_only :: "'j an_content \<Rightarrow> bool" where
  "text_only (AN_Text t) = True"
| "text_only (AN_Blocks bs) = list_all is_text_block bs"

lemma user_texts:
  "list_all is_text_block bs \<Longrightarrow> filter_map_try (user_block U) (List.map_filter openai_user_part bs) = Inr bs"
proof (induction bs)
  case (Cons b bs)
  then show ?case by (cases b) (auto simp: List.map_filter_simps)
qed (simp add: List.map_filter_simps)

lemma assistant_texts:
  "list_all is_text_block bs \<Longrightarrow> map assistant_block (List.map_filter openai_assistant_part bs) = bs"
proof (induction bs)
  case (Cons b bs)
  then show ?case by (cases b) (auto simp: List.map_filter_simps)
qed (simp add: List.map_filter_simps)

lemma message_roundtrip:
  assumes "text_only (nm_content m)"
  shows "anthropic_message U tools (openai_message m) = Inr (Some m)"
  using assms
  by (cases m; cases "nm_role m"; cases "nm_content m")
     (auto simp: openai_message_def user_texts assistant_texts)

lemma messages_roundtrip:
  "list_all (\<lambda>m. text_only (nm_content m)) ms \<Longrightarrow> filter_map_try (anthropic_message U tools) (map openai_message ms) = Inr ms"
  by (induction ms) (auto simp: message_roundtrip)

lemma tool_roundtrip: "anthropic_tool J \<circ> openai_tool = id"
  by (rule ext) (simp add: anthropic_tool_def openai_tool_def)

lemma tool_choice_roundtrip: "anthropic_tool_choice \<circ> openai_tool_choice = id"
  by (rule ext) (case_tac x; simp)

lemma prompt_roundtrip:
  "system_prompt \<lparr>cr_model = a, cr_stream = b, cr_messages =
     map chat_message_of ((case p of Some prompt \<Rightarrow> [OM_Developer (MC_Text prompt)] | None \<Rightarrow> []) @ map openai_message ms)\<rparr> = p"
proof (cases p)
  case None
  then show ?thesis
    by (cases ms) (auto simp: system_prompt_def openai_message_def split: an_role.split)
qed (simp add: system_prompt_def)

section \<open>Properties\<close>

text \<open>The thinking budget: up to the limit of tokens a larger budget never means less effort, and a budget of
  all tokens means the highest; but one token more than the limit, and the effort falls back to
  medium. The rounding of the quotient changes none of this.\<close>

theorem thinking_effort_order:
  assumes "0 < max_tokens"
  shows "(b \<le> b' \<and> b' \<le> unat max_tokens \<longrightarrow>
      effort_rank (thinking_effort b max_tokens) \<le> effort_rank (thinking_effort b' max_tokens)) \<and>
    thinking_effort (unat max_tokens) max_tokens = RE_High \<and>
    (unat max_tokens < b \<longrightarrow> thinking_effort b max_tokens = RE_Medium)"
proof -
  have pos: "0 < unat max_tokens" using assms by (simp add: word_less_nat_alt)
  have "effort_rank (thinking_effort b max_tokens) \<le> effort_rank (thinking_effort b' max_tokens)"
    if "b \<le> b' \<and> b' \<le> unat max_tokens"
    unfolding thinking_effort_def using that share_mono[OF _ pos, of b b'] share_mono[OF _ pos, of b' "unat max_tokens"]
    by (intro effort_of_share_mono) (simp_all only: share_of_all[OF pos])
  moreover have "thinking_effort (unat max_tokens) max_tokens = RE_High"
    by (simp only: thinking_effort_def share_of_all[OF pos] effort_of_all)
  moreover have "thinking_effort b max_tokens = RE_Medium" if "unat max_tokens < b"
    unfolding thinking_effort_def using share_above_one[OF pos that] by (rule effort_above_all)
  ultimately show ?thesis by blast
qed

theorem thinking_effort_order_witness:
  "effort_rank (thinking_effort 500 1000) \<le> effort_rank (thinking_effort 900 1000) \<and>
   thinking_effort 1000 1000 = RE_High \<and> thinking_effort 1001 1000 = RE_Medium"
  using thinking_effort_order[of 1000 500 900] thinking_effort_order[of 1000 1001 1001] by simp


definition relay_config :: "nat config" where
  "relay_config = sample_config
     \<lparr>cfg_providers := [(P_OpenAI, \<lparr>gp_models = [''claude-3-opus''], gp_base_url = ''http://relay'', gp_version = None\<rparr>)]\<rparr>"

lemma relay_map_opus:
  "map_model padded_calendar relay_config None (ModelIdWithVersion P_Anthropic dated_opus) P_OpenAI =
     Inr (ModelIdWithVersion P_Anthropic dated_opus)"
  by (simp add: map_model_def relay_config_def dated_opus_def)

definition sample_env :: "string json_env" where
  "sample_env = json_ops.extend sample_json
     \<lparr>js_parse = (\<lambda>s. if s = [] then Inl ''EOF'' else Inr s), js_empty = ''{}'', js_metadata = (\<lambda>kvs. Inr ''{}'')\<rparr>"

definition sample_messages :: "string an_content list \<Rightarrow> string option \<Rightarrow> (nat, string) an_request" where
  "sample_messages cs system =
     \<lparr>nr_max_tokens = 1000, nr_messages = map (\<lambda>c. \<lparr>nm_role = AR_User, nm_content = c\<rparr>) cs,
      nr_model = ''anthropic/claude-3-opus-preview'', nr_system = system, nr_temperature = None,
      nr_stop_sequences = None, nr_stream = None, nr_top_k = None, nr_top_p = None, nr_tools = None,
      nr_tool_choice = None, nr_metadata = None, nr_thinking = None\<rparr>"


text \<open>The first message of a stream of the OpenAI endpoint reaches an Anthropic client with every tool call
  twice: the block with the arguments of the call is followed by one of the same call with an empty
  object.\<close>

theorem openai_start_duplicates_calls:
  assumes "ck_choices v = choice # rest" "dl_role (sc_delta choice) = Some OR_Assistant"
    and "dl_tool_calls (sc_delta choice) = Some [c]" "call_start c = Some (i, n)" "call_input J c = Inr input"
  shows "\<exists>m. openai_chunk J v = Inr (Some (EV_MessageStart m)) \<and>
    filter (\<lambda>b. \<not> is_text_block b) (ns_content m) = [CB_ToolUse i n input, CB_ToolUse i n (js_empty J)]"
  using assms by (auto simp: openai_chunk_def Let_def start_message_def start_blocks_def split: option.splits)

definition call_chunk :: oa_chunk where
  "call_chunk =
     \<lparr>ck_id = ''c1'', ck_model = ''gpt-4o'', ck_object = CHAT_COMPLETION_CHUNK_OBJECT, ck_created = 0,
      ck_choices = [\<lparr>sc_index = 0,
        sc_delta = delta_empty\<lparr>dl_role := Some OR_Assistant,
          dl_tool_calls := Some [\<lparr>kk_index = 0, kk_id = Some ''t1'', kk_name = Some ''f'', kk_arguments = Some ''{x: 1}''\<rparr>]\<rparr>,
        sc_finish_reason = None\<rparr>],
      ck_usage = None\<rparr>"

theorem openai_start_duplicates_calls_witness:
  "\<exists>m. openai_chunk sample_env call_chunk = Inr (Some (EV_MessageStart m)) \<and>
     filter (\<lambda>b. \<not> is_text_block b) (ns_content m) = [CB_ToolUse ''t1'' ''f'' ''{x: 1}'', CB_ToolUse ''t1'' ''f'' ''{}'']"
  using openai_start_duplicates_calls[of call_chunk _ "[]" _ "''t1''" "''f''" sample_env "''{x: 1}''"]
  by (simp add: call_chunk_def call_start_def call_input_def sample_env_def json_ops.defs)

text \<open>A stream that comes from Anthropic and goes back to it: texts survive, their block does not.\<close>

lemma text_delta_roundtrip:
  "rbind (anthropic_chunk J (EV_ContentBlockDelta index (BD_Text t)))
     (\<lambda>c. case c of Some v \<Rightarrow> openai_chunk E v | None \<Rightarrow> Inr None) = Inr (Some (EV_ContentBlockDelta 0 (BD_Text t)))"
  by (simp add: placeholder_chunk_def delta_empty_def openai_chunk_def tool_event_def)

end
