(* ===== verification/Provider_Mapper.thy ===== *)
theory Provider_Mapper
  imports Anthropic_Mapper Bedrock_Mapper OpenAI_Mapper
begin

text \<open>
  The converters that the registry of the gateway holds, as instances of the generic converter of
  bodies (\<open>EndpointConverterRegistryInner::new\<close> of \<open>middleware/mapper/registry.rs\<close>), and what a stream
  and an error of a provider become on the way to the client. Parameters: the derived readers and
  writers of the bodies of each endpoint, as records of functions.
\<close>

section \<open>Codecs\<close>

record ('req, 'resp, 'chunk, 'err) codec =
  cd_read_request :: "string \<Rightarrow> (string, 'req) result"
  cd_write_request :: "'req \<Rightarrow> (string, string) result"
  cd_read_response :: "string \<Rightarrow> (string, 'resp) result"
  cd_write_response :: "'resp \<Rightarrow> (string, string) result"
  cd_read_chunk :: "string \<Rightarrow> (string, 'chunk) result"
  cd_write_chunk :: "'chunk \<Rightarrow> (string, string) result"
  cd_read_error :: "string \<Rightarrow> (string, 'err) result"
  cd_write_error :: "'err \<Rightarrow> (string, string) result"
  cd_request_type :: string
  cd_response_type :: string
  cd_chunk_type :: string
  cd_error_type :: string

text \<open>The codecs of the endpoints, JSON, data URIs, the SDK of Bedrock, the identifier of a Bedrock response and
  the message of its error reader.\<close>

record ('f, 'j, 'x, 'doc) wire =
  wi_openai :: "(('f, 'j, 'x) oa_request, oa_response, oa_chunk, openai_error) codec"
  wi_gemini :: "(('f, 'j, 'x) oa_request, oa_response, oa_chunk, openai_error) codec"
  wi_ollama :: "(('f, 'j, 'x) oa_request, oa_response, oa_chunk, openai_error) codec"
  wi_anthropic :: "(('f, 'j) an_request, 'j an_response, 'j stream_event, anthropic_api_error) codec"
  wi_bedrock :: "(('f, 'doc) bd_input, 'doc bd_output, bd_event, unit) codec"
  wi_json :: "'j json_ops"
  wi_uri :: data_uri_ops
  wi_sdk :: "('f, 'j, 'doc) bedrock_sdk"
  wi_uuid :: string
  wi_describe :: "string \<Rightarrow> string"

section \<open>Converters\<close>

text \<open>From an endpoint with the body of OpenAI to one with the same body.\<close>

definition same_parts ::
  "(('f, 'j, 'x) oa_request \<Rightarrow> (mapper_error, ('f, 'j, 'x) oa_request) result) \<Rightarrow>
   (('f, 'j, 'x) oa_request \<Rightarrow> (mapper_error, 'd model_id) result) \<Rightarrow>
   (('f, 'j, 'x) oa_request, oa_response, oa_chunk, openai_error) codec \<Rightarrow>
   (('f, 'j, 'x) oa_request, oa_response, oa_chunk, openai_error) codec \<Rightarrow>
   (('f, 'j, 'x) oa_request, ('f, 'j, 'x) oa_request, oa_response, oa_response, oa_chunk, oa_chunk, openai_error, openai_error, 'd) typed_parts" where
  "same_parts convert model S T =
     \<lparr>tp_read_request = cd_read_request S, tp_is_stream = (\<lambda>r. request_is_stream (chat_request_of r)),
      tp_convert_request = (\<lambda>r. map_err Failed (convert r)), tp_model = model, tp_write_request = cd_write_request T,
      tp_read_response = cd_read_response T, tp_convert_response = same_response, tp_write_response = cd_write_response S,
      tp_read_chunk = cd_read_chunk T, tp_convert_chunk = same_chunk, tp_write_chunk = cd_write_chunk S,
      tp_read_error = cd_read_error T, tp_convert_error = same_error, tp_write_error = cd_write_error S,
      tp_request_type = cd_request_type T, tp_response_type = cd_response_type T, tp_chunk_type = cd_chunk_type T,
      tp_error_type = cd_error_type T\<rparr>"

definition anthropic_parts ::
  "('n, 'd) chrono \<Rightarrow> 'w config \<Rightarrow> 'w router_config option \<Rightarrow> ('f, 'j, 'x, 'doc) wire \<Rightarrow>
   (('f, 'j, 'x) oa_request, ('f, 'j) an_request, 'j an_response, oa_response, 'j stream_event, oa_chunk,
    anthropic_api_error, openai_error, 'd) typed_parts" where
  "anthropic_parts ch cfg rc W =
     (let S = wi_openai W; T = wi_anthropic W in
      \<lparr>tp_read_request = cd_read_request S, tp_is_stream = (\<lambda>r. request_is_stream (chat_request_of r)),
       tp_convert_request = anthropic_request ch cfg rc (wi_json W) (wi_uri W),
       tp_model = (\<lambda>r. from_str_and_provider ch P_Anthropic (nr_model r)), tp_write_request = cd_write_request T,
       tp_read_response = cd_read_response T, tp_convert_response = anthropic_response (wi_json W),
       tp_write_response = cd_write_response S,
       tp_read_chunk = cd_read_chunk T, tp_convert_chunk = anthropic_chunk (wi_json W), tp_write_chunk = cd_write_chunk S,
       tp_read_error = cd_read_error T, tp_convert_error = anthropic_error, tp_write_error = cd_write_error S,
       tp_request_type = cd_request_type T, tp_response_type = cd_response_type T, tp_chunk_type = cd_chunk_type T,
       tp_error_type = cd_error_type T\<rparr>)"

text \<open>The reader of errors is the one of the unit structure \<open>ConverseError\<close>.\<close>

definition bedrock_parts ::
  "('n, 'd) chrono \<Rightarrow> 'w config \<Rightarrow> 'w router_config option \<Rightarrow> ('f, 'j, 'x, 'doc) wire \<Rightarrow>
   (('f, 'j, 'x) oa_request, ('f, 'doc) bd_input, 'doc bd_output, oa_response, bd_event, oa_chunk,
    unit, openai_error, 'd) typed_parts" where
  "bedrock_parts ch cfg rc W =
     (let S = wi_openai W; T = wi_bedrock W in
      \<lparr>tp_read_request = cd_read_request S, tp_is_stream = (\<lambda>r. request_is_stream (chat_request_of r)),
       tp_convert_request = (\<lambda>r. map_err Failed (bedrock_request ch cfg rc (wi_sdk W) r)),
       tp_model = converse_model ch, tp_write_request = cd_write_request T,
       tp_read_response = cd_read_response T,
       tp_convert_response = bedrock_response (wi_sdk W) (wi_json W) (wi_uuid W), tp_write_response = cd_write_response S,
       tp_read_chunk = cd_read_chunk T, tp_convert_chunk = bedrock_chunk, tp_write_chunk = cd_write_chunk S,
       tp_read_error = read_converse_error (wi_describe W), tp_convert_error = bedrock_error,
       tp_write_error = cd_write_error S,
       tp_request_type = cd_request_type T, tp_response_type = cd_response_type T, tp_chunk_type = cd_chunk_type T,
       tp_error_type = cd_error_type T\<rparr>)"

fun provider_converter ::
  "('n, 'd) chrono \<Rightarrow> 'w config \<Rightarrow> 'w router_config option \<Rightarrow> ('f, 'j, 'x, 'doc) wire \<Rightarrow> converter \<Rightarrow> 'd endpoint_converter" where
  "provider_converter ch cfg rc W AnthropicConverter = typed_endpoint_converter (anthropic_parts ch cfg rc W)"
| "provider_converter ch cfg rc W BedrockConverter = typed_endpoint_converter (bedrock_parts ch cfg rc W)"
| "provider_converter ch cfg rc W OpenAIConverter =
     typed_endpoint_converter (same_parts (openai_request ch cfg rc) (request_model ch P_OpenAI) (wi_openai W) (wi_openai W))"
| "provider_converter ch cfg rc W GoogleGeminiConverter =
     typed_endpoint_converter (same_parts (gemini_request ch cfg rc) (request_model ch P_GoogleGemini) (wi_openai W) (wi_gemini W))"
| "provider_converter ch cfg rc W OllamaConverter =
     typed_endpoint_converter (same_parts (ollama_request ch cfg rc) (request_model ch P_Ollama) (wi_openai W) (wi_ollama W))"

text \<open>The mapper of the gateway or of a router.\<close>

definition gateway_mapper ::
  "('n, 'd) chrono \<Rightarrow> 'w config \<Rightarrow> 'w router_config option \<Rightarrow> ('f, 'j, 'x, 'doc) wire \<Rightarrow>
   (string \<Rightarrow> (string, string) result) \<Rightarrow> (api_error \<Rightarrow> string) \<Rightarrow> ('n, 'd) mapper_env" where
  "gateway_mapper ch cfg rc W path_and_query body_error =
     \<lparr>me_chrono = ch, me_registry = registry_new, me_converter = provider_converter ch cfg rc W,
      me_path_and_query = path_and_query, me_body_error = body_error\<rparr>"

section \<open>Interface: a converter that keeps the text of a stream\<close>

text \<open>The data of an event as a client reads it, and the text of the chunk in it.\<close>

definition sse_data :: "string \<Rightarrow> string" where
  "sse_data frame = drop 6 (take (length frame - 2) frame)"

definition frame_text :: "('req, 'resp, oa_chunk, 'err) codec \<Rightarrow> (api_error, string) result \<Rightarrow> string" where
  "frame_text S f =
     (case rbind (map_err (\<lambda>_. []) f) (\<lambda>frame. cd_read_chunk S (sse_data frame)) of Inr c \<Rightarrow> chunk_text c | Inl e \<Rightarrow> [])"

lemma sse_data_frame [simp]: "sse_data (sse_frame d) = d"
  by (simp add: sse_data_def sse_frame_def)

locale text_converter =
  fixes T :: "('sreq, 'treq, 'tresp, 'sresp, 'tchunk, oa_chunk, 'terr, 'serr, 'd) typed_parts"
    and S :: "('req, 'resp, oa_chunk, 'err) codec"
    and event_text_of :: "'tchunk \<Rightarrow> string"
  assumes chunk_keeps_text: "tp_convert_chunk T ev = Inr c \<Longrightarrow> (case c of Some x \<Rightarrow> chunk_text x | None \<Rightarrow> []) = event_text_of ev"
    and writes_chunks: "tp_write_chunk T = cd_write_chunk S"
begin

lemma frames_text:
  assumes "\<And>c b. cd_write_chunk S c = Inr b \<Longrightarrow> cd_read_chunk S b = Inr c"
    and "\<forall>d \<in> set ds. \<exists>r. convert_resp_body T status d True = Inr r"
    and "lookup_converter M source target = Inr (typed_endpoint_converter T)"
  shows "concat (map (frame_text S) (map_frames M (lookup_converter M source target) status (map Inr ds))) =
    concat (map (\<lambda>d. event_text_of (projr (tp_read_chunk T d))) ds)"
  using assms(2)
proof (induction ds)
  case (Cons d ds)
  then obtain r where r: "convert_resp_body T status d True = Inr r" by auto
  then obtain ev c where ev: "tp_read_chunk T d = Inr ev" "tp_convert_chunk T ev = Inr c"
    by (auto simp: convert_resp_body_def)
  note kept = chunk_keeps_text[OF ev(2)]
  show ?case
  proof (cases c)
    case None
    then have "r = None" using r ev by (simp add: convert_resp_body_def)
    then show ?thesis using Cons r ev kept None
      by (simp add: assms(3) typed_endpoint_converter_def)
  next
    case (Some x)
    then obtain b where "cd_write_chunk S x = Inr b" "r = Some b"
      using r ev by (auto simp: convert_resp_body_def writes_chunks)
    then show ?thesis using Cons r ev kept Some assms(1)[of x b]
      by (simp add: assms(3) typed_endpoint_converter_def frame_text_def)
  qed
qed simp

end

interpretation anthropic_text: text_converter "anthropic_parts ch cfg rc W" "wi_openai W" event_text for ch cfg rc W
  by standard (auto simp: anthropic_parts_def Let_def dest: anthropic_chunk_text)

interpretation bedrock_text: text_converter "bedrock_parts ch cfg rc W" "wi_openai W" bedrock_event_text for ch cfg rc W
  using bedrock_chunk_text by (auto simp: text_converter_def bedrock_parts_def Let_def)

interpretation same_text: text_converter "same_parts convert model S T" S chunk_text for convert model S T
  by standard (auto simp: same_parts_def same_chunk_def)

section \<open>Lemmas\<close>

lemma gateway_lookup:
  "lookup_converter (gateway_mapper ch cfg rc W pq be) (EP_OpenAI OpenAI_ChatCompletions) (EP_Anthropic Anthropic_Messages) =
     Inr (typed_endpoint_converter (anthropic_parts ch cfg rc W))"
  "lookup_converter (gateway_mapper ch cfg rc W pq be) (EP_OpenAI OpenAI_ChatCompletions) (EP_Bedrock Bedrock_Converse) =
     Inr (typed_endpoint_converter (bedrock_parts ch cfg rc W))"
  by (simp_all add: lookup_converter_def gateway_mapper_def get_converter_def registry_new_def register_converter_def Let_def)

lemma gateway_mapper_simps [simp]:
  "me_chrono (gateway_mapper ch cfg rc W pq be) = ch" "me_path_and_query (gateway_mapper ch cfg rc W pq be) = pq"
  "me_registry (gateway_mapper ch cfg rc W pq be) = registry_new"
  by (simp_all add: gateway_mapper_def)

lemma read_converse_error_object: "read_converse_error describe (CHR ''{'' # rest) = Inl (describe (CHR ''{'' # rest))"
  by (simp add: read_converse_error_def json_space_def)

section \<open>Concrete codecs\<close>

text \<open>Bodies that are their texts.\<close>

definition text_chunk :: "string \<Rightarrow> oa_chunk" where
  "text_chunk t = placeholder_chunk
     \<lparr>sc_index = 0, sc_delta = delta_empty\<lparr>dl_content := Some t\<rparr>, sc_finish_reason = None\<rparr> None"

definition plain_codec ::
  "(string \<Rightarrow> 'req) \<Rightarrow> ('req \<Rightarrow> string) \<Rightarrow> 'resp \<Rightarrow> (string \<Rightarrow> 'chunk) \<Rightarrow> ('chunk \<Rightarrow> (string, string) result) \<Rightarrow> 'err \<Rightarrow>
     ('req, 'resp, 'chunk, 'err) codec" where
  "plain_codec rd wr resp rdc wrc err =
     \<lparr>cd_read_request = (\<lambda>b. Inr (rd b)), cd_write_request = (\<lambda>r. Inr (wr r)), cd_read_response = (\<lambda>b. Inr resp),
      cd_write_response = (\<lambda>r. Inr []), cd_read_chunk = (\<lambda>b. Inr (rdc b)), cd_write_chunk = wrc,
      cd_read_error = (\<lambda>b. Inr err), cd_write_error = (\<lambda>e. Inr []), cd_request_type = ''Request'',
      cd_response_type = ''Response'', cd_chunk_type = ''Chunk'', cd_error_type = ''Error''\<rparr>"

definition plain_openai :: "((nat, string, unit) oa_request, oa_response, oa_chunk, openai_error) codec" where
  "plain_openai = plain_codec (\<lambda>b. sample_chat ''anthropic/claude-3-opus-preview'' [OM_User (UC_Text b)]) or_model
     \<lparr>rs_id = [], rs_model = [], rs_object = [], rs_created = 0, rs_choices = [], rs_usage = None\<rparr>
     text_chunk (\<lambda>c. if c = text_chunk (chunk_text c) then Inr (chunk_text c) else Inl ''no text'')
     (openai_error_from_status 500 None)"

definition plain_wire :: "(nat, string, unit, string) wire" where
  "plain_wire =
     \<lparr>wi_openai = plain_openai, wi_gemini = plain_openai, wi_ollama = plain_openai,
      wi_anthropic = plain_codec (\<lambda>b. sample_messages [AN_Text b] None) nr_model two_texts
        (\<lambda>b. EV_ContentBlockDelta 0 (BD_Text b)) (\<lambda>e. Inl ''no text'')
        \<lparr>ea_message = ''overloaded'', ea_error_kind = ''overloaded_error'', ea_kind = ''error''\<rparr>,
      wi_bedrock = plain_codec (\<lambda>b. \<lparr>bq_model_id = None, bq_system = None, bq_messages = None,
          bq_request_metadata = None, bq_tool_config = None, bq_inference_config = None\<rparr>) (\<lambda>r. []) weather_output
        (\<lambda>b. BE_ContentBlockDelta 0 (Some (DE_Text b))) (\<lambda>e. Inl ''no text'') (),
      wi_json = sample_json, wi_uri = sample_uri, wi_sdk = sample_sdk, wi_uuid = ''chatcmpl-1'',
      wi_describe = (\<lambda>b. ''expected unit struct ConverseError'')\<rparr>"

lemma plain_wire_simps [simp]:
  "wi_openai plain_wire = plain_openai" "wi_json plain_wire = sample_json" "wi_uri plain_wire = sample_uri"
  "cd_read_chunk (wi_anthropic plain_wire) b = Inr (EV_ContentBlockDelta 0 (BD_Text b))"
  "cd_write_request (wi_anthropic plain_wire) q = Inr (nr_model q)"
  by (simp_all add: plain_wire_def plain_codec_def)

lemma plain_openai_simps [simp]:
  "cd_read_chunk plain_openai b = Inr (text_chunk b)"
  "cd_write_chunk plain_openai c = (if c = text_chunk (chunk_text c) then Inr (chunk_text c) else Inl ''no text'')"
  "cd_read_request plain_openai b = Inr (sample_chat ''anthropic/claude-3-opus-preview'' [OM_User (UC_Text b)])"
  by (simp_all add: plain_openai_def plain_codec_def)

lemma chunk_text_text_chunk [simp]: "chunk_text (text_chunk t) = t"
  by (simp add: chunk_text_def text_chunk_def placeholder_chunk_def delta_empty_def)

section \<open>Properties\<close>

text \<open>C11. The text of a stream: whatever the events of Anthropic are, as long as each can be read and converted,
  the texts of the chunks that the client of the gateway reads are together the texts of the events up
  to the end marker, nothing lost, added or reordered.\<close>

theorem anthropic_stream_text:
  assumes "\<And>c b. cd_write_chunk (wi_openai W) c = Inr b \<Longrightarrow> cd_read_chunk (wi_openai W) b = Inr c"
    and "\<forall>ev \<in> set rest. \<exists>x. ev = Inr x"
    and "\<forall>d \<in> set (event_data rest). \<exists>r. convert_resp_body (anthropic_parts ch cfg rc W) status d True = Inr r"
  shows "\<exists>fs. sse_stream sb (Inr SSE_Open # rest) = Inr fs \<and>
    concat (map (frame_text (wi_openai W)) (map_frames (gateway_mapper ch cfg rc W pq be)
      (lookup_converter (gateway_mapper ch cfg rc W pq be) (EP_OpenAI OpenAI_ChatCompletions) (EP_Anthropic Anthropic_Messages))
      status fs)) =
    concat (map (\<lambda>d. event_text (projr (cd_read_chunk (wi_anthropic W) d))) (takeWhile (\<lambda>d. d \<noteq> DONE) (event_data rest)))"
proof -
  let ?ds = "takeWhile (\<lambda>d. d \<noteq> DONE) (event_data rest)"
  have "sse_stream sb (Inr SSE_Open # rest) = Inr (map Inr ?ds)"
    using sse_loop_no_errors[OF assms(2), of sb] by (simp add: sse_stream_def event_data_def)
  moreover have "\<forall>d \<in> set ?ds. \<exists>r. convert_resp_body (anthropic_parts ch cfg rc W) status d True = Inr r"
    using assms(3) set_takeWhileD by fastforce
  moreover have "tp_read_chunk (anthropic_parts ch cfg rc W) = cd_read_chunk (wi_anthropic W)"
    by (simp add: anthropic_parts_def Let_def)
  ultimately show ?thesis using anthropic_text.frames_text[OF assms(1) _ gateway_lookup(1)] by fastforce
qed

theorem anthropic_stream_text_witness:
  "\<exists>fs. sse_stream (\<lambda>e. Inr []) (Inr SSE_Open # map (\<lambda>d. Inr (SSE_Message d)) [''Hel'', ''lo'', ''[DONE]'', ''!'']) = Inr fs \<and>
    concat (map (frame_text plain_openai) (map_frames (gateway_mapper padded_calendar sample_config None plain_wire Inr (\<lambda>e. []))
      (lookup_converter (gateway_mapper padded_calendar sample_config None plain_wire Inr (\<lambda>e. []))
        (EP_OpenAI OpenAI_ChatCompletions) (EP_Anthropic Anthropic_Messages)) 200 fs)) = ''Hello''"
proof -
  have law: "cd_write_chunk (wi_openai plain_wire) c = Inr b \<Longrightarrow> cd_read_chunk (wi_openai plain_wire) b = Inr c" for c b
    by (auto split: if_splits)
  have "convert_resp_body (anthropic_parts padded_calendar sample_config None plain_wire) 200 d True = Inr (Some d)" for d
    by (simp add: convert_resp_body_def anthropic_parts_def Let_def u32_or_0_def text_chunk_def[symmetric])
  then show ?thesis
    using anthropic_stream_text[where W = plain_wire and ch = padded_calendar and cfg = sample_config and rc = None
        and status = 200 and sb = "\<lambda>e. Inr []" and pq = Inr and be = "\<lambda>e. []"
        and rest = "map (\<lambda>d. Inr (SSE_Message d)) [''Hel'', ''lo'', ''[DONE]'', ''!'']", OF law]
    by (simp add: event_data_def List.map_filter_simps DONE_def)
qed

text \<open>An error of Bedrock never reaches the caller as such: its body is a JSON object, the reader of the
  gateway takes only \<open>null\<close>, and the caller gets an internal error with status 500 for every throttling,
  authorization or validation error of Bedrock.\<close>

theorem bedrock_error_is_internal:
  assumes "ds_body resp = [Inr (CHR ''{'' # rest)]" "\<not> mx_is_stream (ds_mapper_context resp)"
    and "is_client_error (ds_status resp) \<or> is_server_error (ds_status resp)"
  shows "\<exists>er. map_response (gateway_mapper ch cfg rc W pq be) (EP_Bedrock Bedrock_Converse)
      (EP_OpenAI OpenAI_ChatCompletions) resp = Inl er \<and> er_status (api_into_response status display er) = 500"
  using assms
  by (auto simp: map_response_def gateway_lookup typed_endpoint_converter_def convert_resp_body_def bedrock_parts_def
      Let_def read_converse_error_object mapper_err_def internal_into_response_def json_error_def)

definition throttled :: "ymd dispatch_response" where
  "throttled = \<lparr>ds_status = 429, ds_headers = [], ds_body = [Inr ''{message: slow down}''], ds_provider = P_Bedrock,
     ds_router_id = None, ds_auth_context = None, ds_provider_request_id = None,
     ds_mapper_context = \<lparr>mx_is_stream = False, mx_model = None\<rparr>, ds_path_and_query = []\<rparr>"

theorem bedrock_error_is_internal_witness:
  "\<exists>er. map_response (gateway_mapper padded_calendar sample_config None plain_wire Inr (\<lambda>e. [])) (EP_Bedrock Bedrock_Converse)
      (EP_OpenAI OpenAI_ChatCompletions) throttled = Inl er \<and> er_status (api_into_response show_nat (\<lambda>e. []) er) = 500"
  by (rule bedrock_error_is_internal) (simp_all add: throttled_def)

text \<open>C12. A request to Anthropic from end to end: what goes out is the conversion of what came in, and the mapper
  tells the dispatcher to expect a stream exactly if the request that goes out asks for one.\<close>

theorem anthropic_request_end_to_end:
  assumes "dq_body req = Inr bytes" "cd_read_request (wi_openai W) bytes = Inr r"
    and "map_request (gateway_mapper ch cfg rc W pq be) (EP_OpenAI OpenAI_ChatCompletions) (EP_Anthropic Anthropic_Messages)
      path req = Inr req'"
  shows "\<exists>out body ctx. anthropic_request ch cfg rc (wi_json W) (wi_uri W) r = Inr out \<and>
    cd_write_request (wi_anthropic W) out = Inr body \<and> dq_body req' = Inr body \<and>
    dq_mapper_context req' = Some ctx \<and> (mx_is_stream ctx \<longleftrightarrow> nr_stream out = Some True)"
proof -
  obtain body ctx where m: "convert_req_body (anthropic_parts ch cfg rc W) bytes = Inr (body, ctx)"
    "dq_body req' = Inr body" "dq_mapper_context req' = Some ctx"
    using map_request_Ok[OF assms(3)] assms(1) by (auto simp: gateway_lookup typed_endpoint_converter_def)
  then obtain out where out: "anthropic_request ch cfg rc (wi_json W) (wi_uri W) r = Inr out"
    "cd_write_request (wi_anthropic W) out = Inr body" "mx_is_stream ctx = request_is_stream (chat_request_of r)"
    using assms(2) by (auto simp: convert_req_body_def anthropic_parts_def Let_def)
  moreover have "nr_stream out = or_stream r" using anthropic_request_Ok[OF out(1)] by blast
  ultimately show ?thesis using m(2,3)
    by (auto simp: request_is_stream_def chat_request_of_def split: option.splits)
qed

lemma sample_model_out:
  "model_id_with_version_from_str padded_calendar ''claude-3-opus-latest'' = Inr (dated_opus\<lparr>mv_version := Latest\<rparr>)"
proof -
  have r: "rfind ''-preview-'' ''claude-3-opus-latest'' = None"
    by (simp add: rfind_def find_index_None_iff upt_rec)
  have p: "strip_suffix ''-preview'' ''claude-3-opus-latest'' = None"
    "strip_suffix ''-latest'' ''claude-3-opus-latest'' = Some ''claude-3-opus''"
    by (simp_all add: strip_suffix_def ends_with_def)
  show ?thesis
    by (simp add: model_id_with_version_from_str_def parse_model_and_version_def dated_preview_def ends_with_def r p
        dated_opus_def)
qed

theorem anthropic_request_end_to_end_witness:
  "\<exists>req' ctx. map_request (gateway_mapper padded_calendar sample_config None plain_wire Inr (\<lambda>e. []))
      (EP_OpenAI OpenAI_ChatCompletions) (EP_Anthropic Anthropic_Messages) ''/v1/chat/completions''
      (sample_dispatch False [] P_Anthropic) = Inr req' \<and> dq_mapper_context req' = Some ctx \<and> \<not> mx_is_stream ctx"
proof -
  let ?M = "gateway_mapper padded_calendar sample_config None plain_wire Inr (\<lambda>e. [])"
  let ?r = "sample_chat ''anthropic/claude-3-opus-preview'' [OM_User (UC_Text ''{}'')]"
  have "str_contains ''claude-3'' ''claude-3-opus''" by (simp add: str_contains_def rfind_def upt_rec)
  then have "model_id_display padded_calendar (anthropic_alias (ModelIdWithVersion P_Anthropic dated_opus)) = ''claude-3-opus-latest''"
    using anthropic_alias_display[of padded_calendar dated_opus] by (simp add: dated_opus_def)
  then obtain out where out: "anthropic_request padded_calendar sample_config None sample_json sample_uri ?r = Inr out"
    "nr_model out = ''claude-3-opus-latest''" "nr_stream out = None"
    by (simp add: anthropic_request_def Let_def anthropic_target_model_def parse_sample_opus sample_map_opus sample_chat_def)
  then obtain body ctx where "convert_req_body (anthropic_parts padded_calendar sample_config None plain_wire) ''{}'' = Inr (body, ctx)"
    by (simp add: convert_req_body_def anthropic_parts_def Let_def sample_model_out)
  then obtain req' where req': "map_request ?M (EP_OpenAI OpenAI_ChatCompletions) (EP_Anthropic Anthropic_Messages)
      ''/v1/chat/completions'' (sample_dispatch False [] P_Anthropic) = Inr req'"
    by (simp add: map_request_def gateway_lookup typed_endpoint_converter_def sample_dispatch_def mapped_path_def
        mapper_err_def)
  have "cd_read_request (wi_openai plain_wire) ''{}'' = Inr ?r" by simp
  with anthropic_request_end_to_end[OF _ this req'] out req' show ?thesis by (auto simp: sample_dispatch_def)
qed

end
