(* ===== verification/Logger.thy ===== *)
theory Logger
  imports Dispatcher Control_Plane
begin

text \<open>
  The logging of an exchange: the reader that sees what the client gets (\<open>types/body.rs\<close>), the upload of the
  bodies (\<open>logger/s3.rs\<close>) and the record for the control plane (\<open>logger/service.rs\<close>, \<open>types/logger.rs\<close>,
  \<open>types/response.rs\<close>). Parameters: the HTTP client, the signing of URLs, UTF-8, JSON and clocks. A log is a
  handler over the list of the calls that it makes.
\<close>

section \<open>The body of the client and its reader\<close>

record body_reader =
  br_rx :: "string list"
  br_closed :: bool
  br_tfft_tx :: bool
  br_is_end_stream :: bool
  br_append_newlines :: bool

definition body_reader_new :: "bool \<Rightarrow> body_reader" where
  "body_reader_new append_newlines =
     \<lparr>br_rx = [], br_closed = False, br_tfft_tx = True, br_is_end_stream = False, br_append_newlines = append_newlines\<rparr>"

text \<open>What the stream of the client does with an item, in \<open>wrap_stream\<close>.\<close>

fun tee_item :: "(api_error, string) result \<Rightarrow> body_reader \<Rightarrow> body_reader" where
  "tee_item (Inr b) r = r\<lparr>br_rx := br_rx r @ [b]\<rparr>"
| "tee_item (Inl e) r = r"

definition reader_frame :: "bool \<Rightarrow> string \<Rightarrow> string" where
  "reader_frame append_newlines b =
     (if append_newlines then ''data: '' @ b @ [CHR 0x0A, CHR 0x0A] else b)"

text \<open>\<open>poll_frame\<close>: the frame, the reader and whether the signal of the first frame is sent.\<close>

definition poll_frame :: "body_reader \<Rightarrow> string option poll \<times> body_reader \<times> bool" where
  "poll_frame r =
     (case br_rx r of
        b # bs \<Rightarrow> (Ready (Some (reader_frame (br_append_newlines r) b)), r\<lparr>br_rx := bs, br_tfft_tx := False\<rparr>, br_tfft_tx r)
      | [] \<Rightarrow>
          if br_closed r then (Ready None, r\<lparr>br_is_end_stream := True\<rparr>, False) else (Pending, r, False))"

text \<open>\<open>BodyExt::collect\<close> of the reader; \<open>None\<close> is that more polls are needed.\<close>

fun collect_body :: "nat \<Rightarrow> body_reader \<Rightarrow> string option" where
  "collect_body 0 r = None"
| "collect_body (Suc n) r =
     (case poll_frame r of
        (Ready (Some f), r', _) \<Rightarrow> map_option (\<lambda>rest. f @ rest) (collect_body n r')
      | (Ready None, _, _) \<Rightarrow> Some []
      | (Pending, _, _) \<Rightarrow> None)"

text \<open>The two sides run on their own: the client takes an item, the body of the client is dropped (at its end
  or before), the logger polls.\<close>

record tee =
  te_stream :: frames
  te_delivered :: frames
  te_reader :: body_reader
  te_logged :: "string list"
  te_signals :: nat
  te_done :: bool

definition wrap_stream :: "frames \<Rightarrow> bool \<Rightarrow> tee" where
  "wrap_stream stream append_newlines =
     \<lparr>te_stream = stream, te_delivered = [], te_reader = body_reader_new append_newlines, te_logged = [],
      te_signals = 0, te_done = False\<rparr>"

definition tee_after_poll :: "string option poll \<Rightarrow> body_reader \<Rightarrow> bool \<Rightarrow> tee \<Rightarrow> tee" where
  "tee_after_poll r b s T =
     T\<lparr>te_reader := b, te_logged := te_logged T @ (case r of Ready (Some f) \<Rightarrow> [f] | _ \<Rightarrow> []),
       te_signals := te_signals T + (if s then 1 else 0), te_done := (te_done T \<or> r = Ready None)\<rparr>"

inductive tee_step :: "tee \<Rightarrow> tee \<Rightarrow> bool" where
  tee_deliver: "te_stream T = x # xs \<Longrightarrow> \<not> br_closed (te_reader T) \<Longrightarrow>
    tee_step T (T\<lparr>te_stream := xs, te_delivered := te_delivered T @ [x], te_reader := tee_item x (te_reader T)\<rparr>)"
| tee_drop: "tee_step T (T\<lparr>te_reader := (te_reader T)\<lparr>br_closed := True\<rparr>\<rparr>)"
| tee_poll: "poll_frame (te_reader T) = (r, b, s) \<Longrightarrow> tee_step T (tee_after_poll r b s T)"

section \<open>Errors\<close>

datatype logger_error =
    LE_InvalidHeaderStr
  | LE_InvalidLogMessage
  | LE_FailedToSendRequest string
  | LE_ResponseError string
  | LE_InvalidUrl string
  | LE_BodyNotUtf8
  | LE_NoAuthContextSet
  | LE_UnexpectedResponse string

fun logger_error_as_ref :: "logger_error \<Rightarrow> string" where
  "logger_error_as_ref LE_InvalidHeaderStr = ''InvalidHeaderStr''"
| "logger_error_as_ref LE_InvalidLogMessage = ''InvalidLogMessage''"
| "logger_error_as_ref (LE_FailedToSendRequest _) = ''FailedToSendRequest''"
| "logger_error_as_ref (LE_ResponseError _) = ''ResponseError''"
| "logger_error_as_ref (LE_InvalidUrl _) = ''InvalidUrl''"
| "logger_error_as_ref LE_BodyNotUtf8 = ''BodyNotUtf8''"
| "logger_error_as_ref LE_NoAuthContextSet = ''NoAuthContextSet''"
| "logger_error_as_ref (LE_UnexpectedResponse _) = ''UnexpectedResponse''"

section \<open>Records\<close>

record s3_log =
  s3_request :: string
  s3_response :: string

record log_metadata =
  lm_model_override :: "string option"
  lm_omit_request_log :: bool
  lm_omit_response_log :: bool
  lm_webhook_enabled :: bool
  lm_posthog_api_key :: "string option"
  lm_posthog_host :: "string option"
  lm_lytix_key :: "string option"

text \<open>\<open>remove(name).map(to_str).transpose()\<close>: an absent header is no value, an unreadable one an error.\<close>

definition take_header :: "string \<Rightarrow> (headers, logger_error, string option) handler" where
  "take_header n hs =
     (case header_get n hs of
        None \<Rightarrow> (Inr None, hs)
      | Some v \<Rightarrow> (map_err (\<lambda>_. LE_InvalidHeaderStr) (rbind (ok_or () (header_to_str v)) (\<lambda>s. Inr (Some s))), header_remove n hs))"

definition metadata_from_headers :: "(headers, logger_error, log_metadata) handler" where
  "metadata_from_headers =
     hbind (take_header ''x-helicone-model-override'') (\<lambda>model_override.
     hbind (\<lambda>hs. (Inr (header_get ''x-helicone-omit-request-log'' hs \<noteq> None), hs)) (\<lambda>omit_request_log.
     hbind (\<lambda>hs. (Inr (header_get ''x-helicone-omit-response-log'' hs \<noteq> None), hs)) (\<lambda>omit_response_log.
     hbind (\<lambda>hs. (Inr (header_get ''x-helicone-webhook-enabled'' hs \<noteq> None), header_remove ''x-helicone-webhook-enabled'' hs)) (\<lambda>webhook_enabled.
     hbind (take_header ''x-helicone-posthog-api-key'') (\<lambda>posthog_api_key.
     hbind (take_header ''x-helicone-posthog-host'') (\<lambda>posthog_host.
     hbind (take_header ''x-helicone-lytix-key'') (\<lambda>lytix_key.
       hlift (Inr \<lparr>lm_model_override = model_override, lm_omit_request_log = omit_request_log,
                   lm_omit_response_log = omit_response_log, lm_webhook_enabled = webhook_enabled,
                   lm_posthog_api_key = posthog_api_key, lm_posthog_host = posthog_host, lm_lytix_key = lytix_key\<rparr>))))))))"

record request_log =
  rq_id :: string
  rq_user_id :: string
  rq_target_url :: string
  rq_provider :: string
  rq_body_size :: f64
  rq_path :: string
  rq_created_at :: int
  rq_is_stream :: bool

record response_log =
  rl_id :: string
  rl_status :: f64
  rl_body_size :: f64
  rl_created_at :: int
  rl_delay_ms :: f64

record log_message =
  lg_authorization :: string
  lg_meta :: log_metadata
  lg_request :: request_log
  lg_response :: response_log

section \<open>The outside\<close>

text \<open>The outcome of an HTTP call: it is not sent, its status is an error, its body is unreadable, or it is
  answered. \<open>JawnResponse\<close> has the data or an error.\<close>

datatype 'a http_outcome = Not_Sent string | Error_Status string | Unreadable string | Answered 'a

datatype 'a jawn_response = Jawn_Data 'a | Jawn_Error string

datatype log_call =
    Call_Sign (cs_url: string) (cs_auth: string) (cs_request: string) (cs_size: nat)
  | Call_Put (cp_url: string) (cp_log: s3_log)
  | Call_Post (cp_url: string) (cp_auth: string) (cp_message: log_message)

record log_env =
  le_join :: "string \<Rightarrow> string \<Rightarrow> (string, string) result"
  le_utf8 :: "string \<Rightarrow> bool"
  le_write_log :: "s3_log \<Rightarrow> (string, string) result"
  le_sign_put :: "string \<Rightarrow> string"
  le_sign :: "string \<Rightarrow> string \<Rightarrow> string \<Rightarrow> nat \<Rightarrow> string jawn_response http_outcome"
  le_put :: "string \<Rightarrow> s3_log \<Rightarrow> unit http_outcome"
  le_post :: "string \<Rightarrow> string \<Rightarrow> log_message \<Rightarrow> unit http_outcome"
  le_url_path :: "string \<Rightarrow> string"
  le_uppercase :: "string \<Rightarrow> string"
  le_uuid :: string
  le_now :: int

text \<open>A call, whose outcome \<open>send\<close>, \<open>error_for_status\<close> and the reader of the body look at.\<close>

definition http_call :: "log_call \<Rightarrow> 'a http_outcome \<Rightarrow> (log_call list, logger_error, 'a) handler" where
  "http_call c outcome calls =
     (case outcome of
        Not_Sent e \<Rightarrow> Inl (LE_FailedToSendRequest e)
      | Error_Status e \<Rightarrow> Inl (LE_ResponseError e)
      | Unreadable e \<Rightarrow> Inl (LE_ResponseError e)
      | Answered a \<Rightarrow> Inr a, calls @ [c])"

fun jawn_data :: "'a jawn_response \<Rightarrow> (string, 'a) result" where
  "jawn_data (Jawn_Data d) = Inr d"
| "jawn_data (Jawn_Error e) = Inl e"

definition utf8_text :: "log_env \<Rightarrow> string \<Rightarrow> (logger_error, string) result" where
  "utf8_text E b = (if le_utf8 E b then Inr b else Inl LE_BodyNotUtf8)"

section \<open>Logging\<close>

text \<open>\<open>S3Client::log_bodies\<close>, whose client is chosen by the deployment target.\<close>

definition signed_by_self ::
  "log_env \<Rightarrow> auth_context \<Rightarrow> string \<Rightarrow> string \<Rightarrow> string \<Rightarrow> (log_call list, logger_error, string \<times> s3_log) handler" where
  "signed_by_self E auth request_id request_body response_body =
     (let object_path = ''organizations/'' @ ac_org_id auth @ ''/requests/'' @ request_id @ ''/raw_request_response_body'' in
      hbind (hlift (utf8_text E request_body)) (\<lambda>req.
      hbind (hlift (utf8_text E response_body)) (\<lambda>resp.
        hlift (Inr (le_sign_put E object_path, \<lparr>s3_request = req, s3_response = resp\<rparr>)))))"

definition signed_by_jawn ::
  "log_env \<Rightarrow> string \<Rightarrow> auth_context \<Rightarrow> string \<Rightarrow> string \<Rightarrow> string \<Rightarrow> (log_call list, logger_error, string \<times> s3_log) handler" where
  "signed_by_jawn E base_url auth request_id request_body response_body =
     hbind (hlift (map_err LE_InvalidUrl (le_join E base_url ''/v1/router/control-plane/sign-s3-url''))) (\<lambda>url.
     hbind (hlift (utf8_text E request_body)) (\<lambda>req.
     hbind (hlift (utf8_text E response_body)) (\<lambda>resp.
       let s3_log = \<lparr>s3_request = req, s3_response = resp\<rparr>; bearer = ''Bearer '' @ ac_api_key auth in
       hbind (hlift (map_err (\<lambda>_. LE_InvalidLogMessage) (le_write_log E s3_log))) (\<lambda>bytes.
       hbind (http_call (Call_Sign url bearer request_id (length bytes)) (le_sign E url bearer request_id (length bytes))) (\<lambda>jawn.
       hbind (hlift (map_err LE_UnexpectedResponse (jawn_data jawn))) (\<lambda>signed_url.
         hlift (Inr (signed_url, s3_log))))))))"

definition log_bodies ::
  "log_env \<Rightarrow> deployment_target \<Rightarrow> string \<Rightarrow> auth_context \<Rightarrow> string \<Rightarrow> string \<Rightarrow> string \<Rightarrow> (log_call list, logger_error, unit) handler" where
  "log_bodies E target base_url auth request_id request_body response_body =
     hbind (case target of
         DT_Cloud \<Rightarrow> signed_by_self E auth request_id request_body response_body
       | DT_Sidecar \<Rightarrow> signed_by_jawn E base_url auth request_id request_body response_body) (\<lambda>(signed_url, s3_log).
       http_call (Call_Put signed_url s3_log) (le_put E signed_url s3_log))"

text \<open>What the dispatcher hands to the logger; \<open>ls_response_body\<close> is the collected body and \<open>ls_tfft_ms\<close> the
  time to its first frame in milliseconds, if there was one.\<close>

record logger_service =
  ls_auth_ctx :: auth_context
  ls_start_time :: int
  ls_request_body :: string
  ls_response_body :: string
  ls_target_url :: string
  ls_request_headers :: headers
  ls_response_status :: nat
  ls_provider :: inference_provider
  ls_tfft_ms :: "nat option"

definition log_provider :: "log_env \<Rightarrow> inference_provider \<Rightarrow> string" where
  "log_provider E p =
     (case p of
        P_Ollama \<Rightarrow> ''CUSTOM''
      | P_GoogleGemini \<Rightarrow> ''GOOGLE''
      | provider \<Rightarrow> le_uppercase E (provider_display provider))"

definition log_record :: "log_env \<Rightarrow> logger_service \<Rightarrow> log_metadata \<Rightarrow> log_message" where
  "log_record E L meta =
     \<lparr>lg_authorization = ac_api_key (ls_auth_ctx L), lg_meta = meta,
      lg_request = \<lparr>rq_id = le_uuid E, rq_user_id = ac_user_id (ls_auth_ctx L), rq_target_url = ls_target_url L,
        rq_provider = log_provider E (ls_provider L), rq_body_size = f64_of_nat (length (ls_request_body L)),
        rq_path = le_url_path E (ls_target_url L), rq_created_at = ls_start_time L, rq_is_stream = False\<rparr>,
      lg_response = \<lparr>rl_id = le_uuid E, rl_status = f64_of_nat (ls_response_status L),
        rl_body_size = f64_of_nat (length (ls_response_body L)), rl_created_at = le_now E,
        rl_delay_ms = f64_of_nat (case ls_tfft_ms L of Some ms \<Rightarrow> ms | None \<Rightarrow> 0)\<rparr>\<rparr>"

definition logger_log :: "log_env \<Rightarrow> deployment_target \<Rightarrow> string \<Rightarrow> logger_service \<Rightarrow> (log_call list, logger_error, unit) handler" where
  "logger_log E target base_url L =
     hbind (log_bodies E target base_url (ls_auth_ctx L) (le_uuid E) (ls_request_body L) (ls_response_body L)) (\<lambda>_.
     hbind (hlift (fst (metadata_from_headers (ls_request_headers L)))) (\<lambda>meta.
     hbind (hlift (map_err LE_InvalidUrl (le_join E base_url ''/v1/log/request''))) (\<lambda>helicone_url.
       let log_message = log_record E L meta; bearer = ''Bearer '' @ ac_api_key (ls_auth_ctx L) in
       http_call (Call_Post helicone_url bearer log_message) (le_post E helicone_url bearer log_message))))"

section \<open>Lemmas\<close>

definition ok_items :: "frames \<Rightarrow> string list" where
  "ok_items fs = List.map_filter (\<lambda>f. case f of Inr b \<Rightarrow> Some b | Inl e \<Rightarrow> None) fs"

lemma ok_items_simps [simp]:
  "ok_items [] = []" "ok_items (fs @ [Inr b]) = ok_items fs @ [b]" "ok_items (fs @ [Inl e]) = ok_items fs"
  by (simp_all add: ok_items_def List.map_filter_simps map_filter_def)

text \<open>What has been delivered to the client is logged or waits to be, and the signal is sent with the first frame.\<close>

definition tee_inv :: "frames \<Rightarrow> bool \<Rightarrow> tee \<Rightarrow> bool" where
  "tee_inv stream app T \<longleftrightarrow>
     te_delivered T @ te_stream T = stream \<and> br_append_newlines (te_reader T) = app \<and>
     te_logged T @ map (reader_frame app) (br_rx (te_reader T)) = map (reader_frame app) (ok_items (te_delivered T)) \<and>
     te_signals T = (if te_logged T = [] then 0 else 1) \<and> br_tfft_tx (te_reader T) = (te_logged T = []) \<and>
     (te_done T \<longrightarrow> br_rx (te_reader T) = [] \<and> br_closed (te_reader T))"

lemma tee_inv_init: "tee_inv stream app (wrap_stream stream app)"
  by (simp add: tee_inv_def wrap_stream_def body_reader_new_def)

lemma tee_inv_step:
  assumes "tee_step T T'" "tee_inv stream app T"
  shows "tee_inv stream app T'"
  using assms
proof (cases rule: tee_step.cases)
  case (tee_deliver x xs)
  then show ?thesis using assms(2) by (cases x) (auto simp: tee_inv_def)
next
  case tee_drop
  then show ?thesis using assms(2) by (auto simp: tee_inv_def)
next
  case (tee_poll r b s)
  then show ?thesis using assms(2)
    by (auto simp: tee_inv_def tee_after_poll_def poll_frame_def split: list.splits if_splits)
qed

lemma tee_inv_reachable:
  assumes "tee_step\<^sup>*\<^sup>* (wrap_stream stream app) T"
  shows "tee_inv stream app T"
  using assms by (induction rule: rtranclp_induct) (auto intro: tee_inv_init tee_inv_step)

lemma collect_body_closed:
  "br_closed r \<Longrightarrow> collect_body (Suc (length (br_rx r))) r = Some (concat (map (reader_frame (br_append_newlines r)) (br_rx r)))"
proof (induction "br_rx r" arbitrary: r)
  case Nil
  then show ?case by (simp add: poll_frame_def)
next
  case (Cons b bs)
  have "collect_body (Suc (length bs)) (r\<lparr>br_rx := bs, br_tfft_tx := False\<rparr>) =
      Some (concat (map (reader_frame (br_append_newlines r)) bs))"
    using Cons.hyps(1)[of "r\<lparr>br_rx := bs, br_tfft_tx := False\<rparr>"] Cons.prems by simp
  then show ?case by (simp add: poll_frame_def Cons.hyps(2)[symmetric] del: collect_body.simps(2))
       (simp add: poll_frame_def Cons.hyps(2)[symmetric])
qed

fun is_put :: "log_call \<Rightarrow> bool" where
  "is_put (Call_Put u l) = True"
| "is_put c = False"

fun is_post :: "log_call \<Rightarrow> bool" where
  "is_post (Call_Post u a m) = True"
| "is_post c = False"

definition log_bodies_of :: "log_env \<Rightarrow> deployment_target \<Rightarrow> string \<Rightarrow> logger_service \<Rightarrow> (logger_error, unit) result \<times> log_call list" where
  "log_bodies_of E target base_url L =
     log_bodies E target base_url (ls_auth_ctx L) (le_uuid E) (ls_request_body L) (ls_response_body L) []"

text \<open>The calls of a log: those of the bodies, and then at most the record.\<close>

lemma logger_log_calls:
  obtains "snd (logger_log E target base_url L []) = snd (log_bodies_of E target base_url L)"
  | u a m where "fst (log_bodies_of E target base_url L) = Inr ()" "m = log_record E L (lg_meta m)"
      "snd (logger_log E target base_url L []) = snd (log_bodies_of E target base_url L) @ [Call_Post u a m]"
proof -
  let ?b = "log_bodies_of E target base_url L"
  have meta: "lg_meta (log_record E L x) = x" for x by (simp add: log_record_def)
  show ?thesis
  proof (cases "fst ?b")
    case (Inl e)
    then have "snd (logger_log E target base_url L []) = snd ?b"
      by (cases ?b) (simp add: logger_log_def hbind_def log_bodies_of_def)
    then show ?thesis by (rule that(1))
  next
    case (Inr x)
    then obtain calls where b: "log_bodies E target base_url (ls_auth_ctx L) (le_uuid E) (ls_request_body L)
        (ls_response_body L) [] = (Inr (), calls)" "?b = (Inr (), calls)"
      by (cases ?b) (auto simp: log_bodies_of_def)
    show ?thesis
    proof (cases "fst (metadata_from_headers (ls_request_headers L))")
      case (Inl e)
      then show ?thesis using that(1) b by (simp add: logger_log_def hbind_def hlift_def)
    next
      case (Inr meta)
      note m = this
      show ?thesis
      proof (cases "le_join E base_url ''/v1/log/request''")
        case (Inl e)
        then show ?thesis using that(1) b m by (simp add: logger_log_def hbind_def hlift_def)
      next
        case (Inr url)
        have "snd (logger_log E target base_url L []) =
            calls @ [Call_Post url (''Bearer '' @ ac_api_key (ls_auth_ctx L)) (log_record E L meta)]"
          using b m Inr by (simp add: logger_log_def hbind_def hlift_def Let_def http_call_def)
        then show ?thesis using that(2)[of "log_record E L meta"] b(2) by (simp add: meta)
      qed
    qed
  qed
qed

lemma log_bodies_calls:
  obtains "\<forall>c \<in> set (snd (log_bodies_of E target base_url L)). \<not> is_put c \<and> \<not> is_post c" "fst (log_bodies_of E target base_url L) \<noteq> Inr ()"
  | u pre where "le_utf8 E (ls_request_body L)" "le_utf8 E (ls_response_body L)"
      "snd (log_bodies_of E target base_url L) = pre @ [Call_Put u \<lparr>s3_request = ls_request_body L, s3_response = ls_response_body L\<rparr>]"
      "\<forall>c \<in> set pre. \<not> is_put c \<and> \<not> is_post c"
      "fst (log_bodies_of E target base_url L) = Inr () \<longrightarrow>
         le_put E u \<lparr>s3_request = ls_request_body L, s3_response = ls_response_body L\<rparr> = Answered ()"
proof -
  let ?log = "\<lparr>s3_request = ls_request_body L, s3_response = ls_response_body L\<rparr>"
  let ?s = "case target of
      DT_Cloud \<Rightarrow> signed_by_self E (ls_auth_ctx L) (le_uuid E) (ls_request_body L) (ls_response_body L) []
    | DT_Sidecar \<Rightarrow> signed_by_jawn E base_url (ls_auth_ctx L) (le_uuid E) (ls_request_body L) (ls_response_body L) []"
  have pre: "\<forall>c \<in> set (snd ?s). \<not> is_put c \<and> \<not> is_post c"
    by (cases target) (auto simp: signed_by_self_def signed_by_jawn_def hbind_def hlift_def http_call_def Let_def
        split: prod.splits sum.splits http_outcome.splits)
  have signed: "fst ?s = Inr (u, l) \<Longrightarrow> l = ?log \<and> le_utf8 E (ls_request_body L) \<and> le_utf8 E (ls_response_body L)" for u l
    by (cases target) (auto simp: signed_by_self_def signed_by_jawn_def hbind_def hlift_def utf8_text_def Let_def
        split: prod.splits sum.splits if_splits)
  have run: "log_bodies_of E target base_url L = (case ?s of
      (Inl e, calls) \<Rightarrow> (Inl e, calls)
    | (Inr (u, l), calls) \<Rightarrow> http_call (Call_Put u l) (le_put E u l) calls)"
    by (cases target) (auto simp: log_bodies_of_def log_bodies_def hbind_def split: prod.splits sum.splits)
  show ?thesis
  proof (cases "fst ?s")
    case (Inl e)
    then show ?thesis using that(1) pre by (cases ?s) (auto simp: run)
  next
    case (Inr x)
    then obtain u l calls where s: "?s = (Inr (u, l), calls)" by (cases ?s; cases x) auto
    then have l: "l = ?log" "le_utf8 E (ls_request_body L)" "le_utf8 E (ls_response_body L)" using signed[of u l] by auto
    show ?thesis
      by (rule that(2)[OF l(2,3), of calls u]) (use s pre in \<open>auto simp: run l(1) http_call_def split: http_outcome.splits\<close>)
  qed
qed

section \<open>Properties\<close>

text \<open>C23. What is logged is what the client got: when the reader has ended, the frames that it has read are the
  items without an error that were delivered to the client, each once and in order, even if the client
  hung up in the middle; and the time to the first frame is signalled once, unless there was none.\<close>

theorem logged_is_delivered:
  assumes "tee_step\<^sup>*\<^sup>* (wrap_stream stream append_newlines) T" "te_done T"
  shows "te_logged T = map (reader_frame append_newlines) (ok_items (te_delivered T)) \<and>
    (\<exists>rest. stream = te_delivered T @ rest) \<and>
    te_signals T = (if ok_items (te_delivered T) = [] then 0 else 1)"
proof -
  have inv: "tee_inv stream append_newlines T" by (rule tee_inv_reachable[OF assms(1)])
  then have "te_logged T = map (reader_frame append_newlines) (ok_items (te_delivered T))"
    using assms(2) by (auto simp: tee_inv_def)
  moreover have "\<exists>rest. stream = te_delivered T @ rest" using inv by (auto simp: tee_inv_def)
  ultimately show ?thesis using inv by (simp add: tee_inv_def)
qed

text \<open>The client takes one of two items and hangs up; the reader reads on to the end.\<close>

definition hung_up :: tee where
  "hung_up = \<lparr>te_stream = [Inr ''b''], te_delivered = [Inr ''a''],
     te_reader = \<lparr>br_rx = [], br_closed = True, br_tfft_tx = False, br_is_end_stream = True, br_append_newlines = False\<rparr>,
     te_logged = [''a''], te_signals = 1, te_done = True\<rparr>"

lemma hung_up_reached: "tee_step\<^sup>*\<^sup>* (wrap_stream [Inr ''a'', Inr ''b''] False) hung_up"
proof -
  let ?r = "\<lambda>rx closed tx end. \<lparr>br_rx = rx, br_closed = closed, br_tfft_tx = tx, br_is_end_stream = end, br_append_newlines = False\<rparr>"
  let ?T = "\<lambda>r logged sig end. \<lparr>te_stream = [Inr ''b''], te_delivered = [Inr ''a''], te_reader = r, te_logged = logged,
    te_signals = sig, te_done = end\<rparr>"
  have 1: "tee_step (wrap_stream [Inr ''a'', Inr ''b''] False) (?T (?r [''a''] False True False) [] 0 False)"
    using tee_deliver[of "wrap_stream [Inr ''a'', Inr ''b''] False"] by (simp add: wrap_stream_def body_reader_new_def)
  have 2: "tee_step (?T (?r [''a''] False True False) [] 0 False) (?T (?r [''a''] True True False) [] 0 False)"
    using tee_drop[of "?T (?r [''a''] False True False) [] 0 False"] by simp
  have 3: "tee_step (?T (?r [''a''] True True False) [] 0 False) (?T (?r [] True False False) [''a''] 1 False)"
    using tee_poll[of "?T (?r [''a''] True True False) [] 0 False" "Ready (Some ''a'')" "?r [] True False False" True]
    by (simp add: poll_frame_def tee_after_poll_def reader_frame_def)
  have 4: "tee_step (?T (?r [] True False False) [''a''] 1 False) hung_up"
    using tee_poll[of "?T (?r [] True False False) [''a''] 1 False" "Ready None" "?r [] True False True" False]
    by (simp add: poll_frame_def tee_after_poll_def hung_up_def)
  show ?thesis using 1 2 3 4 by (meson rtranclp.rtrancl_refl rtranclp.rtrancl_into_rtrancl)
qed

theorem logged_is_delivered_witness:
  "te_logged hung_up = map (reader_frame False) (ok_items (te_delivered hung_up)) \<and> te_signals hung_up = 1"
  using logged_is_delivered[OF hung_up_reached] by (simp add: hung_up_def ok_items_def List.map_filter_simps)

text \<open>The headers by which a caller asks to leave the request or the answer out of the log do not keep the
  bodies from being stored: whatever the headers of the request are, the same bodies are uploaded,
  before the headers are read.\<close>

theorem bodies_stored_whatever_headers:
  "filter is_put (snd (logger_log E target base_url (L\<lparr>ls_request_headers := hs\<rparr>) [])) =
   filter is_put (snd (logger_log E target base_url L []))"
proof -
  have "filter is_put (snd (logger_log E target base_url K [])) = filter is_put (snd (log_bodies_of E target base_url K))" for K
    by (rule logger_log_calls[of E target base_url K]) auto
  then show ?thesis by (simp add: log_bodies_of_def)
qed

text \<open>C24. Order and content of a log: what is uploaded are the two bodies, whole and in UTF-8, and the record goes
  to the control plane only after the upload has been answered; it has the sizes of these bodies, and it
  never says that the exchange was a stream.\<close>

theorem record_after_bodies:
  assumes "c \<in> set (snd (logger_log E target base_url L []))"
  shows "(case c of
      Call_Sign u a i n \<Rightarrow> True
    | Call_Put u l \<Rightarrow> le_utf8 E (ls_request_body L) \<and> le_utf8 E (ls_response_body L) \<and>
        l = \<lparr>s3_request = ls_request_body L, s3_response = ls_response_body L\<rparr>
    | Call_Post u a m \<Rightarrow>
        (\<exists>v pre. snd (logger_log E target base_url L []) =
            pre @ [Call_Put v \<lparr>s3_request = ls_request_body L, s3_response = ls_response_body L\<rparr>, c] \<and>
          le_put E v \<lparr>s3_request = ls_request_body L, s3_response = ls_response_body L\<rparr> = Answered ()) \<and>
        rq_body_size (lg_request m) = f64_of_nat (length (ls_request_body L)) \<and>
        rl_body_size (lg_response m) = f64_of_nat (length (ls_response_body L)) \<and> \<not> rq_is_stream (lg_request m))"
proof (rule logger_log_calls[of E target base_url L])
  assume calls: "snd (logger_log E target base_url L []) = snd (log_bodies_of E target base_url L)"
  show ?thesis
    by (rule log_bodies_calls[of E target base_url L]; use assms in \<open>auto simp: calls split: log_call.split\<close>)
next
  fix u a m
  assume ok: "fst (log_bodies_of E target base_url L) = Inr ()" and m: "m = log_record E L (lg_meta m)"
    and calls: "snd (logger_log E target base_url L []) = snd (log_bodies_of E target base_url L) @ [Call_Post u a m]"
  have "rq_body_size (lg_request m) = f64_of_nat (length (ls_request_body L))"
    "rl_body_size (lg_response m) = f64_of_nat (length (ls_response_body L))" "\<not> rq_is_stream (lg_request m)"
    by (subst m, simp add: log_record_def)+
  with ok calls show ?thesis
    by (rule_tac log_bodies_calls[of E target base_url L]; use assms in \<open>auto split: log_call.split\<close>)
qed

definition sample_log_env :: log_env where
  "sample_log_env =
     \<lparr>le_join = (\<lambda>base path. Inr (base @ path)), le_utf8 = (\<lambda>b. True), le_write_log = (\<lambda>l. Inr (s3_request l @ s3_response l)),
      le_sign_put = (\<lambda>p. ''http://minio/'' @ p), le_sign = (\<lambda>u a i n. Answered (Jawn_Data ''http://s3/signed'')),
      le_put = (\<lambda>u l. Answered ()), le_post = (\<lambda>u a m. Answered ()), le_url_path = (\<lambda>u. ''/v1/messages''),
      le_uppercase = map ascii_upper, le_uuid = ''r1'', le_now = 1\<rparr>"

definition sample_logger :: "headers \<Rightarrow> logger_service" where
  "sample_logger hs =
     \<lparr>ls_auth_ctx = \<lparr>ac_api_key = ''sk'', ac_user_id = ''u'', ac_org_id = ''o''\<rparr>, ls_start_time = 0,
      ls_request_body = ''secret'', ls_response_body = ''answer'', ls_target_url = ''https://api.anthropic.com/v1/messages'',
      ls_request_headers = hs, ls_response_status = 200, ls_provider = P_Anthropic, ls_tfft_ms = Some 5\<rparr>"

lemma sample_log_calls:
  "snd (logger_log sample_log_env DT_Cloud ''https://helicone'' (sample_logger [(''x-helicone-omit-request-log'', ''true'')]) []) =
     [Call_Put ''http://minio/organizations/o/requests/r1/raw_request_response_body'' \<lparr>s3_request = ''secret'', s3_response = ''answer''\<rparr>,
      Call_Post ''https://helicone/v1/log/request'' ''Bearer sk''
        (log_record sample_log_env (sample_logger [(''x-helicone-omit-request-log'', ''true'')])
          \<lparr>lm_model_override = None, lm_omit_request_log = True, lm_omit_response_log = False, lm_webhook_enabled = False,
           lm_posthog_api_key = None, lm_posthog_host = None, lm_lytix_key = None\<rparr>)]"
  by (simp add: logger_log_def log_bodies_def signed_by_self_def utf8_text_def http_call_def hbind_def hlift_def
      metadata_from_headers_def take_header_def header_get_def header_remove_def Let_def sample_log_env_def sample_logger_def)

theorem record_after_bodies_witness:
  "\<exists>v pre. snd (logger_log sample_log_env DT_Cloud ''https://helicone'' (sample_logger [(''x-helicone-omit-request-log'', ''true'')]) []) =
     pre @ [Call_Put v \<lparr>s3_request = ''secret'', s3_response = ''answer''\<rparr>,
       last (snd (logger_log sample_log_env DT_Cloud ''https://helicone'' (sample_logger [(''x-helicone-omit-request-log'', ''true'')]) []))]"
proof -
  let ?L = "sample_logger [(''x-helicone-omit-request-log'', ''true'')]"
  let ?calls = "snd (logger_log sample_log_env DT_Cloud ''https://helicone'' ?L [])"
  have "last ?calls \<in> set ?calls" by (simp add: sample_log_calls)
  moreover have "ls_request_body ?L = ''secret''" "ls_response_body ?L = ''answer''" by (simp_all add: sample_logger_def)
  ultimately show ?thesis using record_after_bodies[of "last ?calls"] by (simp add: sample_log_calls)
qed

end
