(* ===== verification/Exchange.thy ===== *)
theory Exchange
  imports Mapper_Service Logger
begin

text \<open>
  A whole exchange behind a balancer: mapper, dispatcher and the logging task that the dispatcher spawns
  (\<open>dispatcher/service.rs\<close>, \<open>middleware/mapper/service.rs\<close>, \<open>logger/service.rs\<close>, \<open>metrics/tfft.rs\<close>). The state has
  what the dispatcher changes and the spawned tasks, each with the body that it reads.
\<close>

section \<open>The dispatcher with its logging tasks\<close>

text \<open>A task logs the exchange, or only measures the time to the first frame. Both have the model as they print
  it.\<close>

datatype log_task =
    LT_Log logger_service string
  | LT_Measure inference_provider string string

record exchange_state =
  ex_dispatch :: dispatch_state
  ex_tasks :: "(log_task \<times> tee) list"

text \<open>The calendar that prints the date of a model, the path of a URL and the start of the request.\<close>

record ('n, 'd) exchange_env =
  xe_chrono :: "('n, 'd) chrono"
  xe_url_path :: "string \<Rightarrow> string"
  xe_start_time :: int

definition log_model :: "('n, 'd) exchange_env \<Rightarrow> 'd mapper_context \<Rightarrow> string" where
  "log_model X ctx = (case mx_model ctx of Some m \<Rightarrow> model_id_display (xe_chrono X) m | None \<Rightarrow> ''unknown'')"

definition logging_task ::
  "('n, 'd) exchange_env \<Rightarrow> dispatcher \<Rightarrow> 'w config \<Rightarrow> 'd dispatch_request \<Rightarrow> 'd prepared \<Rightarrow> nat \<Rightarrow> log_task" where
  "logging_task X D cfg req p status =
     (case (is_observability_enabled (cfg_helicone cfg), pr_auth p) of
        (True, Some auth) \<Rightarrow> LT_Log
          \<lparr>ls_auth_ctx = auth, ls_start_time = xe_start_time X, ls_request_body = og_body (pr_outgoing p),
           ls_response_body = [], ls_target_url = og_url (pr_outgoing p),
           ls_request_headers = strip_request_headers (dq_headers req), ls_response_status = status,
           ls_provider = di_provider D, ls_tfft_ms = None\<rparr>
          (log_model X (pr_mapper_context p))
      | _ \<Rightarrow> LT_Measure (di_provider D) (log_model X (pr_mapper_context p)) (xe_url_path X (og_url (pr_outgoing p))))"

definition spawn :: "log_task \<Rightarrow> tee \<Rightarrow> (exchange_state, 'e, unit) handler" where
  "spawn task T S = (Inr (), S\<lparr>ex_tasks := ex_tasks S @ [(task, T)]\<rparr>)"

definition on_dispatch :: "(dispatch_state, 'e, 'a) handler \<Rightarrow> (exchange_state, 'e, 'a) handler" where
  "on_dispatch h S = (case h (ex_dispatch S) of (r, st) \<Rightarrow> (r, S\<lparr>ex_dispatch := st\<rparr>))"

text \<open>\<open>Dispatcher::dispatch\<close>. The task is spawned when the answer is there and its identity has been found, before
  the status is looked at; only the reader of a stream puts the frame of an event around an item.\<close>

definition dispatch_exchange ::
  "('n, 'd) exchange_env \<Rightarrow> dispatcher \<Rightarrow> 'w config \<Rightarrow> 'd network \<Rightarrow> nat \<Rightarrow> 'd dispatch_request \<Rightarrow>
     (exchange_state, api_error abort, 'd dispatch_response) handler" where
  "dispatch_exchange X D cfg N now req =
     hbind (hlift (prepare_request D cfg N req)) (\<lambda>p.
     hbind (case dq_api_endpoint req of
              Some e \<Rightarrow> on_dispatch (failing (update_metrics (\<lambda>em. incr_req_count em now) e))
            | None \<Rightarrow> hlift (Inr ())) (\<lambda>_.
     hbind (on_dispatch (\<lambda>st. case dispatch_network N now (pr_outgoing p) (dq_api_endpoint req)
                      (mx_is_stream (pr_mapper_context p)) st of (r, st') \<Rightarrow> (map_err Failed r, st'))) (\<lambda>answer.
     hbind (on_dispatch (failing (hlift (client_response cfg req p answer)))) (\<lambda>resp.
     hbind (spawn (logging_task X D cfg req p (ds_status resp))
             (wrap_stream (ds_body resp) (mx_is_stream (pr_mapper_context p)))) (\<lambda>_.
     hbind (on_dispatch (failing (dispatch_signals D N now (dq_api_endpoint req) (ds_status resp) (ds_headers resp)))) (\<lambda>_.
       hlift (Inr resp)))))))"

text \<open>The service that a balancer calls: mapper and dispatcher.\<close>

definition exchange_call ::
  "('n, 'd) mapper_env \<Rightarrow> ('n, 'd) exchange_env \<Rightarrow> dispatcher \<Rightarrow> 'w config \<Rightarrow> 'd network \<Rightarrow> nat \<Rightarrow> 'd dispatch_request \<Rightarrow>
     (exchange_state, api_error abort, 'd dispatch_response) handler" where
  "exchange_call M X D cfg N now req = mapper_call M (dispatch_exchange X D cfg N now) req"

section \<open>The end of a logging task\<close>

record log_state =
  lo_calls :: "log_call list"
  lo_errors :: "string list"
  lo_tfft :: "(nat \<times> (string \<times> string) list) list"

definition tfft_attributes :: "inference_provider \<Rightarrow> string \<Rightarrow> string \<Rightarrow> (string \<times> string) list" where
  "tfft_attributes p model path = [(''provider'', provider_display p), (''model'', model), (''path'', path)]"

text \<open>The task when the body has been collected; \<open>tfft\<close> is the milliseconds to its first frame, if there was one.
  The logger takes zero where the signal is lost, and measures only what has been uploaded.\<close>

definition finish_task ::
  "log_env \<Rightarrow> deployment_target \<Rightarrow> string \<Rightarrow> log_task \<Rightarrow> string \<Rightarrow> nat option \<Rightarrow> log_state \<Rightarrow> log_state" where
  "finish_task E target base_url task body tfft st =
     (case task of
        LT_Log L model \<Rightarrow>
          (let L' = L\<lparr>ls_response_body := body, ls_tfft_ms := tfft\<rparr>;
               uploaded = fst (log_bodies E target base_url (ls_auth_ctx L') (le_uuid E) (ls_request_body L') body (lo_calls st));
               (r, calls) = logger_log E target base_url L' (lo_calls st)
           in \<lparr>lo_calls = calls,
               lo_errors = lo_errors st @ (case r of Inl e \<Rightarrow> [logger_error_as_ref e] | Inr _ \<Rightarrow> []),
               lo_tfft = lo_tfft st @ (case uploaded of
                  Inr _ \<Rightarrow> [(case tfft of Some ms \<Rightarrow> ms | None \<Rightarrow> 0,
                            tfft_attributes (ls_provider L) model (le_url_path E (ls_target_url L)))]
                | Inl _ \<Rightarrow> [])\<rparr>)
      | LT_Measure p model path \<Rightarrow>
          st\<lparr>lo_tfft := lo_tfft st @ (case tfft of Some ms \<Rightarrow> [(ms, tfft_attributes p model path)] | None \<Rightarrow> [])\<rparr>)"


section \<open>Lemmas\<close>

text \<open>Forgetting the tasks: a handler on exchanges that does to the dispatcher's state what another does.\<close>

definition forgets :: "(exchange_state, 'e, 'a) handler \<Rightarrow> (dispatch_state, 'e, 'a) handler \<Rightarrow> bool" where
  "forgets h g \<longleftrightarrow> (\<forall>S. g (ex_dispatch S) = (fst (h S), ex_dispatch (snd (h S))))"

lemma forgets_lift [intro]: "forgets (hlift r) (hlift r)"
  by (simp add: forgets_def hlift_def)

lemma forgets_on_dispatch [intro]: "forgets (on_dispatch h) h"
  by (simp add: forgets_def on_dispatch_def case_prod_unfold)

lemma forgets_bind:
  assumes "forgets h g" "\<And>x. forgets (h' x) (g' x)"
  shows "forgets (hbind h h') (hbind g g')"
  unfolding forgets_def
proof
  fix S
  have g: "g (ex_dispatch S) = (fst (h S), ex_dispatch (snd (h S)))" using assms(1) by (simp add: forgets_def)
  have g': "g' x (ex_dispatch S') = (fst (h' x S'), ex_dispatch (snd (h' x S')))" for x S' using assms(2) by (simp add: forgets_def)
  show "hbind g g' (ex_dispatch S) = (fst (hbind h h' S), ex_dispatch (snd (hbind h h' S)))"
    by (cases "h S"; cases "fst (h S)") (simp_all add: hbind_def g g')
qed

lemma forgets_spawn: "forgets h g \<Longrightarrow> forgets (hbind (spawn task T) (\<lambda>_. h)) g"
proof -
  assume f: "forgets h g"
  show ?thesis
    unfolding forgets_def
  proof
    fix S
    have "g (ex_dispatch (S\<lparr>ex_tasks := ex_tasks S @ [(task, T)]\<rparr>)) =
        (fst (h (S\<lparr>ex_tasks := ex_tasks S @ [(task, T)]\<rparr>)), ex_dispatch (snd (h (S\<lparr>ex_tasks := ex_tasks S @ [(task, T)]\<rparr>))))"
      using f unfolding forgets_def by blast
    then show "g (ex_dispatch S) = (fst (hbind (spawn task T) (\<lambda>_. h) S), ex_dispatch (snd (hbind (spawn task T) (\<lambda>_. h) S)))"
      by (simp add: hbind_def spawn_def)
  qed
qed

lemma dispatch_exchange_forgets: "forgets (dispatch_exchange X D cfg N now req) (dispatch D cfg N now req)"
  unfolding dispatch_exchange_def dispatch_def
  by (intro forgets_bind forgets_spawn forgets_lift forgets_on_dispatch) (auto split: option.split)

text \<open>Which tasks a handler spawns.\<close>

lemma on_dispatch_tasks [simp]: "ex_tasks (snd (on_dispatch h S)) = ex_tasks S"
  by (simp add: on_dispatch_def case_prod_unfold)

lemma on_dispatch_fst [simp]: "fst (on_dispatch h S) = fst (h (ex_dispatch S))"
  by (simp add: on_dispatch_def case_prod_unfold)

lemma spawn_eq [simp]: "spawn task T S = (Inr (), S\<lparr>ex_tasks := ex_tasks S @ [(task, T)]\<rparr>)"
  by (simp add: spawn_def)

lemma on_dispatch_Ok:
  "on_dispatch h S = (r, S') \<Longrightarrow> ex_tasks S' = ex_tasks S \<and> h (ex_dispatch S) = (r, ex_dispatch S')"
  by (auto simp: on_dispatch_def split: prod.splits)

lemma hbind_cases:
  assumes "hbind m f S = (r, S')"
  obtains e where "m S = (Inl e, S')" "r = Inl e" | x S1 where "m S = (Inr x, S1)" "f x S1 = (r, S')"
  using assms by (cases "m S"; cases "fst (m S)") (auto simp: hbind_def)

lemma client_response_context:
  "client_response cfg req p answer = Inr resp \<Longrightarrow>
     ds_mapper_context resp = pr_mapper_context p \<and> \<not> (is_observability_enabled (cfg_helicone cfg) \<and> pr_auth p = None)"
  by (auto simp: client_response_def split: if_splits prod.splits)

lemma failing_lift: "failing (hlift r) st = (map_err (\<lambda>e. Failed (AE_Internal e)) r, st)"
  by (simp add: failing_def hlift_def)

text \<open>No metric is ever forgotten, so after the count of a request its signals do not fail.\<close>

definition keeps_metrics :: "(dispatch_state, 'e, 'a) handler \<Rightarrow> bool" where
  "keeps_metrics h \<longleftrightarrow> (\<forall>st e. st_metrics st e \<noteq> None \<longrightarrow> st_metrics (snd (h st)) e \<noteq> None)"

lemma keeps_metrics_step: "keeps_metrics h \<Longrightarrow> h st = (r, st') \<Longrightarrow> st_metrics st e \<noteq> None \<Longrightarrow> st_metrics st' e \<noteq> None"
  unfolding keeps_metrics_def by (metis snd_conv)

lemma keeps_metrics_update: "keeps_metrics (update_metrics f e)"
  by (auto simp: keeps_metrics_def update_metrics_def split: sum.split)

lemma keeps_metrics_failing: "keeps_metrics h \<Longrightarrow> keeps_metrics (failing h)"
  by (simp add: keeps_metrics_def failing_def case_prod_unfold)

lemma keeps_metrics_lift: "keeps_metrics (hlift r)"
  by (simp add: keeps_metrics_def hlift_def)

lemma keeps_metrics_network:
  "keeps_metrics (\<lambda>st. case dispatch_network N now og ep s st of (r, st') \<Rightarrow> (map_err Failed r, st'))"
  using keeps_metrics_update
  by (auto simp: keeps_metrics_def dispatch_network_def record_stream_err_metrics_def split: sum.splits option.split)

lemma counted_metrics:
  "failing (update_metrics f e) st = (Inr u, st') \<Longrightarrow> st_metrics st' e \<noteq> None"
  by (auto simp: failing_def update_metrics_def split: sum.splits prod.splits)

lemma signals_succeed:
  assumes "failing (dispatch_signals D N now ep s hs) st = (r, st')" "\<And>e. ep = Some e \<Longrightarrow> st_metrics st e \<noteq> None"
  shows "r = Inr ()"
  using dispatch_signals_ok[of ep st D N now s hs] assms by (auto simp: failing_def)

text \<open>A dispatch fails without a task, or has spawned one for its answer.\<close>

lemma dispatch_exchange_cases:
  assumes "dispatch_exchange X D cfg N now req S = (r, S')"
  obtains e where "r = Inl e" "ex_tasks S' = ex_tasks S"
  | p resp where "prepare_request D cfg N req = Inr p" "r = Inr resp"
      "\<not> (is_observability_enabled (cfg_helicone cfg) \<and> pr_auth p = None)" "ds_mapper_context resp = pr_mapper_context p"
      "ex_tasks S' = ex_tasks S @ [(logging_task X D cfg req p (ds_status resp),
         wrap_stream (ds_body resp) (mx_is_stream (ds_mapper_context resp)))]"
  using assms unfolding dispatch_exchange_def
proof (rule hbind_cases)
  fix e assume "hlift (prepare_request D cfg N req) S = (Inl e, S')" "r = Inl e"
  then show thesis using that(1) by (auto simp: hlift_def)
next
  fix p S1
  let ?count = "case dq_api_endpoint req of Some e \<Rightarrow> on_dispatch (failing (update_metrics (\<lambda>em. incr_req_count em now) e)) | None \<Rightarrow> hlift (Inr ())"
  assume p0: "hlift (prepare_request D cfg N req) S = (Inr p, S1)"
    and rest: "hbind ?count (\<lambda>_.
     hbind (on_dispatch (\<lambda>st. case dispatch_network N now (pr_outgoing p) (dq_api_endpoint req)
                      (mx_is_stream (pr_mapper_context p)) st of (r, st') \<Rightarrow> (map_err Failed r, st'))) (\<lambda>answer.
     hbind (on_dispatch (failing (hlift (client_response cfg req p answer)))) (\<lambda>resp.
     hbind (spawn (logging_task X D cfg req p (ds_status resp))
             (wrap_stream (ds_body resp) (mx_is_stream (pr_mapper_context p)))) (\<lambda>_.
     hbind (on_dispatch (failing (dispatch_signals D N now (dq_api_endpoint req) (ds_status resp) (ds_headers resp)))) (\<lambda>_.
       hlift (Inr resp)))))) S1 = (r, S')"
  have p: "prepare_request D cfg N req = Inr p" "S1 = S" using p0 by (auto simp: hlift_def)
  have count: "ex_tasks S2 = ex_tasks S" if "?count S1 = (q, S2)" for q S2
    using that p(2) by (auto simp: hlift_def split: option.splits dest!: on_dispatch_Ok)
  have known: "st_metrics (ex_dispatch S2) e \<noteq> None" if "?count S1 = (Inr u, S2)" "dq_api_endpoint req = Some e" for u S2 e
    using that on_dispatch_Ok by (auto dest!: counted_metrics on_dispatch_Ok)
  show thesis
    using rest
  proof (elim hbind_cases, goal_cases)
    case (1 e)
    then show ?case using that(1) count by blast
  next
    case (2 u S2 e)
    then show ?case using that(1) count on_dispatch_Ok by metis
  next
    case (3 u S2 answer S3 e)
    then show ?case using that(1) count on_dispatch_Ok by metis
  next
    case (4 u S2 answer S3 resp S4 e)
    then show ?case by simp
  next
    case (5 u S2 answer S3 resp S4 v S5 e)
    have "st_metrics (ex_dispatch S5) ep \<noteq> None" if "dq_api_endpoint req = Some ep" for ep
      using known[OF 5(1) that] keeps_metrics_step[OF keeps_metrics_network conjunct2[OF on_dispatch_Ok[OF 5(2)]]]
        keeps_metrics_step[OF keeps_metrics_failing[OF keeps_metrics_lift] conjunct2[OF on_dispatch_Ok[OF 5(3)]]] 5(4) by auto
    then show ?case using signals_succeed[OF conjunct2[OF on_dispatch_Ok[OF 5(5)]]] by simp
  next
    case (6 u S2 answer S3 resp S4 v S5 w S6)
    have resp: "client_response cfg req p answer = Inr resp"
      using on_dispatch_Ok[OF 6(3)] by (simp add: failing_lift)
    have "ex_tasks S4 = ex_tasks S" using count[OF 6(1)] on_dispatch_Ok[OF 6(2)] on_dispatch_Ok[OF 6(3)] by simp
    then show ?case
      using that(2)[OF p(1), of resp] client_response_context[OF resp] 6(4,6) on_dispatch_Ok[OF 6(5)] by (auto simp: hlift_def)
  qed
qed

lemma prepared_fields:
  "prepare_request D cfg N req = Inr p \<Longrightarrow> dq_request_context req = Some (pr_auth p) \<and>
     dq_body req = Inr (og_body (pr_outgoing p)) \<and> dq_mapper_context req = Some (pr_mapper_context p)"
  by (auto simp: prepare_request_def outgoing_request_def)

text \<open>The bodies that a task uploads: those that it was spawned with and has collected.\<close>

lemma finish_task_calls:
  "lo_calls st = [] \<Longrightarrow> lo_calls (finish_task E target base_url (LT_Log L model) body tfft st) =
     snd (logger_log E target base_url (L\<lparr>ls_response_body := body, ls_tfft_ms := tfft\<rparr>) [])"
  by (simp add: finish_task_def Let_def case_prod_unfold)

lemma logged_puts:
  "Call_Put u l \<in> set (snd (logger_log E target base_url L [])) \<Longrightarrow>
     l = \<lparr>s3_request = ls_request_body L, s3_response = ls_response_body L\<rparr>"
proof -
  assume put: "Call_Put u l \<in> set (snd (logger_log E target base_url L []))"
  have "Call_Put u l \<in> set (snd (log_bodies_of E target base_url L))"
    by (rule logger_log_calls[of E target base_url L]) (use put in auto)
  then show ?thesis by (rule_tac log_bodies_calls[of E target base_url L]) auto
qed

lemma logging_task_observed:
  assumes "is_observability_enabled (cfg_helicone cfg)" "\<not> (is_observability_enabled (cfg_helicone cfg) \<and> pr_auth p = None)"
  obtains L where "logging_task X D cfg req p status = LT_Log L (log_model X (pr_mapper_context p))"
    "pr_auth p = Some (ls_auth_ctx L)" "ls_provider L = di_provider D" "ls_response_status L = status"
    "ls_request_body L = og_body (pr_outgoing p)" "ls_request_headers L = strip_request_headers (dq_headers req)"
proof -
  obtain auth where a: "pr_auth p = Some auth" using assms by (cases "pr_auth p") auto
  show ?thesis
    by (rule that[of "\<lparr>ls_auth_ctx = auth, ls_start_time = xe_start_time X, ls_request_body = og_body (pr_outgoing p),
          ls_response_body = [], ls_target_url = og_url (pr_outgoing p),
          ls_request_headers = strip_request_headers (dq_headers req), ls_response_status = status,
          ls_provider = di_provider D, ls_tfft_ms = None\<rparr>"]) (simp_all add: logging_task_def assms(1) a)
qed

lemma collected_delivered:
  assumes "tee_step\<^sup>*\<^sup>* (wrap_stream stream app) T" "te_done T"
  shows "\<exists>rest. stream = te_delivered T @ rest" "te_logged T = map (reader_frame app) (ok_items (te_delivered T))"
proof -
  have inv: "tee_inv stream app T" by (rule tee_inv_reachable[OF assms(1)])
  then have "stream = te_delivered T @ te_stream T" by (simp add: tee_inv_def)
  then show "\<exists>rest. stream = te_delivered T @ rest" by blast
  show "te_logged T = map (reader_frame app) (ok_items (te_delivered T))" using inv assms(2) by (auto simp: tee_inv_def)
qed

text \<open>The headers for the logger are taken out of its own copy: the keys of other services that a caller puts there
  go to the provider as well.\<close>

lemma logger_keys_forwarded:
  assumes "prepare_request D cfg N req = Inr p" "cl_kind (di_client D) \<noteq> CK_Bedrock" "defaults_law (nw_defaults N)"
    and "distinct (map fst (cl_default_headers (di_client D)))"
    and "n = ''x-helicone-posthog-api-key'' \<or> n = ''x-helicone-lytix-key''" "header_values n (dq_headers req) \<noteq> []"
  shows "header_values n (og_headers (pr_outgoing p)) = header_values n (dq_headers req)"
  using assms(5,6)
  by (auto simp: prepared_headers[OF assms(1,2)] header_values_defaults[OF assms(3,4)] header_values_stripped)

text \<open>The mapper fails on its own, or calls the inner service once and maps its answer.\<close>

lemma mapper_call_cases:
  assumes "mapper_call M inner req S = (r, S')"
  obtains e where "r = Inl e" "S' = S"
  | source target pq req' d where "map_request M source target pq (req\<lparr>dq_path_and_query := None\<rparr>) = Inr req'"
      "inner req' S = (d, S')" "r = (case d of Inl e \<Rightarrow> Inl e | Inr answer \<Rightarrow> map_err Failed (map_response M target source answer))"
  using assms unfolding mapper_call_def
proof (elim hbind_cases, goal_cases)
  case (1 e)
  then show ?case by simp
next
  case (2 x S1)
  obtain source target req' where x: "x = (source, target, req')" by (cases x)
  from 2(3) obtain pq where "map_request M source target pq (req\<lparr>dq_path_and_query := None\<rparr>) = Inr req'" "S1 = S"
    by (auto simp: x hlift_def simp del: hlift_iff)
  with 2(2,4) show ?case by (auto simp: x hbind_def hlift_def split: prod.splits sum.splits)
qed

section \<open>Properties\<close>


text \<open>C19. One task for every answer: a dispatch that answers has spawned exactly one task, for the status and the
  body that it answers with, whatever that status is; a dispatch that fails has spawned none, so that a
  request which no provider answered is never logged, with observability or without.\<close>

theorem one_task_per_answer:
  "ex_tasks (snd (dispatch_exchange X D cfg N now req S)) = ex_tasks S @
     (case fst (dispatch_exchange X D cfg N now req S) of
        Inl e \<Rightarrow> []
      | Inr resp \<Rightarrow>
          [(logging_task X D cfg req (projr (prepare_request D cfg N req)) (ds_status resp),
            wrap_stream (ds_body resp) (mx_is_stream (ds_mapper_context resp)))])"
  by (rule dispatch_exchange_cases[of X D cfg N now req S, OF surjective_pairing]) auto

text \<open>C18. What is stored is what was answered, from the mapper to the upload: with observability enabled, an exchange
  either fails before a provider has answered, or has one logging task, and its client gets what the
  mapper makes of the answer of the provider, or the error of the mapper. The task is for the caller of
  the request, the provider, its status and the converted body, without the caller's credentials; and
  however client and logger take turns, what is uploaded when the task ends are that body and the
  provider's items that the client's side has taken.\<close>

theorem stored_is_answered:
  assumes "is_observability_enabled (cfg_helicone cfg)" "exchange_call M X D cfg N now req S = (r, S')"
  shows "(\<exists>e. r = Inl e \<and> ex_tasks S' = ex_tasks S) \<or>
    (\<exists>source target pq req' answer L model.
       map_request M source target pq (req\<lparr>dq_path_and_query := None\<rparr>) = Inr req' \<and>
       r = map_err Failed (map_response M target source answer) \<and>
       ex_tasks S' = ex_tasks S @ [(LT_Log L model, wrap_stream (ds_body answer) (mx_is_stream (ds_mapper_context answer)))] \<and>
       dq_request_context req = Some (Some (ls_auth_ctx L)) \<and> ls_provider L = di_provider D \<and>
       ls_response_status L = ds_status answer \<and> dq_body req' = Inr (ls_request_body L) \<and>
       header_values ''authorization'' (ls_request_headers L) = [] \<and>
       header_values ''helicone-api-key'' (ls_request_headers L) = [] \<and>
       (\<forall>T E dt base_url tfft st u l.
          tee_step\<^sup>*\<^sup>* (wrap_stream (ds_body answer) (mx_is_stream (ds_mapper_context answer))) T \<longrightarrow> te_done T \<longrightarrow>
          lo_calls st = [] \<longrightarrow>
          Call_Put u l \<in> set (lo_calls (finish_task E dt base_url (LT_Log L model) (concat (te_logged T)) tfft st)) \<longrightarrow>
            dq_body req' = Inr (s3_request l) \<and> (\<exists>rest. ds_body answer = te_delivered T @ rest) \<and>
            s3_response l = concat (map (reader_frame (mx_is_stream (ds_mapper_context answer))) (ok_items (te_delivered T)))))"
proof (rule mapper_call_cases[OF assms(2)[unfolded exchange_call_def]])
  fix e assume "r = Inl e" "S' = S"
  then show ?thesis by simp
next
  fix source target pq req' d
  assume x: "map_request M source target pq (req\<lparr>dq_path_and_query := None\<rparr>) = Inr req'"
    and d: "dispatch_exchange X D cfg N now req' S = (d, S')"
    and run: "r = (case d of Inl e \<Rightarrow> Inl e | Inr answer \<Rightarrow> map_err Failed (map_response M target source answer))"
  show ?thesis
    using d
  proof (rule dispatch_exchange_cases)
    fix e assume "d = Inl e" "ex_tasks S' = ex_tasks S"
    then show ?thesis using run by auto
  next
    fix p answer
    assume p: "prepare_request D cfg N req' = Inr p" "d = Inr answer"
        "\<not> (is_observability_enabled (cfg_helicone cfg) \<and> pr_auth p = None)"
      and tasks: "ex_tasks S' = ex_tasks S @ [(logging_task X D cfg req' p (ds_status answer),
        wrap_stream (ds_body answer) (mx_is_stream (ds_mapper_context answer)))]"
    obtain L where L: "logging_task X D cfg req' p (ds_status answer) = LT_Log L (log_model X (pr_mapper_context p))"
        "pr_auth p = Some (ls_auth_ctx L)" "ls_provider L = di_provider D" "ls_response_status L = ds_status answer"
        "ls_request_body L = og_body (pr_outgoing p)" "ls_request_headers L = strip_request_headers (dq_headers req')"
      by (rule logging_task_observed[OF assms(1) p(3)])
    have caller: "dq_request_context req' = dq_request_context req" using map_request_Ok[OF x] by auto
    have stored: "dq_body req' = Inr (s3_request l) \<and> (\<exists>rest. ds_body answer = te_delivered T @ rest) \<and>
        s3_response l = concat (map (reader_frame (mx_is_stream (ds_mapper_context answer))) (ok_items (te_delivered T)))"
      if T: "tee_step\<^sup>*\<^sup>* (wrap_stream (ds_body answer) (mx_is_stream (ds_mapper_context answer))) T" "te_done T" "lo_calls st = []"
        "Call_Put u l \<in> set (lo_calls (finish_task E dt base_url (LT_Log L (log_model X (pr_mapper_context p))) (concat (te_logged T)) tfft st))"
      for T E dt base_url tfft st u l
      using collected_delivered[OF T(1,2)] logged_puts[OF T(4)[unfolded finish_task_calls[OF T(3)]]] prepared_fields[OF p(1)] L(5)
      by simp
    show ?thesis
    proof (intro disjI2 exI conjI)
      show "map_request M source target pq (req\<lparr>dq_path_and_query := None\<rparr>) = Inr req'" by (rule x)
      show "r = map_err Failed (map_response M target source answer)" using run p(2) by simp
      show "ex_tasks S' = ex_tasks S @ [(LT_Log L (log_model X (pr_mapper_context p)),
          wrap_stream (ds_body answer) (mx_is_stream (ds_mapper_context answer)))]" using run tasks L(1) by simp
    qed (use L caller prepared_fields[OF p(1)] stored in \<open>auto simp: header_values_stripped\<close>)
  qed
qed

text \<open>A call of the chat endpoint that goes to Anthropic, with observability enabled.\<close>

definition observed_config :: "nat config" where
  "observed_config = sample_config\<lparr>cfg_helicone := (cfg_helicone sample_config)\<lparr>hc_features := HF_All\<rparr>\<rparr>"

definition sample_caller :: auth_context where
  "sample_caller = \<lparr>ac_api_key = ''sk'', ac_user_id = ''u'', ac_org_id = ''o''\<rparr>"

definition sample_exchange :: "(api_error abort, ymd dispatch_response) result \<times> exchange_state" where
  "sample_exchange = exchange_call (sample_mapper (\<lambda>b. Inr (Some b)))
     \<lparr>xe_chrono = padded_calendar, xe_url_path = (\<lambda>u. ''/v1/messages''), xe_start_time = 0\<rparr>
     (sample_dispatcher P_Anthropic) observed_config (sample_network 429 [] []) 0
     ((sample_dispatch False [(''authorization'', ''Bearer sk'')] P_Anthropic)\<lparr>dq_request_context := Some (Some sample_caller)\<rparr>)
     \<lparr>ex_dispatch = \<lparr>st_metrics = [EP_Anthropic Anthropic_Messages \<mapsto> projr (endpoint_metrics_default 0 :: (init_error abort, endpoint_metrics) result)], st_events = []\<rparr>,
      ex_tasks = []\<rparr>"

lemma mapper_call_mapped:
  assumes "dq_provider req = Some p" "dq_path_and_query req = Some pq" "dq_api_endpoint req = Some source"
    and "endpoint_mapped source p = Inr target" "map_request M source target pq (req\<lparr>dq_path_and_query := None\<rparr>) = Inr req'"
  shows "fst (mapper_call M inner req S) =
    (case fst (inner req' S) of Inl e \<Rightarrow> Inl e | Inr resp \<Rightarrow> map_err Failed (map_response M target source resp))"
  using assms by (simp add: mapper_call_def hbind_def hlift_def split: prod.split sum.split)

lemma sample_exchange_answers: "\<exists>resp. fst sample_exchange = Inr resp"
proof -
  let ?M = "sample_mapper (\<lambda>b. Inr (Some b))" and ?D = "sample_dispatcher P_Anthropic" and ?N = "sample_network 429 [] []"
  let ?X = "\<lparr>xe_chrono = padded_calendar, xe_url_path = (\<lambda>u. ''/v1/messages''), xe_start_time = 0\<rparr>"
  let ?req = "(sample_dispatch False [(''authorization'', ''Bearer sk'')] P_Anthropic)\<lparr>dq_request_context := Some (Some sample_caller)\<rparr>"
  let ?req' = "?req\<lparr>dq_body := Inr ''{}'', dq_path_and_query := Some ''/v1/messages'',
      dq_mapper_context := Some \<lparr>mx_is_stream = False, mx_model = None\<rparr>, dq_api_endpoint := Some (EP_Anthropic Anthropic_Messages)\<rparr>"
  let ?S = "\<lparr>ex_dispatch = \<lparr>st_metrics = [EP_Anthropic Anthropic_Messages \<mapsto>
        projr (endpoint_metrics_default 0 :: (init_error abort, endpoint_metrics) result)], st_events = []\<rparr>, ex_tasks = []\<rparr>"
  have mapped: "map_request ?M (EP_OpenAI OpenAI_ChatCompletions) (EP_Anthropic Anthropic_Messages)
      ''/v1/chat/completions'' (?req\<lparr>dq_path_and_query := None\<rparr>) = Inr ?req'"
    by (simp add: map_request_def sample_lookup)
       (simp add: sample_dispatch_def mapped_path_def sample_mapper_def query_of_def mapper_err_def)
  obtain pr where pr: "prepare_request ?D observed_config ?N ?req' = Inr pr" "pr_auth pr = Some sample_caller"
      "mx_is_stream (pr_mapper_context pr) = False"
    by (simp add: prepare_request_def sample_dispatch_def sample_dispatcher_def sample_network_def observed_config_def
        outgoing_request_def sign_headers_plain sample_kinds)
  have "\<exists>resp. fst (dispatch ?D observed_config ?N 0 ?req' (ex_dispatch ?S)) = Inr resp \<and> ds_body resp = [Inr ''{}''] \<and>
      \<not> mx_is_stream (ds_mapper_context resp)"
    using pr(2,3) by (subst dispatch_prepared[OF pr(1), of "EP_Anthropic Anthropic_Messages" _
        "projr (endpoint_metrics_default 0 :: (init_error abort, endpoint_metrics) result)"])
      (simp_all add: client_response_def dispatch_signals_def sample_dispatcher_def sample_network_def split: prod.split sum.split)
  then obtain resp where resp: "fst (dispatch_exchange ?X ?D observed_config ?N 0 ?req' ?S) = Inr resp" "ds_body resp = [Inr ''{}'']"
      "\<not> mx_is_stream (ds_mapper_context resp)"
    using dispatch_exchange_forgets[of ?X ?D observed_config ?N 0 ?req'] unfolding forgets_def by (metis fst_conv)
  have "fst (mapper_call ?M (dispatch_exchange ?X ?D observed_config ?N 0) ?req ?S) =
      map_err Failed (map_response ?M (EP_Anthropic Anthropic_Messages) (EP_OpenAI OpenAI_ChatCompletions) resp)"
    by (subst mapper_call_mapped[OF _ _ _ _ mapped]) (simp only: resp(1) sum.case | simp add: sample_dispatch_def endpoint_mapped_def)+
  also have "\<dots> = Inr (resp\<lparr>ds_body := [Inr ''{}'']\<rparr>)"
    using resp(2,3) by (simp add: map_response_def sample_lookup mapper_err_def)
  finally show ?thesis unfolding sample_exchange_def exchange_call_def by blast
qed

theorem stored_is_answered_witness:
  "\<exists>L model (answer :: ymd dispatch_response). ex_tasks (snd sample_exchange) = [(LT_Log L model, wrap_stream (ds_body answer) (mx_is_stream (ds_mapper_context answer)))] \<and>
     ls_auth_ctx L = sample_caller \<and> ls_provider L = P_Anthropic"
proof -
  have "is_observability_enabled (cfg_helicone observed_config)"
    by (simp add: observed_config_def is_observability_enabled_def)
  note run = stored_is_answered[OF this, of "sample_mapper (\<lambda>b. Inr (Some b))" _ _ _ _ _ _ "fst sample_exchange" "snd sample_exchange",
      OF sample_exchange_def[symmetric, THEN trans, OF surjective_pairing], unfolded exchange_state.select_convs append_Nil]
  show ?thesis
    by (insert run sample_exchange_answers, elim disjE exE conjE, simp, intro exI conjI, assumption)
       (simp_all add: sample_dispatch_def sample_dispatcher_def)
qed

end
