(* ===== verification/Startup.thy ===== *)
theory Startup
  imports Layers Cache Dispatcher Router
begin

text \<open>
  The start of the gateway: the shared state (\<open>app_state.rs\<close>, \<open>App::new\<close> of \<open>app.rs\<close>), the dispatchers
  (\<open>Dispatcher::new\<close>), the balancers with their channels and monitors (\<open>balancer/provider.rs\<close>,
  \<open>discover/\<close>), the routers (\<open>Router::new\<close>) and the direct proxies (\<open>router/direct.rs\<close>). A channel is a
  number that both of its ends have. Parameters: the environment, decimals, the host of a URL, and the
  outcomes of the constructors of libraries.
\<close>

section \<open>The state of the application\<close>

datatype cache_client = CC_Redis string | CC_Moka nat

text \<open>\<open>ProviderHealthMonitor\<close> and \<open>ProviderRateLimitMonitor\<close>: the kind of their balancer, the channel to it, the
  router.\<close>

datatype monitor_kind = MK_Weighted | MK_P2C

record 'w provider_monitor =
  pm_kind :: monitor_kind
  pm_tx :: nat
  pm_router_id :: router_id
  pm_router_config :: "'w router_config"

text \<open>\<open>InnerAppState\<close> without metrics and clients; \<open>as_rate_limits\<close> are \<open>rate_limit_monitors\<close> and
  \<open>rate_limit_receivers\<close>, and \<open>as_channels\<close> counts the channels made so far.\<close>

record 'w app_state =
  as_config :: "'w config"
  as_direct_proxy_api_keys :: "inference_provider \<rightharpoonup> provider_key"
  as_provider_keys :: "router_id \<rightharpoonup> inference_provider \<rightharpoonup> provider_key"
  as_cache_manager :: "cache_client option"
  as_global_rate_limit :: "governor_config option"
  as_router_rate_limits :: "(router_id \<times> governor_config) list"
  as_health_monitors :: "(router_id \<times> 'w provider_monitor) list"
  as_rate_limits :: "('w provider_monitor, nat) rl_registry"
  as_rate_limit_senders :: "(router_id \<times> nat) list"
  as_channels :: nat

type_synonym ('w, 'a) start = "('w app_state, init_error abort, 'a) handler"

text \<open>Reading and changing the state.\<close>

definition hread :: "('s \<Rightarrow> ('e, 'a) result) \<Rightarrow> ('s, 'e, 'a) handler" where
  "hread f = (\<lambda>S. (f S, S))"

definition hmodify :: "('s \<Rightarrow> 's) \<Rightarrow> ('s, 'e, unit) handler" where
  "hmodify f = (\<lambda>S. (Inr (), f S))"

definition new_channel :: "('w, nat) start" where
  "new_channel = (\<lambda>S. (Inr (as_channels S), S\<lparr>as_channels := Suc (as_channels S)\<rparr>))"

definition get_rate_limit_tx :: "'w app_state \<Rightarrow> router_id \<Rightarrow> (init_error, nat) result" where
  "get_rate_limit_tx S rid = ok_or (RateLimitChannelsNotInitialized rid) (map_of (as_rate_limit_senders S) rid)"

definition add_rate_limit_tx :: "router_id \<Rightarrow> nat \<Rightarrow> 'w app_state \<Rightarrow> 'w app_state" where
  "add_rate_limit_tx rid tx S = S\<lparr>as_rate_limit_senders := assoc_insert rid tx (as_rate_limit_senders S)\<rparr>"

definition add_rate_limit_rx :: "router_id \<Rightarrow> nat \<Rightarrow> 'w app_state \<Rightarrow> 'w app_state" where
  "add_rate_limit_rx rid rx S =
     S\<lparr>as_rate_limits := (as_rate_limits S)\<lparr>rg_receivers := assoc_insert rid rx (rg_receivers (as_rate_limits S))\<rparr>\<rparr>"

definition add_router_health_monitor :: "router_id \<Rightarrow> 'w provider_monitor \<Rightarrow> 'w app_state \<Rightarrow> 'w app_state" where
  "add_router_health_monitor rid m S = S\<lparr>as_health_monitors := assoc_insert rid m (as_health_monitors S)\<rparr>"

definition add_rate_limit_monitor :: "router_id \<Rightarrow> 'w provider_monitor \<Rightarrow> 'w app_state \<Rightarrow> 'w app_state" where
  "add_rate_limit_monitor rid m S = S\<lparr>as_rate_limits := add_router_rate_limit_monitor rid m (as_rate_limits S)\<rparr>"

section \<open>Dispatchers\<close>

record 'w start_env =
  se_env :: "string \<rightharpoonup> string"
  se_decimals :: "'w decimal_ops"
  se_host :: "string \<Rightarrow> string option"
  se_pool :: "string \<Rightarrow> bool"
  se_redis_cache :: "string \<Rightarrow> (init_error, unit) result"
  se_clients :: "(init_error, unit) result"
  se_otel :: "(init_error, unit) result"

definition add_provider_keys_for_router ::
  "'w start_env \<Rightarrow> router_id \<Rightarrow> 'w router_config \<Rightarrow> ('w, inference_provider \<rightharpoonup> provider_key) start" where
  "add_provider_keys_for_router E rid rc S =
     (let keys = discover_provider_keys (se_env E) (cfg_discover (as_config S)) rc
      in (Inr keys, S\<lparr>as_provider_keys := (as_provider_keys S)(rid \<mapsto> keys)\<rparr>))"

text \<open>A dispatcher with its layers: the channel of its rate-limit events, the router id of its extensions, and
  the router configuration of its model mapper; \<open>sv_mapper = None\<close> is a stack without mapper.\<close>

record 'w dispatcher_service =
  sv_dispatcher :: dispatcher
  sv_rate_limit_tx :: "nat option"
  sv_router_id :: "router_id option"
  sv_mapper :: "'w router_config option option"

definition dispatcher_new ::
  "'w start_env \<Rightarrow> 'w app_state \<Rightarrow> router_id \<Rightarrow> 'w router_config \<Rightarrow> inference_provider \<Rightarrow>
     (init_error abort, 'w dispatcher_service) result" where
  "dispatcher_new E S rid rc provider =
     rbind (client_for_router (se_host E) (as_config S) (as_provider_keys S) provider rid) (\<lambda>client.
     rbind (map_err Failed (get_rate_limit_tx S rid)) (\<lambda>tx.
       Inr \<lparr>sv_dispatcher = \<lparr>di_client = client, di_provider = provider, di_rate_limit_tx = True\<rparr>,
            sv_rate_limit_tx = Some tx, sv_router_id = Some rid, sv_mapper = Some (Some rc)\<rparr>))"

definition new_direct_proxy ::
  "'w start_env \<Rightarrow> 'w app_state \<Rightarrow> inference_provider \<Rightarrow> (init_error abort, 'w dispatcher_service) result" where
  "new_direct_proxy E S provider =
     rbind (client_for_direct_proxy (se_host E) (as_config S) (as_direct_proxy_api_keys S) provider) (\<lambda>client.
       Inr \<lparr>sv_dispatcher = \<lparr>di_client = client, di_provider = provider, di_rate_limit_tx = False\<rparr>,
            sv_rate_limit_tx = None, sv_router_id = None, sv_mapper = Some None\<rparr>)"

definition new_without_mapper ::
  "'w start_env \<Rightarrow> 'w app_state \<Rightarrow> inference_provider \<Rightarrow> (init_error abort, 'w dispatcher_service) result" where
  "new_without_mapper E S provider =
     rbind (client_for_unified_api (se_host E) (as_config S) (as_direct_proxy_api_keys S) provider) (\<lambda>client.
       Inr \<lparr>sv_dispatcher = \<lparr>di_client = client, di_provider = provider, di_rate_limit_tx = False\<rparr>,
            sv_rate_limit_tx = None, sv_router_id = None, sv_mapper = None\<rparr>)"

section \<open>Balancers\<close>

text \<open>\<open>Discovery::new\<close> and \<open>new_weighted\<close>, by the mode of the discovery.\<close>

definition discovery_new ::
  "'w start_env \<Rightarrow> 'w app_state \<Rightarrow> router_id \<Rightarrow> 'w router_config \<Rightarrow>
     (init_error abort, (key, 'w dispatcher_service) config_discovery) result" where
  "discovery_new E S rid rc =
     (case dc_discover_mode (cfg_discover (as_config S)) of
        DM_Config \<Rightarrow> config_discovery_new (dispatcher_new E S rid rc) rc)"

definition discovery_new_weighted ::
  "'w start_env \<Rightarrow> 'w app_state \<Rightarrow> router_id \<Rightarrow> 'w router_config \<Rightarrow>
     (init_error abort, (weighted_key, 'w dispatcher_service) config_discovery) result" where
  "discovery_new_weighted E S rid rc =
     (case dc_discover_mode (cfg_discover (as_config S)) of
        DM_Config \<Rightarrow> config_discovery_new_weighted (se_decimals E) (dispatcher_new E S rid rc) rc)"

text \<open>\<open>PeakEwmaDiscover\<close>: a discovery whose services are measured, and the factory of it.\<close>

record 'w peak_ewma_discover =
  pe_discover :: "(key, 'w dispatcher_service) config_discovery"
  pe_default_rtt :: duration
  pe_decay :: duration

definition discover_factory_call ::
  "'w start_env \<Rightarrow> router_id \<Rightarrow> 'w router_config \<Rightarrow> 'w app_state \<Rightarrow> (init_error abort, 'w peak_ewma_discover) result" where
  "discover_factory_call E rid rc S =
     rbind (discovery_new E S rid rc) (\<lambda>discovery.
       Inr \<lparr>pe_discover = discovery, pe_default_rtt = dc_default_rtt (cfg_discover (as_config S)),
            pe_decay = dc_discover_decay (cfg_discover (as_config S))\<rparr>)"

text \<open>A balancer with the channel of the changes that it listens to, and its discovery.\<close>

datatype 'w provider_balancer =
    PB_PeakEwma nat "'w peak_ewma_discover"
  | PB_Weighted nat "(weighted_key, 'w dispatcher_service) config_discovery"

text \<open>What both kinds of balancers do first: two channels, the two monitors and the ends of the channel for
  the events.\<close>

definition register_monitors :: "monitor_kind \<Rightarrow> router_id \<Rightarrow> 'w router_config \<Rightarrow> ('w, nat) start" where
  "register_monitors kind rid rc =
     hbind new_channel (\<lambda>change.
     hbind new_channel (\<lambda>rate_limit.
     let monitor = \<lparr>pm_kind = kind, pm_tx = change, pm_router_id = rid, pm_router_config = rc\<rparr> in
     hbind (hmodify (add_router_health_monitor rid monitor)) (\<lambda>_.
     hbind (hmodify (add_rate_limit_tx rid rate_limit)) (\<lambda>_.
     hbind (hmodify (add_rate_limit_rx rid rate_limit)) (\<lambda>_.
     hbind (hmodify (add_rate_limit_monitor rid monitor)) (\<lambda>_.
       hlift (Inr change)))))))"

definition balancer_weighted ::
  "'w start_env \<Rightarrow> router_id \<Rightarrow> 'w router_config \<Rightarrow> ('w, 'w provider_balancer) start" where
  "balancer_weighted E rid rc =
     hbind (register_monitors MK_Weighted rid rc) (\<lambda>change.
     hbind (hread (\<lambda>S. discovery_new_weighted E S rid rc)) (\<lambda>d.
       hlift (Inr (PB_Weighted change d))))"

definition balancer_peak_ewma ::
  "'w start_env \<Rightarrow> router_id \<Rightarrow> 'w router_config \<Rightarrow> ('w, 'w provider_balancer) start" where
  "balancer_peak_ewma E rid rc =
     hbind (register_monitors MK_P2C rid rc) (\<lambda>change.
     hbind (hread (discover_factory_call E rid rc)) (\<lambda>d.
       hlift (Inr (PB_PeakEwma change d))))"

definition provider_balancer_new ::
  "'w start_env \<Rightarrow> router_id \<Rightarrow> 'w router_config \<Rightarrow> 'w balance_config_inner \<Rightarrow> ('w, 'w provider_balancer) start" where
  "provider_balancer_new E rid rc b =
     (case b of
        Weighted _ \<Rightarrow> balancer_weighted E rid rc
      | Latency _ \<Rightarrow> balancer_peak_ewma E rid rc)"

text \<open>\<open>poll_ready\<close> of the balancer and \<open>poll\<close> of its future, on what the balancer inside answers.\<close>

fun provider_balancer_poll_ready :: "(string, unit) result poll \<Rightarrow> (api_error, unit) result poll" where
  "provider_balancer_poll_ready (Ready (Inr u)) = Ready (Inr u)"
| "provider_balancer_poll_ready (Ready (Inl e)) = Ready (Inl (AE_Internal (PollReadyError e)))"
| "provider_balancer_poll_ready Pending = Pending"

fun provider_balancer_poll :: "(string, 'r) result poll \<Rightarrow> (api_error, 'r) result poll" where
  "provider_balancer_poll (Ready (Inr r)) = Ready (Inr r)"
| "provider_balancer_poll (Ready (Inl e)) = Ready (Inl (AE_Internal (LoadBalancerError e)))"
| "provider_balancer_poll Pending = Pending"

section \<open>Routers and direct proxies\<close>

text \<open>A service behind the layers of the limiter, the cache and the request context.\<close>

record ('w, 's) layered =
  ly_rate_limit :: inner_layer
  ly_cache :: "cache_context option"
  ly_router_config :: "'w router_config option"
  ly_provider_keys :: "inference_provider \<rightharpoonup> provider_key"
  ly_service :: 's

record 'w built_router =
  br_inner :: "(endpoint_type \<times> ('w, 'w provider_balancer) layered) list"
  br_direct_proxy :: "('w, 'w dispatcher_service) layered"

text \<open>\<open>rate_limit::Layer::per_router\<close>, which registers an in-memory limiter.\<close>

definition router_rate_limit :: "'w start_env \<Rightarrow> router_id \<Rightarrow> 'w router_config \<Rightarrow> ('w, inner_layer) start" where
  "router_rate_limit E rid rc =
     hbind (hread (\<lambda>S. map_err Failed (rate_limit_layer_per_router (se_pool E) (as_config S) rid rc))) (\<lambda>(layer, limiter).
     hbind (case limiter of
         Some (r, l) \<Rightarrow> hmodify (\<lambda>S. S\<lparr>as_router_rate_limits := assoc_insert r l (as_router_rate_limits S)\<rparr>)
       | None \<Rightarrow> hlift (Inr ())) (\<lambda>_.
       hlift (Inr layer)))"

text \<open>The loop of \<open>Router::new\<close> over the endpoint types; \<open>layers\<close> puts a service behind the layers.\<close>

fun balancers_new ::
  "'w start_env \<Rightarrow> router_id \<Rightarrow> 'w router_config \<Rightarrow>
     ('w provider_balancer \<Rightarrow> ('w, 'w provider_balancer) layered) \<Rightarrow> 'w balance_config \<Rightarrow>
     (endpoint_type \<times> ('w, 'w provider_balancer) layered) list \<Rightarrow>
     ('w, (endpoint_type \<times> ('w, 'w provider_balancer) layered) list) start" where
  "balancers_new E rid rc layers [] inner = hlift (Inr inner)"
| "balancers_new E rid rc layers ((et, b) # rest) inner =
     hbind (provider_balancer_new E rid rc b) (\<lambda>balancer.
       balancers_new E rid rc layers rest (assoc_insert et (layers balancer) inner))"

definition router_new :: "'w start_env \<Rightarrow> router_id \<Rightarrow> ('w, 'w built_router) start" where
  "router_new E rid =
     hbind (hread (\<lambda>S. ok_or (Failed DefaultRouterNotFound) (map_of (cfg_routers (as_config S)) rid))) (\<lambda>rc.
     hbind (hlift (router_config_validate (se_decimals E) rc)) (\<lambda>_.
     hbind (add_provider_keys_for_router E rid rc) (\<lambda>keys.
     hbind (router_rate_limit E rid rc) (\<lambda>rl_layer.
     hbind (hread (\<lambda>S. map_err Failed
         (optional_layer_for_router (as_cache_manager S \<noteq> None) (as_config S) rid))) (\<lambda>cache_layer.
     hbind (balancers_new E rid rc (\<lambda>s. \<lparr>ly_rate_limit = rl_layer, ly_cache = cache_layer,
         ly_router_config = Some rc, ly_provider_keys = keys, ly_service = s\<rparr>) (rc_load_balance rc) []) (\<lambda>inner.
     hbind (hread (\<lambda>S. new_direct_proxy E S SDK)) (\<lambda>direct_proxy.
       hlift (Inr \<lparr>br_inner = inner,
         br_direct_proxy = \<lparr>ly_rate_limit = rl_layer, ly_cache = cache_layer, ly_router_config = Some rc,
           ly_provider_keys = keys, ly_service = direct_proxy\<rparr>\<rparr>))))))))"

text \<open>\<open>DirectProxies::new\<close> and \<open>DirectProxiesWithoutMapper::new\<close>, with \<open>mk\<close> for the dispatcher.\<close>

definition disabled_layers :: "'w app_state \<Rightarrow> 's \<Rightarrow> ('w, 's) layered" where
  "disabled_layers S s =
     \<lparr>ly_rate_limit = IL_None, ly_cache = None, ly_router_config = None,
      ly_provider_keys = as_direct_proxy_api_keys S, ly_service = s\<rparr>"

fun direct_proxies_loop ::
  "('w app_state \<Rightarrow> inference_provider \<Rightarrow> (init_error abort, 's) result) \<Rightarrow> 'w app_state \<Rightarrow> inference_provider list \<Rightarrow>
     (inference_provider \<times> ('w, 's) layered) list \<Rightarrow>
     (init_error abort, (inference_provider \<times> ('w, 's) layered) list) result" where
  "direct_proxies_loop mk S [] proxies = Inr proxies"
| "direct_proxies_loop mk S (p # ps) proxies =
     rbind (mk S p) (\<lambda>d. direct_proxies_loop mk S ps (assoc_insert p (disabled_layers S d) proxies))"

definition direct_proxies_new ::
  "('w app_state \<Rightarrow> inference_provider \<Rightarrow> (init_error abort, 's) result) \<Rightarrow> 'w app_state \<Rightarrow>
     (init_error abort, (inference_provider \<times> ('w, 's) layered) list) result" where
  "direct_proxies_new mk S = direct_proxies_loop mk S (map fst (cfg_providers (as_config S))) []"

record 'w built_meta =
  bm_inner :: "(router_id \<times> 'w built_router) list"
  bm_unified_api :: "(inference_provider \<times> ('w, 'w dispatcher_service) layered) list"
  bm_direct_proxies :: "(inference_provider \<times> ('w, 'w dispatcher_service) layered) list"

fun routers_new ::
  "'w start_env \<Rightarrow> router_id list \<Rightarrow> (router_id \<times> 'w built_router) list \<Rightarrow>
     ('w, (router_id \<times> 'w built_router) list) start" where
  "routers_new E [] inner = hlift (Inr inner)"
| "routers_new E (rid # rids) inner =
     hbind (router_new E rid) (\<lambda>r. routers_new E rids (assoc_insert rid r inner))"

definition meta_router_new :: "'w start_env \<Rightarrow> ('w, 'w built_meta) start" where
  "meta_router_new E =
     hbind (\<lambda>S. routers_new E (map fst (cfg_routers (as_config S))) [] S) (\<lambda>inner.
     hbind (hread (direct_proxies_new (new_direct_proxy E))) (\<lambda>unified_api.
     hbind (hread (direct_proxies_new (new_without_mapper E))) (\<lambda>direct_proxies.
       hlift (Inr \<lparr>bm_inner = inner, bm_unified_api = unified_api, bm_direct_proxies = direct_proxies\<rparr>))))"

section \<open>The application\<close>

definition setup_cache :: "'w start_env \<Rightarrow> 'w config \<Rightarrow> (init_error abort, cache_client option) result" where
  "setup_cache E cfg =
     (if mw_cache (cfg_global cfg) = None \<and> \<not> list_ex (\<lambda>(rid, rc). rc_cache rc \<noteq> None) (cfg_routers cfg)
      then Inr None
      else case cfg_cache_store cfg of
          CS_InMemory max_size \<Rightarrow> Inr (Some (CC_Moka max_size))
        | CS_Redis host_url \<Rightarrow> rbind (map_err Failed (se_redis_cache E host_url)) (\<lambda>_. Inr (Some (CC_Redis host_url))))"

definition build_app_state :: "'w start_env \<Rightarrow> 'w config \<Rightarrow> (init_error abort, 'w app_state) result" where
  "build_app_state E cfg =
     rbind (map_err Failed (se_clients E)) (\<lambda>_.
     rbind (setup_cache E cfg) (\<lambda>cache_manager.
       Inr \<lparr>as_config = cfg,
         as_direct_proxy_api_keys = keys_from_env_direct_proxy (se_env E) (map fst (cfg_providers cfg)),
         as_provider_keys = Map.empty, as_cache_manager = cache_manager,
         as_global_rate_limit = Option.bind (mw_rate_limit (cfg_global cfg)) (\<lambda>g. limiter_config (gl_limits g)),
         as_router_rate_limits = [], as_health_monitors = [],
         as_rate_limits = \<lparr>rg_monitors = [], rg_receivers = [], rg_tasks = []\<rparr>,
         as_rate_limit_senders = [], as_channels = 0\<rparr>))"

text \<open>\<open>App::new\<close>: the state, and the meta router that stands behind the layers of Layers.thy.\<close>

definition build_service_stack :: "'w start_env \<Rightarrow> ('w, 'w built_meta) start" where
  "build_service_stack E =
     hbind (hlift (map_err Failed (se_otel E))) (\<lambda>_. meta_router_new E)"

definition app_new :: "'w start_env \<Rightarrow> 'w config \<Rightarrow> (init_error abort, 'w built_meta \<times> 'w app_state) result" where
  "app_new E cfg =
     rbind (build_app_state E cfg) (\<lambda>S0.
       case build_service_stack E S0 of
         (Inl e, _) \<Rightarrow> Inl e
       | (Inr m, S) \<Rightarrow> Inr (m, S))"

section \<open>Lemmas\<close>

lemma hread_Ok_iff [simp]: "hread f S = (Inr x, S') \<longleftrightarrow> f S = Inr x \<and> S' = S"
  by (auto simp: hread_def)

lemma hlift_Ok_iff [simp]: "hlift r S = (Inr x, S') \<longleftrightarrow> r = Inr x \<and> S' = S"
  by (auto simp: hlift_def)

text \<open>The channels that the monitors of a router send to and receive from.\<close>

definition health_tx :: "'w app_state \<Rightarrow> router_id \<rightharpoonup> nat" where
  "health_tx S rid = map_option pm_tx (map_of (as_health_monitors S) rid)"

definition limit_tx :: "'w app_state \<Rightarrow> router_id \<rightharpoonup> nat" where
  "limit_tx S rid = map_option pm_tx (map_of (rg_monitors (as_rate_limits S)) rid)"

definition limit_rx :: "'w app_state \<Rightarrow> router_id \<rightharpoonup> nat" where
  "limit_rx S = map_of (rg_receivers (as_rate_limits S))"

fun balancer_rx :: "'w provider_balancer \<Rightarrow> nat" where
  "balancer_rx (PB_PeakEwma c d) = c"
| "balancer_rx (PB_Weighted c d) = c"

fun balancer_services :: "'w provider_balancer \<Rightarrow> 'w dispatcher_service set" where
  "balancer_services (PB_PeakEwma c d) = snd ` set (cd_initial (pe_discover d))"
| "balancer_services (PB_Weighted c d) = snd ` set (cd_initial d)"

lemma register_monitors_eq:
  "register_monitors kind rid rc S =
     (Inr (as_channels S),
      add_rate_limit_monitor rid \<lparr>pm_kind = kind, pm_tx = as_channels S, pm_router_id = rid, pm_router_config = rc\<rparr>
        (add_rate_limit_rx rid (Suc (as_channels S)) (add_rate_limit_tx rid (Suc (as_channels S))
          (add_router_health_monitor rid
            \<lparr>pm_kind = kind, pm_tx = as_channels S, pm_router_id = rid, pm_router_config = rc\<rparr>
            (S\<lparr>as_channels := Suc (Suc (as_channels S))\<rparr>)))))"
  by (simp add: register_monitors_def hbind_def hmodify_def hlift_def new_channel_def Let_def)

text \<open>What the registration of the monitors changes, in the views above.\<close>

lemma register_monitors_views:
  assumes "register_monitors kind rid rc S = (Inr c, S')"
  shows "c = as_channels S" "as_channels S' = Suc (Suc (as_channels S))" "as_config S' = as_config S"
    "health_tx S' = (health_tx S)(rid \<mapsto> as_channels S)" "limit_tx S' = (limit_tx S)(rid \<mapsto> as_channels S)"
    "limit_rx S' = (limit_rx S)(rid \<mapsto> Suc (as_channels S))"
    "get_rate_limit_tx S' rid = Inr (Suc (as_channels S))"
    "as_cache_manager S' = as_cache_manager S" "as_direct_proxy_api_keys S' = as_direct_proxy_api_keys S"
    "distinct (map fst (rg_monitors (as_rate_limits S))) \<Longrightarrow> distinct (map fst (rg_monitors (as_rate_limits S')))"
    "rg_tasks (as_rate_limits S') = rg_tasks (as_rate_limits S)"
  using assms
  by (auto simp: register_monitors_eq add_rate_limit_monitor_def add_rate_limit_rx_def add_rate_limit_tx_def
      add_router_health_monitor_def add_router_rate_limit_monitor_def health_tx_def limit_tx_def limit_rx_def
      get_rate_limit_tx_def fun_eq_iff distinct_assoc_insert)

lemma values_assoc_insert: "snd ` set (assoc_insert k v xs) \<subseteq> insert v (snd ` set xs)"
  by (induction k v xs rule: assoc_insert.induct) auto

text \<open>Every service of a discovery has been made by the dispatcher of its provider.\<close>

lemma insert_services_made:
  "insert_services mk et ps m = Inr m' \<Longrightarrow> snd ` set m' \<subseteq> snd ` set m \<union> {d. \<exists>p. mk p = Inr d}"
proof (induction ps arbitrary: m)
  case (Cons p ps)
  then obtain d where d: "mk p = Inr d"
    "insert_services mk et ps (assoc_insert \<lparr>k_provider = p, k_endpoint_type = et\<rparr> d m) = Inr m'" by auto
  show ?case using Cons.IH[OF d(2)] d(1) values_assoc_insert[of "\<lparr>k_provider = p, k_endpoint_type = et\<rparr>" d m] by blast
qed simp

lemma discovery_services_made:
  "discovery_services mk bc m = Inr m' \<Longrightarrow> snd ` set m' \<subseteq> snd ` set m \<union> {d. \<exists>p. mk p = Inr d}"
proof (induction bc arbitrary: m)
  case (Cons e bc)
  obtain et b where e: "e = (et, b)" by (cases e)
  then obtain m1 where m: "insert_services mk et (inner_providers b) m = Inr m1" "discovery_services mk bc m1 = Inr m'"
    using Cons.prems by auto
  show ?case using Cons.IH[OF m(2)] insert_services_made[OF m(1)] by blast
qed simp

lemma insert_weighted_made:
  "insert_weighted D mk et ts m = Inr m' \<Longrightarrow> snd ` set m' \<subseteq> snd ` set m \<union> {d. \<exists>p. mk p = Inr d}"
proof (induction ts arbitrary: m)
  case (Cons t ts)
  then obtain w d where d: "mk (bt_provider t) = Inr d"
    "insert_weighted D mk et ts (assoc_insert (target_key et w t) d m) = Inr m'" by auto
  show ?case using Cons.IH[OF d(2)] d(1) values_assoc_insert[of "target_key et w t" d m] by blast
qed simp

lemma weighted_services_made:
  "weighted_services D mk bc m = Inr m' \<Longrightarrow> snd ` set m' \<subseteq> snd ` set m \<union> {d. \<exists>p. mk p = Inr d}"
proof (induction bc arbitrary: m)
  case (Cons e bc)
  obtain et b where e: "e = (et, b)" by (cases e)
  then obtain ts m1 where m: "b = Weighted ts" "insert_weighted D mk et ts m = Inr m1" "weighted_services D mk bc m1 = Inr m'"
    using Cons.prems by (cases b) auto
  show ?case using Cons.IH[OF m(3)] insert_weighted_made[OF m(2)] by blast
qed simp

lemma dispatcher_new_tx:
  "dispatcher_new E S rid rc p = Inr d \<Longrightarrow> get_rate_limit_tx S rid = Inr e \<Longrightarrow> sv_rate_limit_tx d = Some e"
  by (auto simp: dispatcher_new_def)

text \<open>There is one mode of discovery.\<close>

lemma discover_mode_only [simp]: "(case m of DM_Config \<Rightarrow> x) = x"
  by (cases m) simp

text \<open>A balancer that has been made, by its kind: where its monitors send to, what it offers, and where its
  services send their events.\<close>

lemma provider_balancer_new_cases:
  assumes "provider_balancer_new E rid rc b S = (Inr p, S')"
  obtains ts c m where "b = Weighted ts" "p = PB_Weighted c \<lparr>cd_initial = m, cd_events = [], cd_closed = False\<rparr>"
      "register_monitors MK_Weighted rid rc S = (Inr c, S')"
      "weighted_services (se_decimals E) (dispatcher_new E S' rid rc) (rc_load_balance rc) [] = Inr m"
  | ps c d m where "b = Latency ps" "p = PB_PeakEwma c d" "pe_discover d = \<lparr>cd_initial = m, cd_events = [], cd_closed = False\<rparr>"
      "register_monitors MK_P2C rid rc S = (Inr c, S')"
      "discovery_services (dispatcher_new E S' rid rc) (rc_load_balance rc) [] = Inr m"
  using assms
  by (cases b) (auto simp: provider_balancer_new_def balancer_weighted_def balancer_peak_ewma_def config_discovery_new_def
      config_discovery_new_weighted_def discovery_new_def discovery_new_weighted_def discover_factory_call_def)

lemma provider_balancer_new_views:
  assumes "provider_balancer_new E rid rc b S = (Inr p, S')"
  shows "\<exists>kind. register_monitors kind rid rc S = (Inr (balancer_rx p), S')"
    "\<forall>d \<in> balancer_services p. sv_rate_limit_tx d = Some (Suc (as_channels S))"
proof -
  show r: "\<exists>kind. register_monitors kind rid rc S = (Inr (balancer_rx p), S')"
    by (rule provider_balancer_new_cases[OF assms]) auto
  then have tx: "get_rate_limit_tx S' rid = Inr (Suc (as_channels S))" by (blast dest: register_monitors_views(7))
  have "balancer_services p \<subseteq> {d. \<exists>q. dispatcher_new E S' rid rc q = Inr d}"
    by (rule provider_balancer_new_cases[OF assms]) (force dest!: discovery_services_made weighted_services_made)+
  then show "\<forall>d \<in> balancer_services p. sv_rate_limit_tx d = Some (Suc (as_channels S))"
    using dispatcher_new_tx[OF _ tx] by blast
qed

text \<open>The registry as the balancers have left it: \<open>L\<close> has the router, the channel of changes and the channel of
  events of every balancer made so far, in the order in which they were made.\<close>

definition last_change :: "(router_id \<times> nat \<times> nat) list \<Rightarrow> router_id \<rightharpoonup> nat" where
  "last_change L = map_of (rev (map (\<lambda>(r, c, e). (r, c)) L))"

definition last_event :: "(router_id \<times> nat \<times> nat) list \<Rightarrow> router_id \<rightharpoonup> nat" where
  "last_event L = map_of (rev (map (\<lambda>(r, c, e). (r, e)) L))"

definition registry_inv :: "'w app_state \<Rightarrow> (router_id \<times> nat \<times> nat) list \<Rightarrow> bool" where
  "registry_inv S L \<longleftrightarrow>
     distinct (map (\<lambda>(r, c, e). c) L) \<and> distinct (map (\<lambda>(r, c, e). e) L) \<and>
     (\<forall>(r, c, e) \<in> set L. c < as_channels S \<and> e < as_channels S) \<and>
     health_tx S = last_change L \<and> limit_tx S = last_change L \<and> limit_rx S = last_event L \<and>
     distinct (map fst (rg_monitors (as_rate_limits S))) \<and> rg_tasks (as_rate_limits S) = []"

lemma last_change_append [simp]: "last_change (L @ [(r, c, e)]) = (last_change L)(r \<mapsto> c)"
  by (simp add: last_change_def)

lemma last_event_append [simp]: "last_event (L @ [(r, c, e)]) = (last_event L)(r \<mapsto> e)"
  by (simp add: last_event_def)

lemma last_change_Some: "last_change L r = Some c \<Longrightarrow> \<exists>e. (r, c, e) \<in> set L"
  by (auto simp: last_change_def dest!: map_of_SomeD)

lemma last_event_Some: "last_event L r = Some e \<Longrightarrow> \<exists>c. (r, c, e) \<in> set L"
  by (auto simp: last_event_def dest!: map_of_SomeD)

definition made_as :: "router_id \<Rightarrow> 'w provider_balancer \<Rightarrow> router_id \<times> nat \<times> nat \<Rightarrow> bool" where
  "made_as rid p x \<longleftrightarrow> (\<exists>c e. x = (rid, c, e) \<and> balancer_rx p = c \<and> (\<forall>d \<in> balancer_services p. sv_rate_limit_tx d = Some e))"

lemma provider_balancer_new_inv:
  assumes "provider_balancer_new E rid rc b S = (Inr p, S')" "registry_inv S L"
  shows "\<exists>x. made_as rid p x \<and> registry_inv S' (L @ [x])" "as_config S' = as_config S"
proof -
  obtain kind where r: "register_monitors kind rid rc S = (Inr (balancer_rx p), S')"
    using provider_balancer_new_views(1)[OF assms(1)] by blast
  note v = register_monitors_views[OF r]
  show "as_config S' = as_config S" by (rule v(3))
  let ?x = "(rid, as_channels S, Suc (as_channels S))"
  have "made_as rid p ?x" using v(1) provider_balancer_new_views(2)[OF assms(1)] by (auto simp: made_as_def)
  moreover have "registry_inv S' (L @ [?x])"
    using assms(2) v by (fastforce simp: registry_inv_def)
  ultimately show "\<exists>x. made_as rid p x \<and> registry_inv S' (L @ [x])" by blast
qed

lemma assoc_insert_fresh: "k \<notin> fst ` set xs \<Longrightarrow> assoc_insert k v xs = xs @ [(k, v)]"
  by (induction k v xs rule: assoc_insert.induct) auto

definition layered_as :: "router_id \<Rightarrow> endpoint_type \<times> ('w, 'w provider_balancer) layered \<Rightarrow> router_id \<times> nat \<times> nat \<Rightarrow> bool" where
  "layered_as rid = (\<lambda>(et, ly) x. made_as rid (ly_service ly) x)"

lemma balancers_new_inv:
  assumes "balancers_new E rid rc layers bc inner S = (Inr inner', S')" "registry_inv S L"
    "\<And>p. ly_service (layers p) = p" "distinct (map fst bc)" "fst ` set bc \<inter> fst ` set inner = {}"
  shows "\<exists>zs Z. inner' = inner @ zs \<and> map fst zs = map fst bc \<and> list_all2 (layered_as rid) zs Z \<and> registry_inv S' (L @ Z) \<and>
    as_config S' = as_config S"
  using assms
proof (induction bc arbitrary: inner S L)
  case (Cons e bc)
  obtain et b where e: "e = (et, b)" by (cases e)
  obtain p S1 where p: "provider_balancer_new E rid rc b S = (Inr p, S1)"
    "balancers_new E rid rc layers bc (assoc_insert et (layers p) inner) S1 = (Inr inner', S')"
    using Cons.prems(1) by (auto simp: e)
  obtain x where x: "made_as rid p x" "registry_inv S1 (L @ [x])" and cfg: "as_config S1 = as_config S"
    using provider_balancer_new_inv[OF p(1) Cons.prems(2)] by blast
  have ins: "assoc_insert et (layers p) inner = inner @ [(et, layers p)]"
    using Cons.prems(5) by (intro assoc_insert_fresh) (auto simp: e)
  have "\<exists>zs Z. inner' = (inner @ [(et, layers p)]) @ zs \<and> map fst zs = map fst bc \<and> list_all2 (layered_as rid) zs Z \<and>
      registry_inv S' ((L @ [x]) @ Z) \<and> as_config S' = as_config S1"
    using p(2) x(2) Cons.prems(3,4,5) unfolding ins by (intro Cons.IH) (auto simp: e)
  then obtain zs Z where z: "inner' = (inner @ [(et, layers p)]) @ zs" "map fst zs = map fst bc"
    "list_all2 (layered_as rid) zs Z" "registry_inv S' ((L @ [x]) @ Z)" "as_config S' = as_config S1" by blast
  show ?case
    by (rule exI[of _ "(et, layers p) # zs"], rule exI[of _ "x # Z"])
       (use z x(1) cfg Cons.prems(3) in \<open>simp add: e layered_as_def\<close>)
qed simp

text \<open>The registry does not depend on the keys and the limiters of the routers.\<close>

lemma views_simps [simp]:
  "health_tx (S\<lparr>as_provider_keys := k\<rparr>) = health_tx S" "limit_tx (S\<lparr>as_provider_keys := k\<rparr>) = limit_tx S"
  "limit_rx (S\<lparr>as_provider_keys := k\<rparr>) = limit_rx S" "health_tx (S\<lparr>as_router_rate_limits := l\<rparr>) = health_tx S"
  "limit_tx (S\<lparr>as_router_rate_limits := l\<rparr>) = limit_tx S" "limit_rx (S\<lparr>as_router_rate_limits := l\<rparr>) = limit_rx S"
  by (simp_all add: health_tx_def limit_tx_def limit_rx_def fun_eq_iff)

lemma registry_inv_simps [simp]:
  "registry_inv (S\<lparr>as_provider_keys := k\<rparr>) L = registry_inv S L"
  "registry_inv (S\<lparr>as_router_rate_limits := l\<rparr>) L = registry_inv S L"
  by (simp_all add: registry_inv_def)

lemma router_rate_limit_keeps:
  assumes "router_rate_limit E rid rc S = (Inr l, S')"
  shows "registry_inv S' L = registry_inv S L" "as_config S' = as_config S"
    "as_direct_proxy_api_keys S' = as_direct_proxy_api_keys S"
  using assms by (auto simp: router_rate_limit_def hmodify_def split: option.splits)

text \<open>What a router that has been made went through.\<close>

lemma router_new_cases:
  assumes "router_new E rid S = (Inr r, S')"
  obtains rc layers S1 S2 d where "map_of (cfg_routers (as_config S)) rid = Some rc"
    "router_config_validate (se_decimals E) rc = Inr ()"
    "balancers_new E rid rc layers (rc_load_balance rc) [] S1 = (Inr (br_inner r), S')" "\<And>p. ly_service (layers p) = p"
    "\<And>L. registry_inv S1 L = registry_inv S L" "as_config S1 = as_config S"
    "new_direct_proxy E S' SDK = Inr d"
proof -
  obtain rc l c S0 S1 inner d keys where rc: "map_of (cfg_routers (as_config S)) rid = Some rc"
    and val: "router_config_validate (se_decimals E) rc = Inr ()"
    and keys: "add_provider_keys_for_router E rid rc S = (Inr keys, S0)"
    and rl: "router_rate_limit E rid rc S0 = (Inr l, S1)"
    and inner: "balancers_new E rid rc (\<lambda>s. \<lparr>ly_rate_limit = l, ly_cache = c, ly_router_config = Some rc,
        ly_provider_keys = keys, ly_service = s\<rparr>) (rc_load_balance rc) [] S1 = (Inr inner, S')"
    and d: "new_direct_proxy E S' SDK = Inr d" and r: "br_inner r = inner"
    using assms by (auto simp: router_new_def)
  have k: "S0 = S\<lparr>as_provider_keys := (as_provider_keys S)(rid \<mapsto> keys)\<rparr>"
    using keys by (auto simp: add_provider_keys_for_router_def Let_def)
  show thesis
    by (rule that[OF rc val inner[folded r] _ _ _ d]) (use router_rate_limit_keeps[OF rl] k in simp_all)
qed

definition router_as :: "router_id \<times> 'w built_router \<Rightarrow> (router_id \<times> nat \<times> nat) list \<Rightarrow> bool" where
  "router_as = (\<lambda>(rid, r) Z. list_all2 (layered_as rid) (br_inner r) Z)"

definition distinct_types :: "'w config \<Rightarrow> bool" where
  "distinct_types cfg \<longleftrightarrow> (\<forall>(rid, rc) \<in> set (cfg_routers cfg). distinct (map fst (rc_load_balance rc)))"

lemma router_new_inv:
  assumes "router_new E rid S = (Inr r, S')" "registry_inv S L" "distinct_types (as_config S)"
  shows "\<exists>rc Z. map_of (cfg_routers (as_config S)) rid = Some rc \<and> map fst (br_inner r) = map fst (rc_load_balance rc) \<and>
    router_as (rid, r) Z \<and> registry_inv S' (L @ Z) \<and> as_config S' = as_config S"
proof (rule router_new_cases[OF assms(1)])
  fix rc layers S1 S2 d
  assume rc: "map_of (cfg_routers (as_config S)) rid = Some rc"
    and inner: "balancers_new E rid rc layers (rc_load_balance rc) [] S1 = (Inr (br_inner r), S')"
    and layers: "\<And>p. ly_service (layers p) = p" and inv: "\<And>L. registry_inv S1 L = registry_inv S L"
    and cfg: "as_config S1 = as_config S"
  have "distinct (map fst (rc_load_balance rc))"
    using assms(3) map_of_SomeD[OF rc] by (auto simp: distinct_types_def)
  then obtain Z where "map fst (br_inner r) = map fst (rc_load_balance rc)" "list_all2 (layered_as rid) (br_inner r) Z"
    "registry_inv S' (L @ Z)" "as_config S' = as_config S1"
    using balancers_new_inv[OF inner _ layers, of L] inv assms(2) by auto
  then show ?thesis using rc cfg by (auto simp: router_as_def)
qed

lemma routers_new_inv:
  assumes "routers_new E rids inner S = (Inr inner', S')" "registry_inv S L" "distinct_types (as_config S)"
    "distinct rids" "set rids \<inter> fst ` set inner = {}"
  shows "\<exists>zs Zs. inner' = inner @ zs \<and> map fst zs = rids \<and> list_all2 router_as zs Zs \<and> registry_inv S' (L @ concat Zs) \<and>
    as_config S' = as_config S"
  using assms
proof (induction rids arbitrary: inner S L)
  case (Cons rid rids)
  obtain r S1 where r: "router_new E rid S = (Inr r, S1)" "routers_new E rids (assoc_insert rid r inner) S1 = (Inr inner', S')"
    using Cons.prems(1) by auto
  obtain Z where Z: "router_as (rid, r) Z" "registry_inv S1 (L @ Z)" "as_config S1 = as_config S"
    using router_new_inv[OF r(1) Cons.prems(2,3)] by blast
  have ins: "assoc_insert rid r inner = inner @ [(rid, r)]"
    using Cons.prems(5) by (intro assoc_insert_fresh) auto
  obtain zs Zs where zs: "inner' = (inner @ [(rid, r)]) @ zs" "map fst zs = rids" "list_all2 router_as zs Zs"
    "registry_inv S' ((L @ Z) @ concat Zs)" "as_config S' = as_config S1"
    using Cons.IH[OF r(2)[unfolded ins] Z(2)] Cons.prems(3,4,5) Z(3) by auto
  show ?case
    by (rule exI[of _ "(rid, r) # zs"], rule exI[of _ "Z # Zs"]) (use zs Z in simp)
qed simp

lemma app_new_cases:
  assumes "app_new E cfg = Inr (m, S)"
  obtains S0 where "build_app_state E cfg = Inr S0" "routers_new E (map fst (cfg_routers cfg)) [] S0 = (Inr (bm_inner m), S)"
    "direct_proxies_new (new_direct_proxy E) S = Inr (bm_unified_api m)"
    "direct_proxies_new (new_without_mapper E) S = Inr (bm_direct_proxies m)"
    "as_config S0 = cfg" "registry_inv S0 []"
proof -
  obtain S0 where b0: "build_app_state E cfg = Inr S0"
    and run: "(case build_service_stack E S0 of (Inl e, _) \<Rightarrow> Inl e | (Inr m, S) \<Rightarrow> Inr (m, S)) = Inr (m, S)"
    using assms unfolding app_new_def rbind_Ok_iff by blast
  have "build_service_stack E S0 = (Inr m, S)"
    using run by (cases "build_service_stack E S0"; cases "fst (build_service_stack E S0)"; simp)
  then have S0: "build_app_state E cfg = Inr S0" "meta_router_new E S0 = (Inr m, S)"
    using b0 by (simp_all add: build_service_stack_def)
  have b: "as_config S0 = cfg" "registry_inv S0 []"
    using S0(1) by (auto simp: build_app_state_def registry_inv_def health_tx_def limit_tx_def limit_rx_def last_change_def
        last_event_def fun_eq_iff)
  show thesis
    by (rule that[OF S0(1) _ _ _ b]) (use S0(2) b(1) in \<open>auto simp: meta_router_new_def\<close>)
qed

text \<open>The first tick of the supervisor of the rate-limit monitors.\<close>

lemma map_of_other_key: "r \<noteq> rid \<Longrightarrow> map_of (filter (\<lambda>e. fst e \<noteq> rid) xs) r = map_of xs r"
  by (induction xs) auto

lemma start_monitors_all:
  assumes "distinct (map fst ms)" "\<And>rid. rid \<in> fst ` set ms \<Longrightarrow> map_of (rg_receivers g) rid \<noteq> None"
  shows "\<exists>g'. start_monitors ms g = Inr g' \<and>
    rg_tasks g' = rg_tasks g @ map (\<lambda>(rid, m). (m, the (map_of (rg_receivers g) rid))) ms"
  using assms
proof (induction ms arbitrary: g)
  case (Cons x ms)
  obtain rid m where x: "x = (rid, m)" by (cases x)
  obtain rx where rx: "map_of (rg_receivers g) rid = Some rx" using Cons.prems(2)[of rid] by (auto simp: x)
  let ?g = "g\<lparr>rg_receivers := filter (\<lambda>e. fst e \<noteq> rid) (rg_receivers g), rg_tasks := rg_tasks g @ [(m, rx)]\<rparr>"
  have same: "map_of (filter (\<lambda>e. fst e \<noteq> rid) (rg_receivers g)) r = map_of (rg_receivers g) r" if "r \<noteq> rid" for r
    using that by (rule map_of_other_key)
  let ?tasks = "\<lambda>g. map (\<lambda>(rid, m). (m, the (map_of (rg_receivers g) rid))) ms"
  have "\<exists>g'. start_monitors ms ?g = Inr g' \<and> rg_tasks g' = rg_tasks ?g @ ?tasks ?g"
  proof (rule Cons.IH)
    show "distinct (map fst ms)" using Cons.prems(1) by (simp add: x)
    fix r assume "r \<in> fst ` set ms"
    then have "r \<noteq> rid" using Cons.prems(1) by (auto simp: x)
    then show "map_of (rg_receivers ?g) r \<noteq> None" using Cons.prems(2)[of r] \<open>r \<in> fst ` set ms\<close> same by (simp add: x)
  qed
  then obtain g' where g': "start_monitors ms ?g = Inr g'" "rg_tasks g' = rg_tasks ?g @ ?tasks ?g" by blast
  have "?tasks ?g = ?tasks g" using Cons.prems(1) same by (intro map_cong refl) (fastforce simp: x)
  then have "rg_tasks g' = rg_tasks g @ (m, rx) # ?tasks g" using g'(2) by (metis append.assoc append_Cons append_Nil rl_registry.select_convs(3) rl_registry.surjective rl_registry.update_convs(3))
  then show ?case by (intro exI[of _ g']) (use g'(1) in \<open>simp add: x rx remove_rate_limit_receiver_def\<close>)
qed simp

text \<open>A router among all: its last channels are those of its last balancer, and the channels of the others are
  not in use.\<close>

lemma last_None: "last_change L r = None \<longleftrightarrow> r \<notin> fst ` set L" "last_event L r = None \<longleftrightarrow> r \<notin> fst ` set L"
  by (force simp: last_change_def last_event_def map_of_eq_None_iff)+

lemma router_as_ids: "router_as (rid, r) Z \<Longrightarrow> fst ` set Z \<subseteq> {rid}"
  by (force simp: router_as_def layered_as_def made_as_def list_all2_conv_all_nth in_set_conv_nth)

lemma routers_as_ids: "list_all2 router_as zs Zs \<Longrightarrow> fst ` set (concat Zs) \<subseteq> fst ` set zs"
proof (induction zs Zs rule: list_all2_induct)
  case (Cons z zs Z Zs)
  then show ?case using router_as_ids[of "fst z" "snd z" Z] by auto
qed simp

lemma last_change_concat:
  "last_change (Z @ Y) r = (case last_change Y r of None \<Rightarrow> last_change Z r | Some c \<Rightarrow> Some c)"
  "last_event (Z @ Y) r = (case last_event Y r of None \<Rightarrow> last_event Z r | Some c \<Rightarrow> Some c)"
  unfolding last_change_def last_event_def by (simp_all add: map_add_def)

lemma last_of_router:
  assumes "list_all2 router_as zs Zs" "distinct (map fst zs)" "(rid, r) \<in> set zs"
  shows "\<exists>Z \<in> set Zs. router_as (rid, r) Z \<and>
    last_change (concat Zs) rid = last_change Z rid \<and> last_event (concat Zs) rid = last_event Z rid"
  using assms
proof (induction zs Zs rule: list_all2_induct)
  case (Cons z zs Z Zs)
  obtain rid0 r0 where z: "z = (rid0, r0)" by (cases z)
  show ?case
  proof (cases "rid = rid0")
    case True
    then have "(rid, r) = z" "rid \<notin> fst ` set zs" using Cons.prems by (auto simp: z image_iff)
    then have "last_change (concat Zs) rid = None" "last_event (concat Zs) rid = None"
      using routers_as_ids[OF Cons.hyps(2)] by (auto simp: last_None)
    then show ?thesis using Cons.hyps(1) \<open>(rid, r) = z\<close> by (intro bexI[of _ Z]) (simp_all add: last_change_concat)
  next
    case False
    then obtain Y where Y: "router_as (rid, r) Y" "Y \<in> set Zs"
      "last_change (concat Zs) rid = last_change Y rid" "last_event (concat Zs) rid = last_event Y rid"
      using Cons.IH Cons.prems by (auto simp: z)
    have "last_change Z rid = None" "last_event Z rid = None"
      using router_as_ids[of rid0 r0 Z] Cons.hyps(1) False by (auto simp: z last_None)
    then show ?thesis using Y by (intro bexI[of _ Y]) (auto simp: last_change_concat split: option.split)
  qed
qed simp

text \<open>What the registry gives the running monitors.\<close>

lemma first_tick:
  assumes "registry_inv S L"
  shows "\<exists>g. monitor_tick (as_rate_limits S) = Inr g \<and>
    (\<forall>mon rx. (mon, rx) \<in> set (rg_tasks g) \<longleftrightarrow>
      (\<exists>rid. map_of (rg_monitors (as_rate_limits S)) rid = Some mon \<and> last_event L rid = Some rx))"
proof -
  let ?R = "as_rate_limits S"
  have rx: "map_of (rg_receivers ?R) = last_event L" and tx: "\<And>rid. map_option pm_tx (map_of (rg_monitors ?R) rid) = last_change L rid"
    and d: "distinct (map fst (rg_monitors ?R))" and t: "rg_tasks ?R = []"
    using assms by (auto simp: registry_inv_def limit_tx_def limit_rx_def fun_eq_iff)
  have both: "last_event L rid \<noteq> None" if "map_of (rg_monitors ?R) rid \<noteq> None" for rid
  proof -
    have "(last_event L rid = None) = (last_change L rid = None)" by (simp add: last_None)
    then show ?thesis using tx[of rid] that by auto
  qed
  have keys: "map_of (rg_monitors ?R) rid \<noteq> None" if "rid \<in> fst ` set (rg_monitors ?R)" for rid
    using that by (simp add: map_of_eq_None_iff)
  obtain g where g: "monitor_tick ?R = Inr g"
    "rg_tasks g = map (\<lambda>(rid, m). (m, the (last_event L rid))) (rg_monitors ?R)"
    using start_monitors_all[of "rg_monitors ?R" "?R\<lparr>rg_monitors := []\<rparr>"] d keys both rx t
    by (auto simp: monitor_tick_def)
  have mem: "(rid, m) \<in> set (rg_monitors ?R) \<longleftrightarrow> map_of (rg_monitors ?R) rid = Some m" for rid m
    using d by (simp add: map_of_eq_Some_iff)
  have "(mon, rx) \<in> set (rg_tasks g) \<longleftrightarrow>
      (\<exists>rid. map_of (rg_monitors ?R) rid = Some mon \<and> last_event L rid = Some rx)" for mon rx
  proof -
    have "(mon, rx) \<in> set (rg_tasks g) \<longleftrightarrow> (\<exists>rid. (rid, mon) \<in> set (rg_monitors ?R) \<and> rx = the (last_event L rid))"
      unfolding g(2) by force
    also have "\<dots> \<longleftrightarrow> (\<exists>rid. map_of (rg_monitors ?R) rid = Some mon \<and> last_event L rid = Some rx)"
      unfolding mem by (metis both option.distinct(1) option.sel option.exhaust)
    finally show ?thesis .
  qed
  then show ?thesis using g(1) by blast
qed

lemma same_change: "registry_inv S L \<Longrightarrow> (r, c, e) \<in> set L \<Longrightarrow> (r', c, e') \<in> set L \<Longrightarrow> r = r' \<and> e = e'"
  by (auto simp: registry_inv_def distinct_map inj_on_def)

lemma same_event: "registry_inv S L \<Longrightarrow> (r, c, e) \<in> set L \<Longrightarrow> (r', c', e) \<in> set L \<Longrightarrow> r = r' \<and> c = c'"
  by (auto simp: registry_inv_def distinct_map inj_on_def)

lemma own_distinct:
  assumes "registry_inv S (concat Zs)" "Z \<in> set Zs"
  shows "distinct (map (\<lambda>(r, c, e). c) Z)" "distinct (map (\<lambda>(r, c, e). e) Z)"
  using assms by (auto simp: registry_inv_def map_concat dest!: split_list)

text \<open>The channels of the balancers of a router, when the gateway has started.\<close>

lemma app_new_channels:
  assumes "app_new E cfg = Inr (m, S)" "distinct (map fst (cfg_routers cfg))" "distinct_types cfg"
    and "(rid, r) \<in> set (bm_inner m)" "br_inner r = bs @ [(et, b)]"
  obtains L c e where "registry_inv S L" "last_change L rid = Some c" "last_event L rid = Some e"
    "made_as rid (ly_service b) (rid, c, e)"
    "\<And>et' b'. (et', b') \<in> set bs \<Longrightarrow>
      \<exists>c' e'. (rid, c', e') \<in> set L \<and> made_as rid (ly_service b') (rid, c', e') \<and> c' \<noteq> c \<and> e' \<noteq> e"
proof -
  obtain zs Zs where z: "bm_inner m = zs" "map fst zs = map fst (cfg_routers cfg)" "list_all2 router_as zs Zs"
    and inv: "registry_inv S (concat Zs)"
    using assms(1-3) by (elim app_new_cases) (auto dest!: routers_new_inv)
  obtain Z where Z: "router_as (rid, r) Z" "Z \<in> set Zs"
    "last_change (concat Zs) rid = last_change Z rid" "last_event (concat Zs) rid = last_event Z rid"
    using last_of_router[OF z(3), of rid r] z(1,2) assms(2,4) by auto
  have "list_all2 (layered_as rid) (bs @ [(et, b)]) Z" using Z(1) assms(5) by (simp add: router_as_def)
  then obtain Z0 c e where Z0: "Z = Z0 @ [(rid, c, e)]" "list_all2 (layered_as rid) bs Z0"
    and b: "made_as rid (ly_service b) (rid, c, e)"
    by (auto simp: list_all2_append1 list_all2_Cons1 layered_as_def made_as_def)
  have "\<exists>c' e'. (rid, c', e') \<in> set (concat Zs) \<and> made_as rid (ly_service b') (rid, c', e') \<and> c' \<noteq> c \<and> e' \<noteq> e"
    if b': "(et', b') \<in> set bs" for et' b'
  proof -
    obtain c' e' where x: "(rid, c', e') \<in> set Z0" "made_as rid (ly_service b') (rid, c', e')"
      using Z0(2) b' by (fastforce simp: list_all2_conv_all_nth in_set_conv_nth layered_as_def made_as_def)
    have "c' \<noteq> c \<and> e' \<noteq> e" using own_distinct[OF inv Z(2)] Z0(1) x(1) by (force simp: distinct_map)
    moreover have "(rid, c', e') \<in> set (concat Zs)" using x(1) Z(2) Z0(1) by (auto intro: bexI[of _ Z])
    ultimately show ?thesis using x(2) by blast
  qed
  then show thesis using inv Z(3,4) Z0(1) b by (intro that[of "concat Zs" c e]) simp_all
qed

text \<open>The parts that a start has gone through, whatever the registry is.\<close>

lemma insert_services_all: "insert_services mk et ps m = Inr m' \<Longrightarrow> p \<in> set ps \<Longrightarrow> \<exists>d. mk p = Inr d"
  by (induction ps arbitrary: m) auto

lemma discovery_services_all:
  "discovery_services mk bc m = Inr m' \<Longrightarrow> (et, b) \<in> set bc \<Longrightarrow> p \<in> set (inner_providers b) \<Longrightarrow> \<exists>d. mk p = Inr d"
  by (induction bc arbitrary: m) (auto dest: insert_services_all)

lemma insert_weighted_all: "insert_weighted D mk et ts m = Inr m' \<Longrightarrow> t \<in> set ts \<Longrightarrow> \<exists>d. mk (bt_provider t) = Inr d"
  by (induction ts arbitrary: m) auto

lemma weighted_services_all:
  "weighted_services D mk bc m = Inr m' \<Longrightarrow> (et, b) \<in> set bc \<Longrightarrow> p \<in> set (inner_providers b) \<Longrightarrow> \<exists>d. mk p = Inr d"
proof (induction bc arbitrary: m)
  case (Cons x bc)
  obtain et' ts m1 where x: "x = (et', Weighted ts)" "insert_weighted D mk et' ts m = Inr m1" "weighted_services D mk bc m1 = Inr m'"
    using Cons.prems(1) by (cases x) (auto split: balance_config_inner.splits)
  show ?case using Cons.IH[OF x(3)] Cons.prems(2,3) insert_weighted_all[OF x(2)] by (auto simp: x(1))
qed simp

lemma client_new_inner_Ok:
  "client_new_inner host cfg p key = Inr c \<Longrightarrow> p \<in> fst ` set (cfg_providers cfg) \<and> (\<forall>n. p \<noteq> P_Named n)"
  by (cases p) (force simp: client_new_inner_def openai_client_def google_gemini_client_def anthropic_client_def ollama_client_def
      bedrock_client_def bearer_client_def provider_base_url_def dest: map_of_SomeD)+

lemma dispatcher_new_configured:
  "dispatcher_new E S rid rc p = Inr d \<Longrightarrow> p \<in> fst ` set (cfg_providers (as_config S)) \<and> (\<forall>n. p \<noteq> P_Named n)"
  by (auto simp: dispatcher_new_def client_for_router_def split: if_splits dest!: client_new_inner_Ok)

lemma direct_proxy_configured:
  "new_direct_proxy E S p = Inr d \<Longrightarrow> p \<in> fst ` set (cfg_providers (as_config S)) \<and> (\<forall>n. p \<noteq> P_Named n)"
  by (auto simp: new_direct_proxy_def client_for_direct_proxy_def split: if_splits dest!: client_new_inner_Ok)

lemma direct_proxies_loop_Ok:
  "direct_proxies_loop mk S ps proxies = Inr proxies' \<Longrightarrow>
     (\<forall>p \<in> set ps. \<exists>d. mk S p = Inr d) \<and>
     (distinct ps \<and> set ps \<inter> fst ` set proxies = {} \<longrightarrow> map fst proxies' = map fst proxies @ ps)"
proof (induction ps arbitrary: proxies)
  case (Cons p ps)
  then obtain d where d: "mk S p = Inr d"
    "direct_proxies_loop mk S ps (assoc_insert p (disabled_layers S d) proxies) = Inr proxies'" by auto
  show ?case using Cons.IH[OF d(2)] d(1) by (auto simp: assoc_insert_fresh)
qed simp

lemma set_assoc_insert: "set (assoc_insert k v xs) \<subseteq> insert (k, v) (set xs)"
  by (induction k v xs rule: assoc_insert.induct) auto

lemma balancers_new_parts:
  assumes "balancers_new E rid rc layers bc inner S = (Inr inner', S')" "\<And>p. ly_service (layers p) = p"
  shows "as_config S' = as_config S \<and>
    (\<forall>et b. (et, b) \<in> set bc \<longrightarrow>
      (\<exists>S1 p S2. provider_balancer_new E rid rc b S1 = (Inr p, S2) \<and> as_config S2 = as_config S)) \<and>
    (\<forall>et ly. (et, ly) \<in> set inner' \<longrightarrow> (et, ly) \<in> set inner \<or>
      (\<exists>b S1 S2. provider_balancer_new E rid rc b S1 = (Inr (ly_service ly), S2))) \<and>
    (distinct (map fst bc) \<and> fst ` set bc \<inter> fst ` set inner = {} \<longrightarrow> map fst inner' = map fst inner @ map fst bc)"
  using assms(1)
proof (induction bc arbitrary: inner S)
  case (Cons x bc)
  obtain et b where x: "x = (et, b)" by (cases x)
  obtain p S1 where p: "provider_balancer_new E rid rc b S = (Inr p, S1)"
    "balancers_new E rid rc layers bc (assoc_insert et (layers p) inner) S1 = (Inr inner', S')"
    using Cons.prems by (auto simp: x)
  have cfg: "as_config S1 = as_config S"
    using provider_balancer_new_views(1)[OF p(1)] by (auto dest: register_monitors_views(3))
  note IH = Cons.IH[OF p(2)]
  have c1: "\<forall>et' ly. (et', ly) \<in> set inner' \<longrightarrow> (et', ly) \<in> set inner \<or>
      (\<exists>b S1 S2. provider_balancer_new E rid rc b S1 = (Inr (ly_service ly), S2))"
  proof (intro allI impI)
    fix et' ly assume ly: "(et', ly) \<in> set inner'"
    have mem: "(et', ly) \<in> set inner \<or> ly = layers p" if "(et', ly) \<in> set (assoc_insert et (layers p) inner)"
      using that set_assoc_insert[of et "layers p" inner] by auto
    show "(et', ly) \<in> set inner \<or> (\<exists>b S1 S2. provider_balancer_new E rid rc b S1 = (Inr (ly_service ly), S2))"
      using IH[THEN conjunct2, THEN conjunct2, THEN conjunct1, rule_format, OF ly] mem p(1) assms(2) by auto
  qed
  have c2: "\<forall>et' b'. (et', b') \<in> set (x # bc) \<longrightarrow>
      (\<exists>S1 p S2. provider_balancer_new E rid rc b' S1 = (Inr p, S2) \<and> as_config S2 = as_config S)"
    using IH[THEN conjunct2, THEN conjunct1] p(1) cfg by (auto simp: x)
  have c3: "distinct (map fst (x # bc)) \<and> fst ` set (x # bc) \<inter> fst ` set inner = {} \<longrightarrow>
      map fst inner' = map fst inner @ map fst (x # bc)"
    using IH[THEN conjunct2, THEN conjunct2, THEN conjunct2] by (auto simp: x assoc_insert_fresh)
  have c0: "as_config S' = as_config S" using IH[THEN conjunct1] cfg by simp
  show ?case by (intro conjI c0 c1 c2 c3)
qed (auto)

lemma router_new_config: "router_new E rid S = (Inr r, S') \<Longrightarrow> as_config S' = as_config S"
  by (erule router_new_cases) (use balancers_new_parts in metis)

lemma routers_new_parts:
  assumes "routers_new E rids inner S = (Inr inner', S')"
  shows "as_config S' = as_config S \<and>
    (\<forall>rid \<in> set rids. \<exists>S1 r S2. router_new E rid S1 = (Inr r, S2) \<and> as_config S1 = as_config S) \<and>
    (\<forall>rid r. (rid, r) \<in> set inner' \<longrightarrow> (rid, r) \<in> set inner \<or>
      (\<exists>S1 S2. router_new E rid S1 = (Inr r, S2) \<and> as_config S1 = as_config S)) \<and>
    (distinct rids \<and> set rids \<inter> fst ` set inner = {} \<longrightarrow> map fst inner' = map fst inner @ rids)"
  using assms
proof (induction rids arbitrary: inner S)
  case (Cons rid rids)
  obtain r S1 where r: "router_new E rid S = (Inr r, S1)" "routers_new E rids (assoc_insert rid r inner) S1 = (Inr inner', S')"
    using Cons.prems by auto
  note cfg = router_new_config[OF r(1)] and IH = Cons.IH[OF r(2)]
  have c1: "\<forall>rid' r'. (rid', r') \<in> set inner' \<longrightarrow> (rid', r') \<in> set inner \<or>
      (\<exists>S1 S2. router_new E rid' S1 = (Inr r', S2) \<and> as_config S1 = as_config S)"
    using IH[THEN conjunct2, THEN conjunct2, THEN conjunct1] r(1) cfg set_assoc_insert[of rid r inner]
    by (metis (no_types, lifting) Pair_inject insertE subsetD)
  have c2: "\<forall>rid' \<in> set (rid # rids). \<exists>S1 r S2. router_new E rid' S1 = (Inr r, S2) \<and> as_config S1 = as_config S"
    using IH[THEN conjunct2, THEN conjunct1] r(1) cfg by auto
  have c3: "distinct (rid # rids) \<and> set (rid # rids) \<inter> fst ` set inner = {} \<longrightarrow> map fst inner' = map fst inner @ (rid # rids)"
    using IH[THEN conjunct2, THEN conjunct2, THEN conjunct2] by (auto simp: assoc_insert_fresh)
  have c0: "as_config S' = as_config S" using IH[THEN conjunct1] cfg by simp
  show ?case by (intro conjI c0 c1 c2 c3)
qed auto

text \<open>What a balancer offers: providers, each for an endpoint type.\<close>

fun balancer_offers :: "'w provider_balancer \<Rightarrow> (inference_provider \<times> endpoint_type) set" where
  "balancer_offers (PB_PeakEwma c d) = (\<lambda>(k, s). (k_provider k, k_endpoint_type k)) ` set (cd_initial (pe_discover d))"
| "balancer_offers (PB_Weighted c d) = (\<lambda>(k, s). (wk_provider k, wk_endpoint_type k)) ` set (cd_initial d)"

lemma provider_balancer_new_offers:
  assumes "provider_balancer_new E rid rc b S = (Inr p, S')"
  shows "balancer_offers p = {(q, et). \<exists>b. (et, b) \<in> set (rc_load_balance rc) \<and> q \<in> set (inner_providers b)}"
proof (rule provider_balancer_new_cases[OF assms])
  fix ts c m
  assume p: "p = PB_Weighted c \<lparr>cd_initial = m, cd_events = [], cd_closed = False\<rparr>"
    and m: "weighted_services (se_decimals E) (dispatcher_new E S' rid rc) (rc_load_balance rc) [] = Inr m"
  have "balancer_offers p = (\<lambda>k. (wk_provider k, wk_endpoint_type k)) ` fst ` set m"
    by (simp add: p image_image case_prod_unfold)
  also have "\<dots> = (\<lambda>k. (wk_provider k, wk_endpoint_type k)) ` weighted_keys (se_decimals E) (rc_load_balance rc)"
    using weighted_services_keys[OF m] by simp
  also have "\<dots> = {(q, et). \<exists>b. (et, b) \<in> set (rc_load_balance rc) \<and> q \<in> set (inner_providers b)}"
    using weighted_services_keys[OF m] by (fastforce simp: weighted_keys_def target_key_def image_iff)
  finally show ?thesis .
next
  fix ps c d m
  assume p: "p = PB_PeakEwma c d" and d: "pe_discover d = \<lparr>cd_initial = m, cd_events = [], cd_closed = False\<rparr>"
    and m: "discovery_services (dispatcher_new E S' rid rc) (rc_load_balance rc) [] = Inr m"
  have "balancer_offers p = (\<lambda>k. (k_provider k, k_endpoint_type k)) ` fst ` set m"
    by (simp add: p d image_image case_prod_unfold)
  also have "\<dots> = {(q, et). \<exists>b. (et, b) \<in> set (rc_load_balance rc) \<and> q \<in> set (inner_providers b)}"
    unfolding discovery_services_keys[OF m] by (fastforce simp: image_iff)
  finally show ?thesis .
qed

lemma provider_balancer_new_requires:
  assumes "provider_balancer_new E rid rc b S = (Inr p, S')" "(et, b') \<in> set (rc_load_balance rc)"
  shows "set (inner_providers b') \<subseteq> fst ` set (cfg_providers (as_config S'))"
    "b = Weighted ts \<Longrightarrow> \<exists>ts'. b' = Weighted ts'"
proof -
  show "set (inner_providers b') \<subseteq> fst ` set (cfg_providers (as_config S'))"
    by (rule provider_balancer_new_cases[OF assms(1)])
       (use assms(2) in \<open>blast dest: weighted_services_all discovery_services_all dispatcher_new_configured\<close>)+
  show "b = Weighted ts \<Longrightarrow> \<exists>ts'. b' = Weighted ts'"
    by (rule provider_balancer_new_cases[OF assms(1)]) (use assms(2) in \<open>auto dest!: weighted_services_keys\<close>)
qed

lemma all_of_a_kind:
  assumes "\<And>et b ts et' b'. (et, b) \<in> set bc \<Longrightarrow> b = Weighted ts \<Longrightarrow> (et', b') \<in> set bc \<Longrightarrow> \<exists>ts'. b' = Weighted ts'"
  shows "(\<forall>(et, b) \<in> set bc. \<exists>ts. b = Weighted ts) \<or> (\<forall>(et, b) \<in> set bc. \<exists>ps. b = Latency ps)"
proof (cases "\<exists>et ts. (et, Weighted ts) \<in> set bc")
  case True
  then show ?thesis using assms by blast
next
  case False
  have "\<exists>ps. b = Latency ps" if "(et, b) \<in> set bc" for et b using that False by (cases b) auto
  then show ?thesis by blast
qed

lemma built_router_cases:
  assumes "app_new E cfg = Inr (m, S)" "distinct (map fst (cfg_routers cfg))"
    and "(rid, rc) \<in> set (cfg_routers cfg)" "(rid, r) \<in> set (bm_inner m)"
  obtains layers S1 S2 where "balancers_new E rid rc layers (rc_load_balance rc) [] S1 = (Inr (br_inner r), S2)"
    "\<And>p. ly_service (layers p) = p"
proof (rule app_new_cases[OF assms(1)])
  fix S0
  assume routers: "routers_new E (map fst (cfg_routers cfg)) [] S0 = (Inr (bm_inner m), S)" and cfg: "as_config S0 = cfg"
  obtain S1 S2 where r: "router_new E rid S1 = (Inr r, S2)" "as_config S1 = cfg"
    using routers_new_parts[OF routers, THEN conjunct2, THEN conjunct2, THEN conjunct1, rule_format, OF assms(4)] cfg by auto
  show thesis
    by (rule router_new_cases[OF r(1)]) (use that assms(2,3) r(2) in auto)
qed

text \<open>What every balancer of a router offers.\<close>

lemma built_balancer_offers:
  assumes "app_new E cfg = Inr (m, S)" "distinct (map fst (cfg_routers cfg))"
    and "(rid, rc) \<in> set (cfg_routers cfg)" "(rid, r) \<in> set (bm_inner m)" "(et, b) \<in> set (br_inner r)"
  shows "balancer_offers (ly_service b) =
    {(p, et'). \<exists>b'. (et', b') \<in> set (rc_load_balance rc) \<and> p \<in> set (inner_providers b')}"
proof (rule built_router_cases[OF assms(1-4)])
  fix layers S1 S2
  assume b: "balancers_new E rid rc layers (rc_load_balance rc) [] S1 = (Inr (br_inner r), S2)" and l: "\<And>p. ly_service (layers p) = p"
  obtain b' S3 S4 where "provider_balancer_new E rid rc b' S3 = (Inr (ly_service b), S4)"
    using balancers_new_parts[OF b l, THEN conjunct2, THEN conjunct2, THEN conjunct1, rule_format, OF assms(5)] by auto
  then show ?thesis by (rule provider_balancer_new_offers)
qed

text \<open>What a start requires of the configuration.\<close>

lemma start_requires:
  assumes "app_new E cfg = Inr (m, S)" "distinct (map fst (cfg_routers cfg))"
  shows "(\<forall>p \<in> fst ` set (cfg_providers cfg). \<forall>n. p \<noteq> P_Named n) \<and>
    (\<forall>(rid, rc) \<in> set (cfg_routers cfg).
      router_config_validate (se_decimals E) rc = Inr () \<and> P_OpenAI \<in> fst ` set (cfg_providers cfg) \<and>
      (\<forall>(et, b) \<in> set (rc_load_balance rc). set (inner_providers b) \<subseteq> fst ` set (cfg_providers cfg)) \<and>
      ((\<forall>(et, b) \<in> set (rc_load_balance rc). \<exists>ts. b = Weighted ts) \<or>
       (\<forall>(et, b) \<in> set (rc_load_balance rc). \<exists>ps. b = Latency ps)))"
proof (rule app_new_cases[OF assms(1)])
  fix S0
  assume routers: "routers_new E (map fst (cfg_routers cfg)) [] S0 = (Inr (bm_inner m), S)" and cfg: "as_config S0 = cfg"
    and direct: "direct_proxies_new (new_direct_proxy E) S = Inr (bm_unified_api m)"
  have "as_config S = cfg" using routers_new_parts[OF routers] cfg by simp
  then have named: "\<forall>p \<in> fst ` set (cfg_providers cfg). \<forall>n. p \<noteq> P_Named n"
    using direct_proxies_loop_Ok[OF direct[unfolded direct_proxies_new_def]] direct_proxy_configured by fastforce
  have each: "router_config_validate (se_decimals E) rc = Inr () \<and> P_OpenAI \<in> fst ` set (cfg_providers cfg) \<and>
      (\<forall>(et, b) \<in> set (rc_load_balance rc). set (inner_providers b) \<subseteq> fst ` set (cfg_providers cfg)) \<and>
      ((\<forall>(et, b) \<in> set (rc_load_balance rc). \<exists>ts. b = Weighted ts) \<or>
       (\<forall>(et, b) \<in> set (rc_load_balance rc). \<exists>ps. b = Latency ps))"
    if rc: "(rid, rc) \<in> set (cfg_routers cfg)" for rid rc
  proof -
    obtain S1 r S2 where r: "router_new E rid S1 = (Inr r, S2)" "as_config S1 = cfg"
      using routers_new_parts[OF routers, THEN conjunct2, THEN conjunct1] rc cfg by fastforce
    have lookup: "map_of (cfg_routers cfg) rid = Some rc" using assms(2) rc by simp
    show ?thesis
    proof (rule router_new_cases[OF r(1)])
      fix rc' layers S1' d
      assume rc': "map_of (cfg_routers (as_config S1)) rid = Some rc'" and v: "router_config_validate (se_decimals E) rc' = Inr ()"
        and b: "balancers_new E rid rc' layers (rc_load_balance rc') [] S1' = (Inr (br_inner r), S2)"
        and l: "\<And>p. ly_service (layers p) = p" and c: "as_config S1' = as_config S1" and d: "new_direct_proxy E S2 SDK = Inr d"
      have same: "rc' = rc" using rc' lookup r(2) by simp
      have "as_config S2 = cfg" using balancers_new_parts[OF b l, THEN conjunct1] c r(2) by simp
      then have openai: "P_OpenAI \<in> fst ` set (cfg_providers cfg)" using direct_proxy_configured[OF d] by (simp add: SDK_def)
      have made: "\<exists>S3 p S4. provider_balancer_new E rid rc b' S3 = (Inr p, S4) \<and> as_config S4 = cfg"
        if "(et, b') \<in> set (rc_load_balance rc)" for et b'
        using balancers_new_parts[OF b l, THEN conjunct2, THEN conjunct1] that c r(2) same by auto
      have inner: "set (inner_providers b') \<subseteq> fst ` set (cfg_providers cfg)" if q: "(et, b') \<in> set (rc_load_balance rc)" for et b'
      proof -
        obtain S3 p S4 where p: "provider_balancer_new E rid rc b' S3 = (Inr p, S4)" "as_config S4 = cfg" using made[OF q] by blast
        show ?thesis using provider_balancer_new_requires(1)[OF p(1) q] p(2) by simp
      qed
      have "(\<forall>(et, b) \<in> set (rc_load_balance rc). \<exists>ts. b = Weighted ts) \<or>
          (\<forall>(et, b) \<in> set (rc_load_balance rc). \<exists>ps. b = Latency ps)"
      proof (rule all_of_a_kind)
        fix et' b1 ts et'' b2
        assume x: "(et', b1) \<in> set (rc_load_balance rc)" "b1 = Weighted ts" "(et'', b2) \<in> set (rc_load_balance rc)"
        obtain S3 p S4 where "provider_balancer_new E rid rc b1 S3 = (Inr p, S4)" using made[OF x(1)] by blast
        then show "\<exists>ts'. b2 = Weighted ts'" by (rule provider_balancer_new_requires(2)[OF _ x(3,2)])
      qed
      moreover have "\<forall>(et, b) \<in> set (rc_load_balance rc). set (inner_providers b) \<subseteq> fst ` set (cfg_providers cfg)"
        using inner by blast
      ultimately show ?thesis using v[unfolded same] openai by (intro conjI)
    qed
  qed
  show ?thesis
    by (intro conjI named ballI, rename_tac x, case_tac x, simp only: split_conv, rule each)
qed

section \<open>A concrete start\<close>

text \<open>A start with a router that has two endpoint types; every key of the environment is the same.\<close>

definition sample_start :: "nat start_env" where
  "sample_start = \<lparr>se_env = (\<lambda>v. Some ''sk-gateway''), se_decimals = percent_ops, se_host = sample_host, se_pool = (\<lambda>u. False),
     se_redis_cache = (\<lambda>u. Inr ()), se_clients = Inr (), se_otel = Inr ()\<rparr>"

definition two_types :: "nat config" where
  "two_types = sample_config\<lparr>cfg_routers := [(R_Default, sample_router\<lparr>rc_load_balance :=
     [(ET_Chat, Latency [P_OpenAI]), (ET_Image, Latency [P_Anthropic])]\<rparr>)]\<rparr>"

lemma two_types_client:
  "p = P_OpenAI \<or> p = P_Anthropic \<Longrightarrow>
     client_new_inner sample_host two_types p (Some (Key_Secret ''sk-gateway'')) = Inr (sample_client p)"
  using sample_openai_client sample_anthropic_client
  by (auto simp: two_types_def client_new_inner_def openai_client_def anthropic_client_def bearer_client_def provider_base_url_def)

lemma sample_env_key:
  "provider_key_from_env (\<lambda>v. Some k) P_OpenAI = Some (Key_Secret k)" "provider_key_from_env (\<lambda>v. Some k) P_Anthropic = Some (Key_Secret k)"
  by (simp_all add: provider_key_from_env_def)

lemma two_types_parts [simp]:
  "cfg_routers two_types = [(R_Default, sample_router\<lparr>rc_load_balance := [(ET_Chat, Latency [P_OpenAI]), (ET_Image, Latency [P_Anthropic])]\<rparr>)]"
  "map fst (cfg_providers two_types) = [P_OpenAI, P_Anthropic]" "cfg_global two_types = \<lparr>mw_cache = None, mw_rate_limit = None\<rparr>"
  "rc_cache sample_router = None" "rc_rate_limit sample_router = RRL_None"
  "dc_api_keys_source (cfg_discover two_types) = PKS_Env"
  by (simp_all add: two_types_def sample_config_def base_config_def sample_router_def discover_config_default_def)

lemma two_types_start:
  "\<exists>m S r b1 b2. app_new sample_start two_types = Inr (m, S) \<and> bm_inner m = [(R_Default, r)] \<and>
     br_inner r = [(ET_Chat, b1), (ET_Image, b2)]"
  by (simp add: app_new_def build_service_stack_def build_app_state_def setup_cache_def meta_router_new_def router_new_def hbind_def hread_def hlift_def hmodify_def
      sample_start_def router_config_validate_def add_provider_keys_for_router_def router_rate_limit_def rate_limit_layer_per_router_def
      optional_layer_for_router_def cache_layer_for_router_def provider_balancer_new_def balancer_peak_ewma_def register_monitors_eq
      config_discovery_new_def discovery_new_def discover_factory_call_def dispatcher_new_def client_for_router_def get_rate_limit_tx_def new_direct_proxy_def new_without_mapper_def
      client_for_direct_proxy_def client_for_unified_api_def direct_proxies_new_def two_types_client SDK_def Let_def
      discover_provider_keys_def keys_from_env_def keys_from_env_direct_proxy_def balance_providers_def sample_env_key map_filter_simps
      add_rate_limit_monitor_def add_rate_limit_rx_def add_rate_limit_tx_def add_router_health_monitor_def)

section \<open>Properties\<close>

text \<open>C14. A router with several endpoint types is monitored for the last one only: of all its balancers, the one that
  is made last gets the changes of the two monitors, and the events of its services reach the rate-limit
  monitor; no monitor sends changes to an earlier balancer, and no task receives the events of its
  services.\<close>

theorem only_last_endpoint_monitored:
  assumes "app_new E cfg = Inr (m, S)" "distinct (map fst (cfg_routers cfg))" "distinct_types cfg"
    and "(rid, r) \<in> set (bm_inner m)" "br_inner r = bs @ [(et, b)]"
  shows "\<exists>g. monitor_tick (as_rate_limits S) = Inr g \<and>
    health_tx S rid = Some (balancer_rx (ly_service b)) \<and>
    (\<exists>mon rx. (mon, rx) \<in> set (rg_tasks g) \<and> pm_tx mon = balancer_rx (ly_service b) \<and>
      (\<forall>d \<in> balancer_services (ly_service b). sv_rate_limit_tx d = Some rx)) \<and>
    (\<forall>(et', b') \<in> set bs.
      (\<forall>rid'. health_tx S rid' \<noteq> Some (balancer_rx (ly_service b'))) \<and>
      (\<forall>(mon, rx) \<in> set (rg_tasks g). pm_tx mon \<noteq> balancer_rx (ly_service b') \<and>
        (\<forall>d \<in> balancer_services (ly_service b'). sv_rate_limit_tx d \<noteq> Some rx)))"
proof (rule app_new_channels[OF assms])
  fix L c e
  assume inv: "registry_inv S L" and last: "last_change L rid = Some c" "last_event L rid = Some e"
    and b: "made_as rid (ly_service b) (rid, c, e)"
    and earlier: "\<And>et' b'. (et', b') \<in> set bs \<Longrightarrow>
      \<exists>c' e'. (rid, c', e') \<in> set L \<and> made_as rid (ly_service b') (rid, c', e') \<and> c' \<noteq> c \<and> e' \<noteq> e"
  have views: "health_tx S = last_change L" "limit_tx S = last_change L" using inv by (auto simp: registry_inv_def)
  have deaf: "last_change L rid' \<noteq> Some c'" "last_event L rid' \<noteq> Some e'"
    if "(rid, c', e') \<in> set L" "c' \<noteq> c" "e' \<noteq> e" for rid' c' e'
    using that last last_change_Some same_change[OF inv] last_event_Some same_event[OF inv] by (metis option.inject)+
  obtain g where g: "monitor_tick (as_rate_limits S) = Inr g"
    and tasks: "\<And>mon rx. (mon, rx) \<in> set (rg_tasks g) \<longleftrightarrow>
      (\<exists>rid. map_of (rg_monitors (as_rate_limits S)) rid = Some mon \<and> last_event L rid = Some rx)"
    using first_tick[OF inv] by blast
  obtain mon where mon: "map_of (rg_monitors (as_rate_limits S)) rid = Some mon" "pm_tx mon = c"
    using last(1) views(2) by (metis limit_tx_def map_option_eq_Some)
  have mtx: "last_change L rid' = Some (pm_tx mon')" if "map_of (rg_monitors (as_rate_limits S)) rid' = Some mon'" for rid' mon'
    using that views(2) by (metis limit_tx_def option.simps(9))
  have "(mon, e) \<in> set (rg_tasks g)" using mon last(2) tasks by blast
  moreover have "pm_tx mon' \<noteq> c' \<and> rx \<noteq> e'"
    if "(rid, c', e') \<in> set L" "c' \<noteq> c" "e' \<noteq> e" "(mon', rx) \<in> set (rg_tasks g)" for c' e' mon' rx
    using that tasks mtx deaf by metis
  ultimately show ?thesis
    using g b mon(2) last(1) earlier deaf(1) unfolding views(1) made_as_def by (intro exI[of _ g]) fastforce
qed

theorem only_last_endpoint_monitored_witness:
  "\<exists>m S r b1 b2 g. app_new sample_start two_types = Inr (m, S) \<and> bm_inner m = [(R_Default, r)] \<and>
     br_inner r = [(ET_Chat, b1), (ET_Image, b2)] \<and> monitor_tick (as_rate_limits S) = Inr g \<and>
     health_tx S R_Default = Some (balancer_rx (ly_service b2)) \<and> health_tx S R_Default \<noteq> Some (balancer_rx (ly_service b1)) \<and>
     (\<forall>(mon, rx) \<in> set (rg_tasks g). pm_tx mon \<noteq> balancer_rx (ly_service b1))"
proof -
  obtain m S r b1 b2 where s: "app_new sample_start two_types = Inr (m, S)" "bm_inner m = [(R_Default, r)]"
    "br_inner r = [(ET_Chat, b1), (ET_Image, b2)]" using two_types_start by blast
  have "br_inner r = [(ET_Chat, b1)] @ [(ET_Image, b2)]" "(R_Default, r) \<in> set (bm_inner m)" using s by simp_all
  from only_last_endpoint_monitored[OF s(1) _ _ this(2,1)] s show ?thesis by (fastforce simp: distinct_types_def)
qed

text \<open>C21. What a start requires: the gateway only starts if every configured provider is one of the built-in ones,
  OpenAI is configured where there are routers, every router is valid, each of its providers is configured,
  and its balancers are all weighted or all by latency.\<close>

theorem started_configuration:
  assumes "app_new E cfg = Inr (m, S)" "distinct (map fst (cfg_routers cfg))"
  shows "(\<forall>p \<in> fst ` set (cfg_providers cfg). \<forall>n. p \<noteq> P_Named n) \<and>
    (\<forall>(rid, rc) \<in> set (cfg_routers cfg).
      router_config_validate (se_decimals E) rc = Inr () \<and> P_OpenAI \<in> fst ` set (cfg_providers cfg) \<and>
      (\<forall>(et, b) \<in> set (rc_load_balance rc). set (inner_providers b) \<subseteq> fst ` set (cfg_providers cfg)) \<and>
      ((\<forall>(et, b) \<in> set (rc_load_balance rc). \<exists>ts. b = Weighted ts) \<or>
       (\<forall>(et, b) \<in> set (rc_load_balance rc). \<exists>ps. b = Latency ps)))"
  by (rule start_requires[OF assms])

theorem started_configuration_witness:
  "\<exists>m S. app_new sample_start two_types = Inr (m, S) \<and> P_OpenAI \<in> fst ` set (cfg_providers two_types) \<and>
     (\<forall>p \<in> fst ` set (cfg_providers two_types). \<forall>n. p \<noteq> P_Named n)"
proof -
  obtain m S where s: "app_new sample_start two_types = Inr (m, S)" using two_types_start by blast
  show ?thesis using started_configuration[OF s] s by auto
qed

text \<open>The balancers of a router are not separate: whatever the endpoint type of a balancer is, it offers the
  providers of every endpoint type of the router.\<close>

theorem balancer_offers_every_endpoint:
  assumes "app_new E cfg = Inr (m, S)" "distinct (map fst (cfg_routers cfg))"
    and "(rid, rc) \<in> set (cfg_routers cfg)" "(rid, r) \<in> set (bm_inner m)" "(et, b) \<in> set (br_inner r)"
  shows "balancer_offers (ly_service b) =
    {(p, et'). \<exists>b'. (et', b') \<in> set (rc_load_balance rc) \<and> p \<in> set (inner_providers b')}"
  by (rule built_balancer_offers[OF assms])

theorem balancer_offers_every_endpoint_witness:
  "\<exists>m S r b1 b2. app_new sample_start two_types = Inr (m, S) \<and> bm_inner m = [(R_Default, r)] \<and>
     br_inner r = [(ET_Chat, b1), (ET_Image, b2)] \<and> (P_Anthropic, ET_Image) \<in> balancer_offers (ly_service b1)"
proof -
  obtain m S r b1 b2 where s: "app_new sample_start two_types = Inr (m, S)" "bm_inner m = [(R_Default, r)]"
    "br_inner r = [(ET_Chat, b1), (ET_Image, b2)]" using two_types_start by blast
  have rc: "(R_Default, snd (hd (cfg_routers two_types))) \<in> set (cfg_routers two_types)" by simp
  have "(P_Anthropic, ET_Image) \<in> balancer_offers (ly_service b1)"
    by (subst balancer_offers_every_endpoint[OF s(1) _ rc, of r ET_Chat b1]) (use s in auto)
  then show ?thesis using s by auto
qed

text \<open>What Router.thy keeps of what has been built.\<close>

definition abs_meta :: "'w built_meta \<Rightarrow> meta_router" where
  "abs_meta m = \<lparr>mr_inner = map (\<lambda>(rid, r). (rid, \<lparr>ro_inner = map fst (br_inner r)\<rparr>)) (bm_inner m),
     mr_direct_proxies = map fst (bm_direct_proxies m)\<rparr>"

text \<open>C22. What the start builds is the meta router of Router.thy: its routers with their endpoint types and its
  direct proxies are those of the configuration, and the unified API has a proxy for every provider.\<close>

theorem start_builds_meta_router:
  assumes "app_new E cfg = Inr (m, S)" "distinct (map fst (cfg_routers cfg))" "distinct_types cfg"
    and "distinct (map fst (cfg_providers cfg))"
  shows "abs_meta m = meta_from_config cfg \<and> map fst (bm_unified_api m) = map fst (cfg_providers cfg)"
proof (rule app_new_cases[OF assms(1)])
  fix S0
  assume routers: "routers_new E (map fst (cfg_routers cfg)) [] S0 = (Inr (bm_inner m), S)" and cfg: "as_config S0 = cfg"
    and direct: "direct_proxies_new (new_direct_proxy E) S = Inr (bm_unified_api m)"
      "direct_proxies_new (new_without_mapper E) S = Inr (bm_direct_proxies m)"
  note parts = routers_new_parts[OF routers, unfolded cfg]
  have keys: "map fst (bm_inner m) = map fst (cfg_routers cfg)"
    using parts[THEN conjunct2, THEN conjunct2, THEN conjunct2] assms(2) by simp
  have types: "map fst (br_inner r) = map fst (rc_load_balance rc)"
    if r: "(rid, r) \<in> set (bm_inner m)" and rc: "(rid, rc) \<in> set (cfg_routers cfg)" for rid r rc
  proof (rule built_router_cases[OF assms(1,2) rc r])
    fix layers S1 S2
    assume b: "balancers_new E rid rc layers (rc_load_balance rc) [] S1 = (Inr (br_inner r), S2)" and l: "\<And>p. ly_service (layers p) = p"
    have "distinct (map fst (rc_load_balance rc))" using assms(3) rc by (auto simp: distinct_types_def)
    then show ?thesis using balancers_new_parts[OF b l, THEN conjunct2, THEN conjunct2, THEN conjunct2] by simp
  qed
  have "map (\<lambda>(rid, r). (rid, \<lparr>ro_inner = map fst (br_inner r)\<rparr>)) (bm_inner m) =
      map (\<lambda>(rid, rc). (rid, router_of_config rc)) (cfg_routers cfg)"
  proof (rule nth_equalityI)
    show len: "length (map (\<lambda>(rid, r). (rid, \<lparr>ro_inner = map fst (br_inner r)\<rparr>)) (bm_inner m)) =
        length (map (\<lambda>(rid, rc). (rid, router_of_config rc)) (cfg_routers cfg))"
      using keys by (metis length_map)
    fix i assume "i < length (map (\<lambda>(rid, r). (rid, \<lparr>ro_inner = map fst (br_inner r)\<rparr>)) (bm_inner m))"
    then have i: "i < length (bm_inner m)" "i < length (cfg_routers cfg)" using len by simp_all
    have fst: "fst (bm_inner m ! i) = fst (cfg_routers cfg ! i)" using keys i by (metis nth_map)
    have "(fst (bm_inner m ! i), snd (bm_inner m ! i)) \<in> set (bm_inner m)"
      "(fst (bm_inner m ! i), snd (cfg_routers cfg ! i)) \<in> set (cfg_routers cfg)"
      using nth_mem[OF i(1)] nth_mem[OF i(2)] by (simp, simp add: fst)
    then have "map fst (br_inner (snd (bm_inner m ! i))) = map fst (rc_load_balance (snd (cfg_routers cfg ! i)))" by (rule types)
    then show "map (\<lambda>(rid, r). (rid, \<lparr>ro_inner = map fst (br_inner r)\<rparr>)) (bm_inner m) ! i =
        map (\<lambda>(rid, rc). (rid, router_of_config rc)) (cfg_routers cfg) ! i"
      using i fst by (simp add: case_prod_unfold router_of_config_def)
  qed
  moreover have "map fst (bm_unified_api m) = map fst (cfg_providers cfg)" "map fst (bm_direct_proxies m) = map fst (cfg_providers cfg)"
    using direct_proxies_loop_Ok[OF direct(1)[unfolded direct_proxies_new_def]]
      direct_proxies_loop_Ok[OF direct(2)[unfolded direct_proxies_new_def]] parts[THEN conjunct1] assms(4) by simp_all
  ultimately show ?thesis by (simp add: abs_meta_def meta_from_config_def)
qed

theorem start_builds_meta_router_witness:
  "\<exists>m S. app_new sample_start two_types = Inr (m, S) \<and> abs_meta m = meta_from_config two_types"
proof -
  obtain m S where s: "app_new sample_start two_types = Inr (m, S)" using two_types_start by blast
  show ?thesis using start_builds_meta_router[OF s] s by (auto simp: distinct_types_def)
qed

text \<open>The validation accepts configurations that never start: a router whose balancers are of both kinds, and a
  configured provider that is not built in.\<close>

definition mixed_kinds :: "nat config" where
  "mixed_kinds = sample_config\<lparr>cfg_routers := [(R_Default, sample_router\<lparr>rc_load_balance :=
     [(ET_Chat, Latency [P_OpenAI]), (ET_Image, Weighted [\<lparr>bt_provider = P_OpenAI, bt_weight = 100\<rparr>])]\<rparr>)]\<rparr>"

definition named_provider :: "nat config" where
  "named_provider = sample_config\<lparr>cfg_providers := cfg_providers sample_config @
     [(P_Named ''mistral'', \<lparr>gp_models = [], gp_base_url = ''https://api.mistral.ai'', gp_version = None\<rparr>)]\<rparr>"

lemma validated_but_not_started:
  "config_validate percent_ops mixed_kinds = Inr ()" "config_validate percent_ops named_provider = Inr ()"
  "app_new E mixed_kinds \<noteq> Inr x" "app_new E named_provider \<noteq> Inr x"
proof -
  note defs = config_validate_def sample_config_def router_config_validate_def percent_ops_def sample_router_def
    router_id_matches_def router_id_char_def validate_model_mappings_def validate_mapping_models_exist_def
    mapping_models_exist_def validate_router_mappings_def balance_providers_def index_map_def can_map_model_def any_offered_def
  show "config_validate percent_ops mixed_kinds = Inr ()" by (simp add: mixed_kinds_def defs)
  show "config_validate percent_ops named_provider = Inr ()" by (simp add: named_provider_def defs)
  show "app_new E mixed_kinds \<noteq> Inr x"
    using start_requires[of E mixed_kinds "fst x" "snd x"] by (auto simp: mixed_kinds_def)
  show "app_new E named_provider \<noteq> Inr x"
    using start_requires[of E named_provider "fst x" "snd x"] by (auto simp: named_provider_def sample_config_def)
qed

end
