(* ===== verification/Services.thy ===== *)
theory Services
  imports Startup Control_Plane "HOL-Library.Multiset"
begin

text \<open>
  The services of the running gateway (\<open>main.rs\<close>, \<open>utils/meltdown.rs\<close>, the \<open>run\<close> of every service): which are
  started, how one of them that ends takes the others with it, and what the process answers. The crate
  meltdown is modelled by its documentation: \<open>next\<close> gives the results of the services as they end, and
  \<open>trigger\<close> tells all of them to stop. The loops of the two monitors are run on what Startup.thy builds.
\<close>

section \<open>The services\<close>

datatype gateway_service =
    GS_Signals
  | GS_ControlPlane
  | GS_Database
  | GS_Gateway
  | GS_HealthMonitor
  | GS_RateLimitMonitor
  | GS_SystemMetrics
  | GS_Cleanup

fun service_tag :: "gateway_service \<Rightarrow> string" where
  "service_tag GS_Signals = ''shutdown-signals''"
| "service_tag GS_ControlPlane = ''control-plane-client''"
| "service_tag GS_Database = ''database-listener''"
| "service_tag GS_Gateway = ''gateway''"
| "service_tag GS_HealthMonitor = ''provider-health-monitor''"
| "service_tag GS_RateLimitMonitor = ''provider-rate-limit-monitor''"
| "service_tag GS_SystemMetrics = ''system-metrics''"
| "service_tag GS_Cleanup = ''rate-limiting-cleanup''"

text \<open>Which branch of its \<open>select!\<close> a service takes: its own work has ended, or it is told to stop.\<close>

datatype branch = Work "(runtime_error, unit) result" | Stop

text \<open>\<open>run\<close> of every service: its result, and whether it triggers the token itself. Four services log what their
  work has answered and trigger the token.\<close>

fun watched_run :: "branch \<Rightarrow> (runtime_error, unit) result \<times> bool" where
  "watched_run (Work r) = (Inr (), True)"
| "watched_run Stop = (Inr (), False)"

definition control_plane_run :: "branch \<Rightarrow> (runtime_error, unit) result \<times> bool" where
  "control_plane_run br = watched_run br"

definition database_listener_run :: "branch \<Rightarrow> (runtime_error, unit) result \<times> bool" where
  "database_listener_run br = watched_run br"

definition health_monitor_run :: "branch \<Rightarrow> (runtime_error, unit) result \<times> bool" where
  "health_monitor_run br = watched_run br"

definition rate_limit_monitor_run :: "branch \<Rightarrow> (runtime_error, unit) result \<times> bool" where
  "rate_limit_monitor_run br = watched_run br"

definition wait_for_shutdown_signals :: "branch \<Rightarrow> (runtime_error, unit) result \<times> bool" where
  "wait_for_shutdown_signals br = (Inr (), False)"

fun gateway_run :: "branch \<Rightarrow> (runtime_error, unit) result \<times> bool" where
  "gateway_run (Work r) = (r, False)"
| "gateway_run Stop = (Inr (), False)"

definition system_metrics_run :: "branch \<Rightarrow> (runtime_error, unit) result \<times> bool" where
  "system_metrics_run br = (Inr (), True)"

fun cleanup_run :: "branch \<Rightarrow> (runtime_error, unit) result \<times> bool" where
  "cleanup_run (Work r) = (r, False)"
| "cleanup_run Stop = (Inr (), False)"

fun service_run :: "gateway_service \<Rightarrow> branch \<Rightarrow> (runtime_error, unit) result \<times> bool" where
  "service_run GS_Signals br = wait_for_shutdown_signals br"
| "service_run GS_ControlPlane br = control_plane_run br"
| "service_run GS_Database br = database_listener_run br"
| "service_run GS_Gateway br = gateway_run br"
| "service_run GS_HealthMonitor br = health_monitor_run br"
| "service_run GS_RateLimitMonitor br = rate_limit_monitor_run br"
| "service_run GS_SystemMetrics br = system_metrics_run br"
| "service_run GS_Cleanup br = cleanup_run br"

text \<open>\<open>run_service\<close> of the database listener, on what the connection, the subscription and the calls of \<open>recv\<close>
  answer; \<open>None\<close> is that it waits for the next notification. A notification is only logged.\<close>

fun receive_notifications :: "(string, string) result list \<Rightarrow> (runtime_error, unit) result option" where
  "receive_notifications [] = None"
| "receive_notifications (Inr notification # rest) = receive_notifications rest"
| "receive_notifications (Inl e # rest) = Some (Inr ())"

definition run_service ::
  "(string, unit) result \<Rightarrow> (string, unit) result \<Rightarrow> (string, string) result list \<Rightarrow>
     (runtime_error, unit) result option" where
  "run_service connect listen received =
     (case rbind (map_err (\<lambda>_. RE_Internal Internal) connect) (\<lambda>_. map_err (\<lambda>_. RE_Internal Internal) listen) of
        Inl e \<Rightarrow> Some (Inl e)
      | Inr _ \<Rightarrow> receive_notifications received)"

definition registered_services :: "'w config \<Rightarrow> gateway_service list" where
  "registered_services cfg =
     [GS_Signals] @
     (if is_auth_enabled (cfg_helicone cfg) then [GS_ControlPlane] else []) @
     (if cfg_deployment_target cfg = DT_Cloud then [GS_Database] else []) @
     [GS_Gateway, GS_HealthMonitor, GS_RateLimitMonitor, GS_SystemMetrics] @
     (if mw_rate_limit (cfg_global cfg) \<noteq> None then [GS_Cleanup] else [])"

section \<open>\<open>run_app\<close>\<close>

record supervisor =
  sp_running :: "gateway_service list"
  sp_token :: bool
  sp_shutting_down :: bool
  sp_ended :: "(gateway_service \<times> (runtime_error, unit) result) list"

definition supervisor_new :: "gateway_service list \<Rightarrow> supervisor" where
  "supervisor_new services = \<lparr>sp_running = services, sp_token = False, sp_shutting_down = False, sp_ended = []\<rparr>"

text \<open>The body of the loop over \<open>meltdown.next()\<close>, for a service that has ended.\<close>

definition service_ended :: "gateway_service \<Rightarrow> branch \<Rightarrow> supervisor \<Rightarrow> supervisor" where
  "service_ended s br P =
     (case service_run s br of (result, triggers) \<Rightarrow>
        \<lparr>sp_running = remove1 s (sp_running P),
         sp_token = (sp_token P \<or> triggers \<or> \<not> sp_shutting_down P),
         sp_shutting_down = True,
         sp_ended = sp_ended P @ [(s, result)]\<rparr>)"

inductive sp_step :: "supervisor \<Rightarrow> supervisor \<Rightarrow> bool" where
  sp_work: "s \<in> set (sp_running P) \<Longrightarrow> sp_step P (service_ended s (Work r) P)"
| sp_stop: "s \<in> set (sp_running P) \<Longrightarrow> sp_token P \<Longrightarrow> sp_step P (service_ended s Stop P)"

text \<open>\<open>run_app\<close> returns when \<open>next\<close> gives nothing more; what the services have returned is only logged.\<close>

definition run_app_result :: "supervisor \<Rightarrow> (runtime_error, unit) result option" where
  "run_app_result P = (if sp_running P = [] then Some (Inr ()) else None)"

text \<open>The beginning of \<open>run_app\<close>; \<open>connect\<close> and \<open>database\<close> are the outcomes of the two connections.\<close>

definition run_app_start ::
  "'w start_env \<Rightarrow> (init_error, unit) result \<Rightarrow> (init_error, unit) result \<Rightarrow> 'w config \<Rightarrow>
     (runtime_error abort, supervisor) result" where
  "run_app_start E connect database cfg =
     rbind (map_err (lift_err RE_Init) (app_new E cfg)) (\<lambda>_.
     rbind (if is_auth_enabled (cfg_helicone cfg) then map_err (\<lambda>e. Failed (RE_Init e)) connect else Inr ()) (\<lambda>_.
     rbind (if cfg_deployment_target cfg = DT_Cloud then map_err (\<lambda>e. Failed (RE_Init e)) database else Inr ()) (\<lambda>_.
       Inr (supervisor_new (registered_services cfg)))))"

section \<open>The loops of the monitors\<close>

datatype ('w, 's) provider_health =
    PH_Weighted "'w balance_config" "(weighted_key, 's) health_monitor"
  | PH_P2C "'w balance_config" "(key, 's) health_monitor"

fun check_monitor ::
  "'w decimal_ops \<Rightarrow> 's mk_dispatcher \<Rightarrow> health_fun \<Rightarrow> ('w, 's) provider_health \<Rightarrow>
     (runtime_error, ('w, 's) provider_health) result" where
  "check_monitor D mk health (PH_Weighted bc m) = rbind (check_weighted_monitor D mk health bc m) (\<lambda>m'. Inr (PH_Weighted bc m'))"
| "check_monitor D mk health (PH_P2C bc m) = rbind (check_p2c_monitor mk health bc m) (\<lambda>m'. Inr (PH_P2C bc m'))"

text \<open>One tick of \<open>HealthMonitor::run_forever\<close>: \<open>try_join_all\<close> of the checks of all routers. \<open>mk\<close> makes the
  dispatchers of a router.\<close>

fun check_monitors ::
  "'w decimal_ops \<Rightarrow> (router_id \<Rightarrow> 's mk_dispatcher) \<Rightarrow> health_fun \<Rightarrow> (router_id \<times> ('w, 's) provider_health) list \<Rightarrow>
     (runtime_error, (router_id \<times> ('w, 's) provider_health) list) result" where
  "check_monitors D mk health [] = Inr []"
| "check_monitors D mk health ((rid, m) # ms) =
     rbind (check_monitor D (mk rid) health m) (\<lambda>m'.
     rbind (check_monitors D mk health ms) (\<lambda>ms'. Inr ((rid, m') # ms')))"

text \<open>The loop for as many ticks as there are health functions; it only ends with an error.\<close>

fun health_run_forever ::
  "'w decimal_ops \<Rightarrow> (router_id \<Rightarrow> 's mk_dispatcher) \<Rightarrow> health_fun list \<Rightarrow> (router_id \<times> ('w, 's) provider_health) list \<Rightarrow>
     (runtime_error, (router_id \<times> ('w, 's) provider_health) list) result" where
  "health_run_forever D mk [] ms = Inr ms"
| "health_run_forever D mk (health # rest) ms =
     rbind (check_monitors D mk health ms) (\<lambda>ms'. health_run_forever D mk rest ms')"

definition provider_health_new :: "'w provider_monitor \<Rightarrow> ('w, 's) provider_health" where
  "provider_health_new mon =
     (case pm_kind mon of
        MK_Weighted \<Rightarrow> PH_Weighted (rc_load_balance (pm_router_config mon)) \<lparr>hm_unhealthy = {}, hm_sent = []\<rparr>
      | MK_P2C \<Rightarrow> PH_P2C (rc_load_balance (pm_router_config mon)) \<lparr>hm_unhealthy = {}, hm_sent = []\<rparr>)"

text \<open>\<open>RateLimitMonitor::run_forever\<close>, when a task of it has ended: \<open>None\<close> is that it goes on.\<close>

definition rate_limit_joined :: "(runtime_error abort, unit) result \<Rightarrow> (runtime_error, unit) result option" where
  "rate_limit_joined res = map_option Inl (monitor_joined res)"

section \<open>The cleanup of the limiters\<close>

text \<open>The limiters whose old keys a tick of the cleanup drops.\<close>

definition cleaned_limiters :: "'w app_state \<Rightarrow> governor_config list" where
  "cleaned_limiters S =
     (case as_global_rate_limit S of Some g \<Rightarrow> [g] | None \<Rightarrow> []) @ map snd (as_router_rate_limits S)"

section \<open>Lemmas\<close>

text \<open>The supervisor: every step ends one service, and after the first one all are told to stop.\<close>

definition sp_inv :: "gateway_service list \<Rightarrow> supervisor \<Rightarrow> bool" where
  "sp_inv services P \<longleftrightarrow>
     (sp_ended P \<noteq> [] \<longrightarrow> sp_token P) \<and> (sp_shutting_down P \<longrightarrow> sp_token P) \<and>
     mset (sp_running P) + mset (map fst (sp_ended P)) = mset services"

lemma service_ended_simps [simp]:
  "sp_running (service_ended s br P) = remove1 s (sp_running P)"
  "sp_token (service_ended s br P) \<longleftrightarrow> sp_token P \<or> snd (service_run s br) \<or> \<not> sp_shutting_down P"
  "sp_shutting_down (service_ended s br P)" "sp_ended (service_ended s br P) = sp_ended P @ [(s, fst (service_run s br))]"
  by (simp_all add: service_ended_def case_prod_unfold)

lemma sp_inv_ended:
  assumes "sp_inv services P" "s \<in> set (sp_running P)"
  shows "sp_inv services (service_ended s br P)"
proof -
  obtain M where "mset (sp_running P) = add_mset s M" using assms(2) by (metis in_multiset_in_set multi_member_split)
  then show ?thesis using assms(1) by (auto simp: sp_inv_def)
qed

lemma sp_inv_step: "sp_step P P' \<Longrightarrow> sp_inv services P \<Longrightarrow> sp_inv services P'"
  by (induction rule: sp_step.induct) (simp_all add: sp_inv_ended)

lemma sp_inv_reachable: "sp_step\<^sup>*\<^sup>* (supervisor_new services) P \<Longrightarrow> sp_inv services P"
  by (induction rule: rtranclp_induct) (auto simp: sp_inv_step, simp add: sp_inv_def supervisor_new_def)

lemma sp_step_shorter: "sp_step P P' \<Longrightarrow> Suc (length (sp_running P')) = length (sp_running P)"
  by (erule sp_step.cases) (auto simp: length_remove1 dest: length_pos_if_in_set)

lemma stop_all:
  assumes "sp_inv services P" "sp_token P"
  shows "\<exists>P'. sp_step\<^sup>*\<^sup>* P P' \<and> sp_running P' = [] \<and> (\<exists>rest. sp_ended P' = sp_ended P @ rest)"
  using assms
proof (induction "length (sp_running P)" arbitrary: P)
  case 0
  then show ?case by (intro exI[of _ P]) simp
next
  case (Suc n)
  then obtain s where s: "s \<in> set (sp_running P)" by (cases "sp_running P") auto
  let ?P = "service_ended s Stop P"
  have step: "sp_step P ?P" using sp_stop[OF s] Suc.prems(2) by simp
  have "n = length (sp_running ?P)" "sp_token ?P" using Suc.hyps(2) Suc.prems(2) s by (simp_all add: length_remove1)
  then obtain P' rest where P': "sp_step\<^sup>*\<^sup>* ?P P'" "sp_running P' = []" "sp_ended P' = sp_ended ?P @ rest"
    using Suc.hyps(1)[OF _ sp_inv_ended[OF Suc.prems(1) s]] by blast
  show ?case
    by (rule exI[of _ P']) (use P' step in \<open>auto intro: converse_rtranclp_into_rtranclp\<close>)
qed

text \<open>The checks of the health monitor succeed where the kinds, the weights and the dispatchers are right.\<close>

lemma check_key_total: "mk p = Inr d \<Longrightarrow> \<exists>m'. check_key mk k p h m = Inr m'"
  by (simp add: check_key_def Let_def)

lemma check_p2c_providers_total:
  assumes "\<And>p. p \<in> set ps \<Longrightarrow> \<exists>d. mk p = Inr d" "\<And>p. \<exists>b. health p = Inr b"
  shows "\<exists>m'. check_p2c_providers mk health et ps m = Inr m'"
  using assms(1)
proof (induction ps arbitrary: m)
  case (Cons p ps)
  obtain d b where "mk p = Inr d" "health p = Inr b" using Cons.prems[of p] assms(2)[of p] by auto
  moreover obtain m1 where "check_key mk \<lparr>k_provider = p, k_endpoint_type = et\<rparr> p b m = Inr m1"
    using check_key_total[where mk = mk and p = p and d = d and k = "\<lparr>k_provider = p, k_endpoint_type = et\<rparr>" and h = b and m = m, OF \<open>mk p = Inr d\<close>] by blast
  ultimately show ?case using Cons.IH[of m1] Cons.prems by auto
qed simp

lemma check_p2c_monitor_total:
  assumes "\<And>et b p. (et, b) \<in> set bc \<Longrightarrow> p \<in> set (inner_providers b) \<Longrightarrow> \<exists>d. mk p = Inr d" "\<And>p. \<exists>b. health p = Inr b"
    and "\<And>et b. (et, b) \<in> set bc \<Longrightarrow> \<exists>ps. b = Latency ps"
  shows "\<exists>m'. check_p2c_monitor mk health bc m = Inr m'"
  using assms(1,3)
proof (induction bc arbitrary: m)
  case (Cons x bc)
  obtain et ps where x: "x = (et, Latency ps)" using Cons.prems(2) by (cases x) fastforce
  obtain m1 where "check_p2c_providers mk health et ps m = Inr m1"
    using check_p2c_providers_total[of ps mk health et m] assms(2) Cons.prems(1)[of et "Latency ps"] by (auto simp: x)
  moreover obtain m2 where "check_p2c_monitor mk health bc m1 = Inr m2"
    using Cons.IH[of m1] Cons.prems by fastforce
  ultimately show ?case by (simp add: x)
qed simp

lemma check_weighted_targets_total:
  assumes "\<And>t. t \<in> set ts \<Longrightarrow> \<exists>d. mk (bt_provider t) = Inr d" "\<And>t. t \<in> set ts \<Longrightarrow> target_weight D t \<noteq> None"
    and "\<And>p. \<exists>b. health p = Inr b"
  shows "\<exists>m'. check_weighted_targets D mk health et ts m = Inr m'"
  using assms(1,2)
proof (induction ts arbitrary: m)
  case (Cons t ts)
  obtain d w b where t: "mk (bt_provider t) = Inr d" "target_weight D t = Some w" "health (bt_provider t) = Inr b"
    using Cons.prems assms(3)[of "bt_provider t"] by fastforce
  moreover obtain m1 where "check_key mk (target_key et w t) (bt_provider t) b m = Inr m1"
    using check_key_total[where mk = mk and p = "bt_provider t" and d = d and k = "target_key et w t" and h = b and m = m, OF t(1)] by blast
  ultimately show ?case using Cons.IH[of m1] Cons.prems by auto
qed simp

lemma check_weighted_monitor_total:
  assumes "\<And>et b p. (et, b) \<in> set bc \<Longrightarrow> p \<in> set (inner_providers b) \<Longrightarrow> \<exists>d. mk p = Inr d" "\<And>p. \<exists>b. health p = Inr b"
    and "\<And>et b. (et, b) \<in> set bc \<Longrightarrow> \<exists>ts. b = Weighted ts \<and> (\<forall>t \<in> set ts. target_weight D t \<noteq> None)"
  shows "\<exists>m'. check_weighted_monitor D mk health bc m = Inr m'"
  using assms(1,3)
proof (induction bc arbitrary: m)
  case (Cons x bc)
  obtain et ts where x: "x = (et, Weighted ts)" "\<forall>t \<in> set ts. target_weight D t \<noteq> None"
    using Cons.prems(2) by (cases x) fastforce
  obtain m1 where "check_weighted_targets D mk health et ts m = Inr m1"
    using check_weighted_targets_total[of ts mk D health et m] assms(2) Cons.prems(1)[of et "Weighted ts"] x by (auto simp: x)
  moreover obtain m2 where "check_weighted_monitor D mk health bc m1 = Inr m2"
    using Cons.IH[of m1] Cons.prems by fastforce
  ultimately show ?case by (simp add: x)
qed simp

lemma check_health_total: "(\<And>e. reg e \<noteq> None) \<Longrightarrow> \<exists>b. check_health D mc reg now p = Inr b"
  unfolding check_health_def by (cases "monitor_grace_period mc") (simp add: check_endpoints_all)

text \<open>A monitor whose checks cannot fail: the balancers are of its kind, every weight is one, and every provider has
  a dispatcher.\<close>

definition config_of_kind :: "'w decimal_ops \<Rightarrow> monitor_kind \<Rightarrow> 'w balance_config \<Rightarrow> bool" where
  "config_of_kind D kind bc \<longleftrightarrow>
     (\<forall>et b. (et, b) \<in> set bc \<longrightarrow>
       (case kind of
          MK_Weighted \<Rightarrow> \<exists>ts. b = Weighted ts \<and> (\<forall>t \<in> set ts. target_weight D t \<noteq> None)
        | MK_P2C \<Rightarrow> \<exists>ps. b = Latency ps))"

fun health_ready :: "'w decimal_ops \<Rightarrow> 's mk_dispatcher \<Rightarrow> ('w, 's) provider_health \<Rightarrow> bool" where
  "health_ready D mk (PH_Weighted bc m) \<longleftrightarrow>
     config_of_kind D MK_Weighted bc \<and> (\<forall>et b p. (et, b) \<in> set bc \<longrightarrow> p \<in> set (inner_providers b) \<longrightarrow> (\<exists>d. mk p = Inr d))"
| "health_ready D mk (PH_P2C bc m) \<longleftrightarrow>
     config_of_kind D MK_P2C bc \<and> (\<forall>et b p. (et, b) \<in> set bc \<longrightarrow> p \<in> set (inner_providers b) \<longrightarrow> (\<exists>d. mk p = Inr d))"

lemma check_monitor_ready:
  assumes "health_ready D mk ph" "\<And>p. \<exists>b. health p = Inr b"
  shows "\<exists>ph'. check_monitor D mk health ph = Inr ph' \<and> health_ready D mk ph'"
proof (cases ph)
  case (PH_Weighted bc m)
  have "\<exists>m'. check_weighted_monitor D mk health bc m = Inr m'"
    by (rule check_weighted_monitor_total) (use assms in \<open>auto simp: PH_Weighted config_of_kind_def\<close>)
  then show ?thesis using assms(1) by (auto simp: PH_Weighted)
next
  case (PH_P2C bc m)
  have "\<exists>m'. check_p2c_monitor mk health bc m = Inr m'"
    by (rule check_p2c_monitor_total) (use assms in \<open>auto simp: PH_P2C config_of_kind_def\<close>)
  then show ?thesis using assms(1) by (auto simp: PH_P2C)
qed

definition all_ready :: "'w decimal_ops \<Rightarrow> (router_id \<Rightarrow> 's mk_dispatcher) \<Rightarrow> (router_id \<times> ('w, 's) provider_health) list \<Rightarrow> bool" where
  "all_ready D mk ms \<longleftrightarrow> (\<forall>rid ph. (rid, ph) \<in> set ms \<longrightarrow> health_ready D (mk rid) ph)"

lemma check_monitors_ready:
  assumes "all_ready D mk ms" "\<And>p. \<exists>b. health p = Inr b"
  shows "\<exists>ms'. check_monitors D mk health ms = Inr ms' \<and> all_ready D mk ms' \<and> map fst ms' = map fst ms"
  using assms(1)
proof (induction ms)
  case (Cons x ms)
  obtain rid ph where x: "x = (rid, ph)" by (cases x)
  obtain ph' where ph': "check_monitor D (mk rid) health ph = Inr ph'" "health_ready D (mk rid) ph'"
    using check_monitor_ready[of D "mk rid" ph health] Cons.prems assms(2) by (auto simp: all_ready_def x)
  obtain ms' where "check_monitors D mk health ms = Inr ms'" "all_ready D mk ms'" "map fst ms' = map fst ms"
    using Cons.IH Cons.prems by (auto simp: all_ready_def)
  then show ?case using ph' by (auto simp: x all_ready_def)
qed (simp add: all_ready_def)

lemma health_run_ready:
  assumes "all_ready D mk ms" "\<And>h p. h \<in> set healths \<Longrightarrow> \<exists>b. h p = Inr b"
  shows "\<exists>ms'. health_run_forever D mk healths ms = Inr ms' \<and> map fst ms' = map fst ms"
  using assms
proof (induction healths arbitrary: ms)
  case (Cons h hs)
  obtain ms1 where "check_monitors D mk h ms = Inr ms1" "all_ready D mk ms1" "map fst ms1 = map fst ms"
    using check_monitors_ready[OF Cons.prems(1), of h] Cons.prems(2)[of h] by auto
  then show ?case using Cons.IH[of ms1] Cons.prems(2) by auto
qed simp

text \<open>What the start keeps for the monitors: the keys of a router are those of its configuration, and a registered
  monitor has the configuration of its router, and what its balancer needed.\<close>

definition monitor_ready :: "'w start_env \<Rightarrow> 'w app_state \<Rightarrow> router_id \<Rightarrow> 'w provider_monitor \<Rightarrow> bool" where
  "monitor_ready E S rid mon \<longleftrightarrow>
     (\<forall>et b p. (et, b) \<in> set (rc_load_balance (pm_router_config mon)) \<longrightarrow> p \<in> set (inner_providers b) \<longrightarrow>
       (\<exists>d. dispatcher_new E S rid (pm_router_config mon) p = Inr d)) \<and>
     (pm_kind mon = MK_Weighted \<longrightarrow> config_of_kind (se_decimals E) MK_Weighted (rc_load_balance (pm_router_config mon))) \<and>
     (pm_kind mon = MK_P2C \<longrightarrow> (\<exists>et ps. (et, Latency ps) \<in> set (rc_load_balance (pm_router_config mon))))"

definition monitors_inv :: "'w start_env \<Rightarrow> 'w config \<Rightarrow> 'w app_state \<Rightarrow> bool" where
  "monitors_inv E cfg S \<longleftrightarrow>
     as_config S = cfg \<and>
     (\<forall>rid keys. as_provider_keys S rid = Some keys \<longrightarrow>
       (\<exists>rc. map_of (cfg_routers cfg) rid = Some rc \<and> keys = discover_provider_keys (se_env E) (cfg_discover cfg) rc)) \<and>
     (\<forall>rid mon. (rid, mon) \<in> set (as_health_monitors S) \<longrightarrow>
       map_of (cfg_routers cfg) rid = Some (pm_router_config mon) \<and> monitor_ready E S rid mon)"

lemma dispatcher_new_keeps:
  assumes "dispatcher_new E S rid rc p = Inr d" "as_config S' = as_config S"
    and "as_provider_keys S rid = None \<or> as_provider_keys S' rid = as_provider_keys S rid"
    and "map_of (as_rate_limit_senders S) rid \<noteq> None \<longrightarrow> map_of (as_rate_limit_senders S') rid \<noteq> None"
  shows "\<exists>d'. dispatcher_new E S' rid rc p = Inr d'"
  using assms by (auto simp: dispatcher_new_def client_for_router_def get_rate_limit_tx_def split: if_splits)

lemma monitor_ready_keeps:
  assumes "monitor_ready E S rid mon" "as_config S' = as_config S"
    and "as_provider_keys S rid = None \<or> as_provider_keys S' rid = as_provider_keys S rid"
    and "map_of (as_rate_limit_senders S) rid \<noteq> None \<longrightarrow> map_of (as_rate_limit_senders S') rid \<noteq> None"
  shows "monitor_ready E S' rid mon"
  using assms dispatcher_new_keeps unfolding monitor_ready_def by metis

lemma register_monitors_state:
  assumes "register_monitors kind rid rc S = (Inr c, S')"
  shows "as_config S' = as_config S" "as_provider_keys S' = as_provider_keys S"
    "as_health_monitors S' = assoc_insert rid
       \<lparr>pm_kind = kind, pm_tx = c, pm_router_id = rid, pm_router_config = rc\<rparr> (as_health_monitors S)"
    "map_of (as_rate_limit_senders S') = (map_of (as_rate_limit_senders S))(rid \<mapsto> Suc c)"
  using assms
  by (auto simp: register_monitors_eq add_rate_limit_monitor_def add_rate_limit_rx_def add_rate_limit_tx_def
      add_router_health_monitor_def fun_eq_iff)

lemma provider_balancer_new_monitors:
  assumes "provider_balancer_new E rid rc b S = (Inr p, S')" "monitors_inv E cfg S"
    and "map_of (cfg_routers cfg) rid = Some rc" "(et, b) \<in> set (rc_load_balance rc)"
  shows "monitors_inv E cfg S'"
proof -
  obtain kind c where r: "register_monitors kind rid rc S = (Inr c, S')" and kind: "kind = MK_P2C \<longrightarrow> (\<exists>ps. b = Latency ps)"
    and weighted: "kind = MK_Weighted \<longrightarrow> config_of_kind (se_decimals E) MK_Weighted (rc_load_balance rc)"
    and made: "\<And>et b q. (et, b) \<in> set (rc_load_balance rc) \<Longrightarrow> q \<in> set (inner_providers b) \<Longrightarrow>
      \<exists>d. dispatcher_new E S' rid rc q = Inr d"
  proof (rule provider_balancer_new_cases[OF assms(1)])
    fix ts c m
    assume w: "register_monitors MK_Weighted rid rc S = (Inr c, S')"
      "weighted_services (se_decimals E) (dispatcher_new E S' rid rc) (rc_load_balance rc) [] = Inr m"
    show thesis
      by (rule that[OF w(1)])
         (use weighted_services_keys[OF w(2)] weighted_services_all[OF w(2)] in \<open>fastforce simp: config_of_kind_def\<close>)+
  next
    fix ps c d m
    assume w: "b = Latency ps" "register_monitors MK_P2C rid rc S = (Inr c, S')"
      "discovery_services (dispatcher_new E S' rid rc) (rc_load_balance rc) [] = Inr m"
    show thesis
      by (rule that[OF w(2)]) (use w(1) discovery_services_all[OF w(3)] in auto)
  qed
  note s = register_monitors_state[OF r]
  let ?mon = "\<lparr>pm_kind = kind, pm_tx = c, pm_router_id = rid, pm_router_config = rc\<rparr>"
  have new: "monitor_ready E S' rid ?mon"
    using made kind weighted assms(4) unfolding monitor_ready_def by auto
  have old: "monitor_ready E S' rid' mon'" if "(rid', mon') \<in> set (as_health_monitors S)" for rid' mon'
    by (rule monitor_ready_keeps[of E S]) (use assms(2) that s in \<open>auto simp: monitors_inv_def\<close>)
  show ?thesis
    using assms(2,3) new old set_assoc_insert[of rid ?mon "as_health_monitors S"] unfolding monitors_inv_def s by auto
qed

lemma balancers_new_monitors:
  assumes "balancers_new E rid rc layers bc inner S = (Inr inner', S')" "monitors_inv E cfg S"
    and "map_of (cfg_routers cfg) rid = Some rc" "set bc \<subseteq> set (rc_load_balance rc)"
  shows "monitors_inv E cfg S'"
  using assms
proof (induction bc arbitrary: inner S)
  case (Cons x bc)
  obtain et b where x: "x = (et, b)" by (cases x)
  obtain p S1 where p: "provider_balancer_new E rid rc b S = (Inr p, S1)"
    "balancers_new E rid rc layers bc (assoc_insert et (layers p) inner) S1 = (Inr inner', S')"
    using Cons.prems(1) by (auto simp: x)
  have "monitors_inv E cfg S1"
    by (rule provider_balancer_new_monitors[OF p(1) Cons.prems(2,3), of et]) (use Cons.prems(4) x in auto)
  then show ?case using Cons.IH[OF p(2)] Cons.prems(3,4) by auto
qed simp

lemma router_new_monitors:
  assumes "router_new E rid S = (Inr r, S')" "monitors_inv E cfg S"
  shows "monitors_inv E cfg S'"
proof -
  obtain rc keys l layers S0 S1 inner where rc: "map_of (cfg_routers (as_config S)) rid = Some rc"
    and keys: "add_provider_keys_for_router E rid rc S = (Inr keys, S0)"
    and rl: "router_rate_limit E rid rc S0 = (Inr l, S1)"
    and inner: "balancers_new E rid rc layers (rc_load_balance rc) [] S1 = (Inr inner, S')"
    using assms(1) by (auto simp: router_new_def)
  have cfg: "as_config S = cfg" using assms(2) by (simp add: monitors_inv_def)
  have S0: "S0 = S\<lparr>as_provider_keys := (as_provider_keys S)(rid \<mapsto> discover_provider_keys (se_env E) (cfg_discover cfg) rc)\<rparr>"
    using keys cfg by (auto simp: add_provider_keys_for_router_def Let_def)
  have S1: "\<exists>ls. S1 = S0\<lparr>as_router_rate_limits := ls\<rparr>"
    using rl by (auto simp: router_rate_limit_def hmodify_def split: option.splits intro: exI[of _ "as_router_rate_limits S1"])
  have same: "as_provider_keys S rid' = None \<or> as_provider_keys S1 rid' = as_provider_keys S rid'" for rid'
  proof (cases "rid' = rid")
    case True
    have "k = discover_provider_keys (se_env E) (cfg_discover cfg) rc" if "as_provider_keys S rid = Some k" for k
      using assms(2) that rc cfg unfolding monitors_inv_def by fastforce
    then show ?thesis using True S0 S1 by (cases "as_provider_keys S rid") auto
  next
    case False
    then show ?thesis using S0 S1 by auto
  qed
  have "monitor_ready E S1 rid' mon" if "(rid', mon) \<in> set (as_health_monitors S)" for rid' mon
    by (rule monitor_ready_keeps[of E S]) (use assms(2) that same S0 S1 in \<open>auto simp: monitors_inv_def\<close>)
  then have "monitors_inv E cfg S1" using assms(2) S0 S1 rc cfg by (auto simp: monitors_inv_def split: if_splits)
  then show ?thesis using balancers_new_monitors[OF inner] rc cfg by simp
qed

lemma routers_new_monitors:
  "routers_new E rids inner S = (Inr inner', S') \<Longrightarrow> monitors_inv E cfg S \<Longrightarrow> monitors_inv E cfg S'"
  by (induction rids arbitrary: inner S) (auto dest: router_new_monitors)

lemma started_monitors:
  assumes "app_new E cfg = Inr (m, S)"
  shows "monitors_inv E cfg S"
proof (rule app_new_cases[OF assms])
  fix S0
  assume s: "build_app_state E cfg = Inr S0" "routers_new E (map fst (cfg_routers cfg)) [] S0 = (Inr (bm_inner m), S)"
    and cfg: "as_config S0 = cfg"
  have "as_provider_keys S0 = Map.empty" "as_health_monitors S0 = []" using s(1) by (auto simp: build_app_state_def)
  then have "monitors_inv E cfg S0" using cfg by (simp add: monitors_inv_def)
  then show ?thesis by (rule routers_new_monitors[OF s(2)])
qed

text \<open>Once a service has ended, every other one may stop, and the process ends when all have.\<close>

lemma end_stops_all:
  assumes "sp_step\<^sup>*\<^sup>* (supervisor_new services) P" "sp_ended P \<noteq> []"
  shows "(\<forall>s \<in> set (sp_running P). sp_step P (service_ended s Stop P)) \<and>
    (\<exists>P'. sp_step\<^sup>*\<^sup>* P P' \<and> run_app_result P' = Some (Inr ()) \<and> set (sp_ended P) \<subseteq> set (sp_ended P'))"
proof -
  have inv: "sp_inv services P" using sp_inv_reachable[OF assms(1)] .
  then have token: "sp_token P" using assms(2) by (simp add: sp_inv_def)
  then show ?thesis using stop_all[OF inv token] by (fastforce simp: run_app_result_def intro: sp_stop)
qed

lemma all_ended:
  assumes "sp_step\<^sup>*\<^sup>* (supervisor_new services) P" "run_app_result P = Some res"
  shows "res = Inr () \<and> mset (map fst (sp_ended P)) = mset services"
  using sp_inv_reachable[OF assms(1)] assms(2) by (auto simp: run_app_result_def sp_inv_def split: if_splits)

lemma run_app_start_Ok:
  "run_app_start E connect database cfg = Inr P \<Longrightarrow>
     P = supervisor_new (registered_services cfg) \<and> (\<exists>m S. app_new E cfg = Inr (m, S))"
  by (auto simp: run_app_start_def rbind_Ok_iff map_err_Ok_iff split: if_splits)

text \<open>The monitors of a started gateway, at the first tick.\<close>

lemma provider_health_ready:
  fixes S :: "'w app_state"
  assumes "app_new E cfg = Inr (m, S)" "distinct (map fst (cfg_routers cfg))"
    and "\<And>rid mon p d. (rid, mon) \<in> set (as_health_monitors S) \<Longrightarrow>
      dispatcher_new E S rid (pm_router_config mon) p = Inr d \<Longrightarrow> mk rid p = Inr d"
  shows "all_ready (se_decimals E) mk (map (\<lambda>(rid, mon). (rid, provider_health_new mon)) (as_health_monitors S))"
  unfolding all_ready_def
proof (intro allI impI)
  fix rid and ph :: "('w, 'w dispatcher_service) provider_health"
  assume "(rid, ph) \<in> set (map (\<lambda>(rid, mon). (rid, provider_health_new mon)) (as_health_monitors S))"
  then obtain mon where mon: "(rid, mon) \<in> set (as_health_monitors S)" and ph: "ph = provider_health_new mon" by auto
  let ?bc = "rc_load_balance (pm_router_config mon)"
  have "map_of (cfg_routers cfg) rid = Some (pm_router_config mon)" and ready: "monitor_ready E S rid mon"
    using started_monitors[OF assms(1)] mon by (simp_all add: monitors_inv_def)
  then have rc: "(rid, pm_router_config mon) \<in> set (cfg_routers cfg)" by (simp add: map_of_SomeD)
  have made: "\<exists>d. mk rid p = Inr d" if "(et, b) \<in> set ?bc" "p \<in> set (inner_providers b)" for et b p
    using ready that assms(3)[OF mon] by (fastforce simp: monitor_ready_def)
  show "health_ready (se_decimals E) (mk rid) ph"
  proof (cases "pm_kind mon")
    case MK_Weighted
    then show ?thesis using ready made by (auto simp: ph provider_health_new_def monitor_ready_def)
  next
    case MK_P2C
    then obtain et ps where "(et, Latency ps) \<in> set ?bc" using ready by (auto simp: monitor_ready_def)
    moreover have "(\<forall>(et, b) \<in> set ?bc. \<exists>ts. b = Weighted ts) \<or> (\<forall>(et, b) \<in> set ?bc. \<exists>ps. b = Latency ps)"
      using start_requires[OF assms(1,2), THEN conjunct2] rc by fastforce
    ultimately have "config_of_kind (se_decimals E) MK_P2C ?bc" unfolding config_of_kind_def by fastforce
    then show ?thesis using made MK_P2C by (auto simp: ph provider_health_new_def)
  qed
qed

text \<open>A weighted monitor knows no key for a provider that the endpoint type of the event does not list.\<close>

lemma create_key_weighted_missing:
  assumes "map_of bc (endpoint_type_of e) = Some (Weighted ts)" "endpoint_provider e \<notin> bt_provider ` set ts"
  shows "create_key_weighted D bc e = Inl Internal"
proof -
  have "List.find (\<lambda>t. bt_provider t = endpoint_provider e) ts = None" using assms(2) by (force simp: find_None_iff)
  then show ?thesis using assms(1) by (simp add: create_key_weighted_def)
qed

section \<open>Properties\<close>

text \<open>C37. One service that ends ends them all: from then on every running service may stop, each run of the
  supervisor gets shorter, and when the last service has ended \<open>run_app\<close> answers that all is well, whatever
  the services have answered.\<close>

theorem one_end_ends_all:
  assumes "run_app_start E connect database cfg = Inr P0" "sp_step\<^sup>*\<^sup>* P0 P" "sp_ended P \<noteq> []"
  shows "(\<forall>s \<in> set (sp_running P). sp_step P (service_ended s Stop P)) \<and>
    (\<forall>P'. sp_step P P' \<longrightarrow> length (sp_running P') < length (sp_running P)) \<and>
    (\<exists>P'. sp_step\<^sup>*\<^sup>* P P' \<and> run_app_result P' = Some (Inr ()) \<and> set (sp_ended P) \<subseteq> set (sp_ended P')) \<and>
    (\<forall>P' res. sp_step\<^sup>*\<^sup>* P P' \<and> run_app_result P' = Some res \<longrightarrow>
      res = Inr () \<and> mset (map fst (sp_ended P')) = mset (registered_services cfg))"
proof -
  have P: "sp_step\<^sup>*\<^sup>* (supervisor_new (registered_services cfg)) P" using assms(1,2) by (auto dest: run_app_start_Ok)
  note stop = end_stops_all[OF P assms(3)]
  have shorter: "length (sp_running P') < length (sp_running P)" if "sp_step P P'" for P'
    using sp_step_shorter[OF that] by simp
  have all: "res = Inr () \<and> mset (map fst (sp_ended P')) = mset (registered_services cfg)"
    if "sp_step\<^sup>*\<^sup>* P P'" "run_app_result P' = Some res" for P' res
    using all_ended[OF rtranclp_trans[OF P that(1)] that(2)] .
  show ?thesis using stop shorter all by blast
qed

theorem one_end_ends_all_witness:
  "\<exists>P0 P P'. run_app_start sample_start (Inr ()) (Inr ()) two_types = Inr P0 \<and> sp_step\<^sup>*\<^sup>* P0 P \<and>
     sp_ended P = [(GS_Gateway, Inl (RE_Internal Internal))] \<and> sp_step\<^sup>*\<^sup>* P P' \<and> run_app_result P' = Some (Inr ())"
proof -
  obtain m S where s: "app_new sample_start two_types = Inr (m, S)" using two_types_start by blast
  have P0: "run_app_start sample_start (Inr ()) (Inr ()) two_types = Inr (supervisor_new (registered_services two_types))"
    by (simp add: run_app_start_def s)
  let ?P = "service_ended GS_Gateway (Work (Inl (RE_Internal Internal))) (supervisor_new (registered_services two_types))"
  have step: "sp_step\<^sup>*\<^sup>* (supervisor_new (registered_services two_types)) ?P"
    by (rule r_into_rtranclp, rule sp_work) (simp add: supervisor_new_def registered_services_def)
  have e: "sp_ended ?P = [(GS_Gateway, Inl (RE_Internal Internal))]" by (simp add: supervisor_new_def)
  then show ?thesis using one_end_ends_all[OF P0 step] P0 step by (metis list.distinct(1))
qed

text \<open>C39. In a started gateway the health monitor goes on for ever: whatever the counters of the providers are, no
  tick of it fails, if a dispatcher that could be made for a router at its start can be made again.\<close>

theorem health_monitor_keeps_running:
  assumes "app_new E cfg = Inr (m, S)" "distinct (map fst (cfg_routers cfg))"
    and "\<And>rid mon p d. (rid, mon) \<in> set (as_health_monitors S) \<Longrightarrow>
      dispatcher_new E S rid (pm_router_config mon) p = Inr d \<Longrightarrow> mk rid p = Inr d"
    and "\<And>h. h \<in> set healths \<Longrightarrow> \<exists>mc reg now. h = check_health (se_decimals E) mc reg now \<and> (\<forall>e. reg e \<noteq> None)"
  shows "\<exists>ms. health_run_forever (se_decimals E) mk healths
      (map (\<lambda>(rid, mon). (rid, provider_health_new mon)) (as_health_monitors S)) = Inr ms \<and>
    map fst ms = map fst (as_health_monitors S)"
proof -
  have "\<exists>b. h p = Inr b" if "h \<in> set healths" for h p
    using assms(4)[OF that] check_health_total by metis
  moreover have "all_ready (se_decimals E) mk (map (\<lambda>(rid, mon). (rid, provider_health_new mon)) (as_health_monitors S))"
    by (rule provider_health_ready[OF assms(1,2)]) (rule assms(3))
  ultimately show ?thesis
    using health_run_ready[where healths = healths] by (fastforce simp: case_prod_unfold comp_def)
qed

theorem health_monitor_keeps_running_witness:
  "\<exists>m S (mk :: router_id \<Rightarrow> nat dispatcher_service mk_dispatcher) ms. app_new sample_start two_types = Inr (m, S) \<and>
     health_run_forever percent_ops mk (replicate 3 (check_health percent_ops \<lparr>mc_health = health_monitor_default 10\<rparr>
       (metrics_registry_default fresh_metrics) 5))
       (map (\<lambda>(rid, mon). (rid, provider_health_new mon)) (as_health_monitors S)) = Inr ms"
proof -
  obtain m S where s: "app_new sample_start two_types = Inr (m, S)" using two_types_start by blast
  let ?mk = "\<lambda>rid p. case dispatcher_new sample_start S rid (sample_router\<lparr>rc_load_balance :=
      [(ET_Chat, Latency [P_OpenAI]), (ET_Image, Latency [P_Anthropic])]\<rparr>) p of Inr d \<Rightarrow> Inr d | Inl _ \<Rightarrow> Inl DefaultRouterNotFound"
  have mk: "?mk rid p = Inr d"
    if "(rid, mon) \<in> set (as_health_monitors S)" "dispatcher_new sample_start S rid (pm_router_config mon) p = Inr d" for rid mon p d
  proof -
    have "pm_router_config mon = sample_router\<lparr>rc_load_balance := [(ET_Chat, Latency [P_OpenAI]), (ET_Image, Latency [P_Anthropic])]\<rparr>"
    proof -
      have "map_of (cfg_routers two_types) rid = Some (pm_router_config mon)"
        using that(1) started_monitors[OF s] unfolding monitors_inv_def by blast
      then show ?thesis by (simp split: if_splits)
    qed
    then show ?thesis using that(2) by simp
  qed
  let ?h = "check_health percent_ops \<lparr>mc_health = health_monitor_default 10\<rparr> (metrics_registry_default fresh_metrics) 5"
  have D: "se_decimals sample_start = percent_ops" by (simp add: sample_start_def)
  have h: "\<exists>mc reg now. h = check_health (se_decimals sample_start) mc reg now \<and> (\<forall>e. reg e \<noteq> None)"
    if q: "h \<in> set (replicate 3 ?h)" for h
  proof -
    have "h = ?h" using q by simp
    moreover have "\<forall>e. metrics_registry_default fresh_metrics e \<noteq> None" by (simp add: metrics_registry_covers)
    ultimately show ?thesis unfolding D by blast
  qed
  have "\<exists>ms. health_run_forever (se_decimals sample_start) ?mk (replicate 3 ?h)
      (map (\<lambda>(rid, mon). (rid, provider_health_new mon)) (as_health_monitors S)) = Inr ms \<and>
    map fst ms = map fst (as_health_monitors S)"
    by (rule health_monitor_keeps_running[OF s]) (simp, erule (1) mk, erule h)
  then show ?thesis using s unfolding D by blast
qed


text \<open>A weighted router whose image type lists another provider than its chat type.\<close>

definition weighted_types :: "nat config" where
  "weighted_types = sample_config\<lparr>cfg_routers := [(R_Default, sample_router\<lparr>rc_load_balance :=
     [(ET_Chat, Weighted [\<lparr>bt_provider = P_OpenAI, bt_weight = 100\<rparr>]),
      (ET_Image, Weighted [\<lparr>bt_provider = P_Anthropic, bt_weight = 100\<rparr>])]\<rparr>)]\<rparr>"

lemma weighted_types_parts [simp]:
  "cfg_routers weighted_types = [(R_Default, sample_router\<lparr>rc_load_balance :=
     [(ET_Chat, Weighted [\<lparr>bt_provider = P_OpenAI, bt_weight = 100\<rparr>]),
      (ET_Image, Weighted [\<lparr>bt_provider = P_Anthropic, bt_weight = 100\<rparr>])]\<rparr>)]"
  "map fst (cfg_providers weighted_types) = [P_OpenAI, P_Anthropic]" "cfg_global weighted_types = \<lparr>mw_cache = None, mw_rate_limit = None\<rparr>"
  "dc_api_keys_source (cfg_discover weighted_types) = PKS_Env" "cfg_providers weighted_types = cfg_providers two_types"
  by (simp_all add: weighted_types_def two_types_def sample_config_def base_config_def sample_router_def discover_config_default_def)

lemma weighted_types_client:
  "p = P_OpenAI \<or> p = P_Anthropic \<Longrightarrow>
     client_new_inner sample_host weighted_types p (Some (Key_Secret ''sk-gateway'')) = Inr (sample_client p)"
  using two_types_client[of p]
  by (auto simp: client_new_inner_def openai_client_def anthropic_client_def bearer_client_def provider_base_url_def)

lemma weighted_types_start:
  "\<exists>m S r b1 b2. app_new sample_start weighted_types = Inr (m, S) \<and> bm_inner m = [(R_Default, r)] \<and>
     br_inner r = [(ET_Chat, b1), (ET_Image, b2)]"
  by (simp add: app_new_def build_service_stack_def build_app_state_def setup_cache_def meta_router_new_def router_new_def hbind_def hread_def hlift_def hmodify_def
      sample_start_def router_config_validate_def add_provider_keys_for_router_def router_rate_limit_def rate_limit_layer_per_router_def
      optional_layer_for_router_def cache_layer_for_router_def provider_balancer_new_def balancer_weighted_def register_monitors_eq
      config_discovery_new_weighted_def discovery_new_weighted_def dispatcher_new_def client_for_router_def get_rate_limit_tx_def new_direct_proxy_def new_without_mapper_def
      client_for_direct_proxy_def client_for_unified_api_def direct_proxies_new_def weighted_types_client SDK_def Let_def
      discover_provider_keys_def keys_from_env_def keys_from_env_direct_proxy_def balance_providers_def sample_env_key map_filter_simps
      target_weight_def percent_ops_def target_key_def
      add_rate_limit_monitor_def add_rate_limit_rx_def add_rate_limit_tx_def add_router_health_monitor_def)

definition chat_limit :: rate_limit_event where
  "chat_limit = \<lparr>re_api_endpoint = EP_Anthropic Anthropic_Messages, re_retry_after_seconds = None\<rparr>"


end
