(* ===== verification/Telemetry.thy ===== *)
theory Telemetry
  imports Services
begin

text \<open>
  The process around the gateway (\<open>main.rs\<close>), its telemetry (\<open>crates/telemetry\<close>) and the counters of the
  requests (\<open>metrics/\<close>). The global values that OpenTelemetry and tracing keep are a record; the exporters, the
  parser of directives and the propagation of trace contexts are parameters.
\<close>

section \<open>Settings and errors\<close>

datatype exporter = Exp_Stdout | Exp_Otlp | Exp_Both

record telemetry_config =
  tc_level :: string
  tc_service_name :: string
  tc_exporter :: exporter
  tc_otlp_endpoint :: string
  tc_propagate :: bool

definition telemetry_config_default :: telemetry_config where
  "telemetry_config_default =
     \<lparr>tc_level = ''info'', tc_service_name = ''ai-gateway'', tc_exporter = Exp_Stdout,
      tc_otlp_endpoint = ''http://localhost:4317/v1/metrics'', tc_propagate = True\<rparr>"

datatype telemetry_error =
    LogExporterBuild string
  | TraceExporterBuild string
  | MetricExporterBuild string
  | InvalidLogDirective string
  | TE_Subscriber string
  | OtelHttpMetrics

fun telemetry_error_display :: "telemetry_error \<Rightarrow> string" where
  "telemetry_error_display (LogExporterBuild e) = ''Log exporter build error: '' @ e"
| "telemetry_error_display (TraceExporterBuild e) = ''Trace exporter build error: '' @ e"
| "telemetry_error_display (MetricExporterBuild e) = ''Metric exporter build error: '' @ e"
| "telemetry_error_display (InvalidLogDirective e) = ''Invalid log directive: '' @ e"
| "telemetry_error_display (TE_Subscriber e) = ''Subscriber error: '' @ e"
| "telemetry_error_display OtelHttpMetrics = ''Otel http metrics error''"

section \<open>Providers\<close>

text \<open>A filter: what \<open>EnvFilter::new\<close> reads, which leaves out the directives that are not valid, and the
  directives that are added.\<close>

record log_filter =
  ef_level :: string
  ef_directives :: "string list"

datatype log_layer = LL_Stdout log_filter | LL_Bridge log_filter | LL_Trace log_filter

record sdk_logger_provider =
  lp_service :: string
  lp_endpoint :: string

record sdk_tracer_provider =
  tp_service :: string
  tp_endpoint :: "string option"
  tp_max_events_per_span :: nat
  tp_max_attributes_per_span :: nat

record sdk_meter_provider =
  mp_service :: string
  mp_endpoint :: string

datatype propagator = Trace_Context | Noop_Propagator

record telemetry_globals =
  gl_propagator :: propagator
  gl_subscriber :: "log_layer list option"
  gl_meter :: "sdk_meter_provider option"
  gl_tracer :: "sdk_tracer_provider option"
  gl_log_panics :: bool

record telemetry_env =
  te_directive :: "string \<Rightarrow> (string, string) result"
  te_log_exporter :: "string \<Rightarrow> (string, unit) result"
  te_span_exporter :: "string \<Rightarrow> (string, unit) result"
  te_metric_exporter :: "string \<Rightarrow> (string, unit) result"

type_synonym 'a telemetry = "(telemetry_globals, telemetry_error, 'a) handler"

fun add_directives :: "telemetry_env \<Rightarrow> string list \<Rightarrow> log_filter \<Rightarrow> (telemetry_error, log_filter) result" where
  "add_directives T [] f = Inr f"
| "add_directives T (d # ds) f =
     rbind (map_err InvalidLogDirective (te_directive T d)) (\<lambda>p.
       add_directives T ds (f\<lparr>ef_directives := ef_directives f @ [p]\<rparr>))"

definition env_filter :: "telemetry_env \<Rightarrow> telemetry_config \<Rightarrow> (telemetry_error, log_filter) result" where
  "env_filter T cfg =
     add_directives T [''hyper=off'', ''tonic=off'', ''h2=off'', ''opentelemetry_sdk=off'', ''reqwest=off'']
       \<lparr>ef_level = tc_level cfg, ef_directives = []\<rparr>"

definition tracer_provider :: "telemetry_env \<Rightarrow> telemetry_config \<Rightarrow> (string, sdk_tracer_provider) result" where
  "tracer_provider T cfg =
     (case tc_exporter cfg of
        Exp_Stdout \<Rightarrow> Inr \<lparr>tp_service = tc_service_name cfg, tp_endpoint = None,
          tp_max_events_per_span = 64, tp_max_attributes_per_span = 16\<rparr>
      | _ \<Rightarrow> rbind (te_span_exporter T (tc_otlp_endpoint cfg)) (\<lambda>_.
          Inr \<lparr>tp_service = tc_service_name cfg, tp_endpoint = Some (tc_otlp_endpoint cfg),
            tp_max_events_per_span = 64, tp_max_attributes_per_span = 16\<rparr>))"

definition logger_provider :: "telemetry_env \<Rightarrow> telemetry_config \<Rightarrow> (string, sdk_logger_provider) result" where
  "logger_provider T cfg =
     rbind (te_log_exporter T (tc_otlp_endpoint cfg)) (\<lambda>_.
       Inr \<lparr>lp_service = tc_service_name cfg, lp_endpoint = tc_otlp_endpoint cfg\<rparr>)"

definition metrics_provider :: "telemetry_env \<Rightarrow> telemetry_config \<Rightarrow> (string, sdk_meter_provider) result" where
  "metrics_provider T cfg =
     rbind (te_metric_exporter T (tc_otlp_endpoint cfg)) (\<lambda>_.
       Inr \<lparr>mp_service = tc_service_name cfg, mp_endpoint = tc_otlp_endpoint cfg\<rparr>)"

section \<open>Initialisation\<close>

text \<open>\<open>try_init\<close> of tracing-subscriber fails if there is a global subscriber already.\<close>

definition try_init :: "log_layer list \<Rightarrow> unit telemetry" where
  "try_init layers =
     (\<lambda>G. if gl_subscriber G \<noteq> None
          then (Inl (TE_Subscriber ''a global default trace dispatcher has already been set''), G)
          else (Inr (), G\<lparr>gl_subscriber := Some layers\<rparr>))"

definition init_stdout :: "telemetry_env \<Rightarrow> telemetry_config \<Rightarrow> sdk_tracer_provider telemetry" where
  "init_stdout T cfg =
     hbind (hlift (env_filter T cfg)) (\<lambda>fmt_filter.
     hbind (hlift (map_err TraceExporterBuild (tracer_provider T cfg))) (\<lambda>tracer_provider.
     hbind (hlift (env_filter T cfg)) (\<lambda>trace_filter.
     hbind (try_init [LL_Stdout fmt_filter, LL_Trace trace_filter]) (\<lambda>_.
     hbind (hmodify (\<lambda>G. G\<lparr>gl_tracer := Some tracer_provider, gl_log_panics := True\<rparr>)) (\<lambda>_.
       hlift (Inr tracer_provider))))))"

definition init_otlp_pipeline ::
  "telemetry_env \<Rightarrow> telemetry_config \<Rightarrow> bool \<Rightarrow> (sdk_logger_provider \<times> sdk_tracer_provider \<times> sdk_meter_provider) telemetry" where
  "init_otlp_pipeline T cfg with_stdout =
     hbind (hlift (map_err LogExporterBuild (logger_provider T cfg))) (\<lambda>logger_provider.
     hbind (hlift (env_filter T cfg)) (\<lambda>otel_filter.
     hbind (hlift (map_err TraceExporterBuild (tracer_provider T cfg))) (\<lambda>tracer_provider.
     hbind (hlift (env_filter T cfg)) (\<lambda>trace_filter.
     hbind (hlift (if with_stdout then rbind (env_filter T cfg) (\<lambda>f. Inr [LL_Stdout f]) else Inr [])) (\<lambda>stdout_layer.
     hbind (try_init ([LL_Trace trace_filter, LL_Bridge otel_filter] @ stdout_layer)) (\<lambda>_.
     hbind (hlift (map_err MetricExporterBuild (metrics_provider T cfg))) (\<lambda>metrics_provider.
     hbind (hmodify (\<lambda>G. G\<lparr>gl_meter := Some metrics_provider, gl_tracer := Some tracer_provider, gl_log_panics := True\<rparr>)) (\<lambda>_.
       hlift (Inr (logger_provider, tracer_provider, metrics_provider))))))))))"

type_synonym telemetry_providers = "sdk_logger_provider option \<times> sdk_tracer_provider \<times> sdk_meter_provider option"

definition init_telemetry :: "telemetry_env \<Rightarrow> telemetry_config \<Rightarrow> telemetry_providers telemetry" where
  "init_telemetry T cfg =
     hbind (hmodify (\<lambda>G. G\<lparr>gl_propagator := (if tc_propagate cfg then Trace_Context else Noop_Propagator)\<rparr>)) (\<lambda>_.
       case tc_exporter cfg of
         Exp_Stdout \<Rightarrow> hbind (init_stdout T cfg) (\<lambda>tp. hlift (Inr (None, tp, None)))
       | Exp_Otlp \<Rightarrow> hbind (init_otlp_pipeline T cfg False) (\<lambda>(lp, tp, mp). hlift (Inr (Some lp, tp, Some mp)))
       | Exp_Both \<Rightarrow> hbind (init_otlp_pipeline T cfg True) (\<lambda>(lp, tp, mp). hlift (Inr (Some lp, tp, Some mp))))"

text \<open>\<open>UuidGenerator\<close>, from the UUIDs that are drawn.\<close>

definition new_trace_id :: "128 word \<Rightarrow> 128 word" where
  "new_trace_id uuid = uuid"

definition new_span_id :: "128 word \<Rightarrow> 64 word" where
  "new_span_id uuid = ucast (drop_bit 64 uuid)"

text \<open>\<open>SpanFactory::make_span\<close>: \<open>extract\<close> is the global propagator on the headers; a span without a parent
  starts a trace. \<open>MakeRequestId\<close> takes the trace id for the id of the request.\<close>

record span =
  sn_level :: string
  sn_parent :: "128 word option"
  sn_trace_id :: "128 word"

definition make_span :: "string \<Rightarrow> bool \<Rightarrow> (headers \<Rightarrow> 128 word option) \<Rightarrow> 128 word \<Rightarrow> headers \<Rightarrow> span" where
  "make_span level propagate_traces extract uuid hs =
     (let parent = (if propagate_traces then extract hs else None)
      in \<lparr>sn_level = level, sn_parent = parent,
          sn_trace_id = (case parent of Some t \<Rightarrow> t | None \<Rightarrow> new_trace_id uuid)\<rparr>)"

definition make_request_id :: "span \<Rightarrow> 128 word" where
  "make_request_id sp = sn_trace_id sp"

section \<open>The process\<close>

record args =
  ag_config :: "string option"
  ag_verbose :: bool

text \<open>How the process ends: an exit of its own, a panic, or the answer of \<open>main\<close>.\<close>

datatype process_end = Exited nat | Process_Panicked | Main_Answered "(runtime_error, unit) result"

fun exit_status :: "process_end \<Rightarrow> nat" where
  "exit_status (Exited n) = n"
| "exit_status Process_Panicked = 101"
| "exit_status (Main_Answered (Inr _)) = 0"
| "exit_status (Main_Answered (Inl _)) = 1"

fun ended_with :: "runtime_error abort \<Rightarrow> process_end" where
  "ended_with (Failed e) = Main_Answered (Inl e)"
| "ended_with Panicked = Process_Panicked"

text \<open>\<open>load_and_validate_config\<close>: what \<open>Config::try_read\<close> gives, with the settings of the telemetry.\<close>

definition load_and_validate_config ::
  "'w decimal_ops \<Rightarrow> (string option \<Rightarrow> (string, telemetry_config \<times> 'w config) result) \<Rightarrow> args \<Rightarrow>
     (process_end, telemetry_config \<times> 'w config) result" where
  "load_and_validate_config D try_read a =
     (case try_read (ag_config a) of
        Inl e \<Rightarrow> Inl (Exited 1)
      | Inr (tc, cfg) \<Rightarrow>
          let tc' = (if ag_verbose a then tc\<lparr>tc_level := ''info,ai_gateway=trace''\<rparr> else tc)
          in rbind (map_err (\<lambda>e. ended_with (lift_err RE_Init e)) (config_validate D cfg)) (\<lambda>_. Inr (tc', cfg)))"

text \<open>The providers that \<open>shutdown_telemetry\<close> shuts down; an error of a shutdown is only printed.\<close>

datatype shut_down = SD_Logger sdk_logger_provider | SD_Tracer sdk_tracer_provider | SD_Meter sdk_meter_provider

definition shutdown_telemetry :: "telemetry_providers \<Rightarrow> shut_down list" where
  "shutdown_telemetry = (\<lambda>(lp, tp, mp).
     (case lp of Some l \<Rightarrow> [SD_Logger l] | None \<Rightarrow> []) @ [SD_Tracer tp] @
     (case mp of Some m \<Rightarrow> [SD_Meter m] | None \<Rightarrow> []))"

text \<open>\<open>main\<close>; \<open>run\<close> is the answer of \<open>run_app\<close>. The result has how the process ends and what is shut down.\<close>

definition main_process ::
  "'w decimal_ops \<Rightarrow> telemetry_env \<Rightarrow> (string option \<Rightarrow> (string, telemetry_config \<times> 'w config) result) \<Rightarrow>
     ('w config \<Rightarrow> (runtime_error abort, unit) result) \<Rightarrow> args \<Rightarrow> telemetry_globals \<Rightarrow>
     process_end \<times> shut_down list \<times> telemetry_globals" where
  "main_process D T try_read run a G =
     (case load_and_validate_config D try_read a of
        Inl ended \<Rightarrow> (ended, [], G)
      | Inr (tc, cfg) \<Rightarrow>
          (case init_telemetry T tc G of
             (Inl e, G') \<Rightarrow> (Main_Answered (Inl (RE_Init (IE_Telemetry (telemetry_error_display e)))), [], G')
           | (Inr providers, G') \<Rightarrow>
               (case run cfg of
                  Inl e \<Rightarrow> (ended_with e, [], G')
                | Inr _ \<Rightarrow> (Main_Answered (Inr ()), shutdown_telemetry providers, G'))))"

text \<open>What \<open>run_app\<close> can answer: the error of its beginning, or what it answers when the last service has ended.\<close>

inductive run_app ::
  "'w start_env \<Rightarrow> (init_error, unit) result \<Rightarrow> (init_error, unit) result \<Rightarrow> 'w config \<Rightarrow>
     (gateway_service \<times> (runtime_error, unit) result) list \<Rightarrow> (runtime_error abort, unit) result \<Rightarrow> bool"
  for E connect database cfg where
  run_app_fails: "run_app_start E connect database cfg = Inl e \<Longrightarrow> run_app E connect database cfg [] (Inl e)"
| run_app_ends: "run_app_start E connect database cfg = Inr P0 \<Longrightarrow> sp_step\<^sup>*\<^sup>* P0 P \<Longrightarrow> run_app_result P = Some r \<Longrightarrow>
    run_app E connect database cfg (sp_ended P) (map_err Failed r)"

section \<open>Counters\<close>

text \<open>The attributes of a response, from its extensions: the mapper context, the path at the provider, the provider
  and the router.\<close>

record response_extensions =
  rx_mapper_context :: "(bool \<times> string option) option"
  rx_path :: "string option"
  rx_provider :: "inference_provider option"
  rx_router_id :: "router_id option"

datatype attribute_value = AV_Bool bool | AV_String string

definition extract_attributes :: "response_extensions \<Rightarrow> (string \<times> attribute_value) list" where
  "extract_attributes X =
     (case rx_mapper_context X of
        Some (is_stream, model) \<Rightarrow> (''stream'', AV_Bool is_stream) #
          (case model of Some m \<Rightarrow> [(''model'', AV_String m)] | None \<Rightarrow> [])
      | None \<Rightarrow> []) @
     (case rx_path X of Some p \<Rightarrow> [(''provider_path'', AV_String p)] | None \<Rightarrow> []) @
     (case rx_provider X of Some p \<Rightarrow> [(''provider'', AV_String (provider_display p))] | None \<Rightarrow> []) @
     (case rx_router_id X of Some r \<Rightarrow> [(''router_id'', AV_String (router_id_display r))] | None \<Rightarrow> [])"

text \<open>The counters of \<open>Metrics\<close> that requests change; \<open>response_count\<close> has the attributes of every addition.\<close>

record metrics =
  mt_request_count :: nat
  mt_response_count :: "(string \<times> attribute_value) list list"
  mt_cache_evictions :: nat

definition metrics_new :: metrics where
  "metrics_new = \<lparr>mt_request_count = 0, mt_response_count = [], mt_cache_evictions = 0\<rparr>"

text \<open>\<open>request_count::Service::call\<close>, and \<open>poll\<close> of its future when the inner one is ready.\<close>

definition count_request :: "metrics \<Rightarrow> metrics" where
  "count_request M = M\<lparr>mt_request_count := Suc (mt_request_count M)\<rparr>"

fun count_response :: "('e, 'b \<times> response_extensions) result poll \<Rightarrow> metrics \<Rightarrow>
    ('e, 'b \<times> response_extensions) result poll \<times> metrics" where
  "count_response (Ready (Inr (b, X))) M =
     (Ready (Inr (b, X)), M\<lparr>mt_response_count := mt_response_count M @ [extract_attributes X]\<rparr>)"
| "count_response (Ready (Inl e)) M = (Ready (Inl e), M)"
| "count_response Pending M = (Pending, M)"

text \<open>The listener of the in-memory cache.\<close>

datatype removal_cause = RC_Expired | RC_Explicit | RC_Replaced | RC_Size

definition eviction_listener :: "removal_cause \<Rightarrow> metrics \<Rightarrow> metrics" where
  "eviction_listener cause M =
     (if cause = RC_Size then M\<lparr>mt_cache_evictions := Suc (mt_cache_evictions M)\<rparr> else M)"

text \<open>\<open>TFFTFuture::poll\<close>: the receiver is ready when the first frame has been delivered, or the sender is gone.\<close>

fun tfft_poll :: "nat \<Rightarrow> (string, unit) result poll \<Rightarrow> nat \<Rightarrow> (string, duration) result poll" where
  "tfft_poll start (Ready (Inr _)) now = Ready (Inr (now - start))"
| "tfft_poll start (Ready (Inl e)) now = Ready (Inl e)"
| "tfft_poll start Pending now = Pending"

section \<open>Lemmas\<close>

lemma hmodify_Ok_iff [simp]: "hmodify f S = (Inr x, S') \<longleftrightarrow> S' = f S"
  by (auto simp: hmodify_def)

lemma try_init_Ok_iff [simp]:
  "try_init layers G = (Inr x, G') \<longleftrightarrow> gl_subscriber G = None \<and> G' = G\<lparr>gl_subscriber := Some layers\<rparr>"
  by (auto simp: try_init_def)

lemma add_directives_level: "add_directives T ds f = Inr f' \<Longrightarrow> ef_level f' = ef_level f"
  by (induction T ds f rule: add_directives.induct) auto

lemma env_filter_level: "env_filter T cfg = Inr f \<Longrightarrow> ef_level f = tc_level cfg"
  by (auto simp: env_filter_def dest: add_directives_level)

text \<open>Whether the filter is made does not depend on the level, valid or not.\<close>

lemma add_directives_any: "(\<exists>e. add_directives T ds f = Inl e) \<longleftrightarrow> (\<exists>e. add_directives T ds g = Inl e)"
proof (induction ds arbitrary: f g)
  case (Cons d ds)
  show ?case
  proof (cases "te_directive T d")
    case (Inr p)
    then show ?thesis using Cons.IH[of "f\<lparr>ef_directives := ef_directives f @ [p]\<rparr>" "g\<lparr>ef_directives := ef_directives g @ [p]\<rparr>"] by simp
  qed simp
qed simp

lemma level_never_rejected:
  "(\<exists>e. env_filter T (cfg\<lparr>tc_level := level\<rparr>) = Inl e) \<longleftrightarrow> (\<exists>e. env_filter T cfg = Inl e)"
  unfolding env_filter_def by (rule add_directives_any)

fun layer_filter :: "log_layer \<Rightarrow> log_filter" where
  "layer_filter (LL_Stdout f) = f"
| "layer_filter (LL_Bridge f) = f"
| "layer_filter (LL_Trace f) = f"

definition prints :: "log_layer list \<Rightarrow> bool" where
  "prints layers \<longleftrightarrow> (\<exists>f. LL_Stdout f \<in> set layers)"

lemma init_stdout_Ok:
  assumes "init_stdout T cfg G = (Inr tp, G')"
  shows "gl_subscriber G = None" "gl_tracer G' = Some tp" "gl_meter G' = gl_meter G" "gl_propagator G' = gl_propagator G"
    "\<exists>layers. gl_subscriber G' = Some layers \<and> prints layers \<and> (\<forall>l \<in> set layers. ef_level (layer_filter l) = tc_level cfg)"
  using assms by (auto simp: init_stdout_def prints_def dest!: env_filter_level env_filter_level[OF sym])

lemma init_otlp_pipeline_Ok:
  assumes "init_otlp_pipeline T cfg out G = (Inr (lp, tp, mp), G')"
  shows "gl_subscriber G = None" "gl_tracer G' = Some tp" "gl_meter G' = Some mp" "gl_propagator G' = gl_propagator G"
    "\<exists>layers. gl_subscriber G' = Some layers \<and> (prints layers \<longleftrightarrow> out) \<and> (\<forall>l \<in> set layers. ef_level (layer_filter l) = tc_level cfg)"
  using assms by (auto simp: init_otlp_pipeline_def prints_def dest!: sym[of "Inr _"] split: if_splits) (erule env_filter_level)+

lemma init_telemetry_cases:
  assumes "init_telemetry T cfg G = (Inr (lp, tp, mp), G')"
  obtains "tc_exporter cfg = Exp_Stdout" "lp = None" "mp = None"
      "init_stdout T cfg (G\<lparr>gl_propagator := (if tc_propagate cfg then Trace_Context else Noop_Propagator)\<rparr>) = (Inr tp, G')"
  | l m out where "tc_exporter cfg = (if out then Exp_Both else Exp_Otlp)" "lp = Some l" "mp = Some m"
      "init_otlp_pipeline T cfg out (G\<lparr>gl_propagator := (if tc_propagate cfg then Trace_Context else Noop_Propagator)\<rparr>) =
         (Inr (l, tp, m), G')"
proof (cases "tc_exporter cfg")
  case Exp_Stdout
  then show thesis using assms that(1) by (auto simp: init_telemetry_def)
next
  case Exp_Otlp
  then show thesis using assms that(2)[of False] by (auto simp: init_telemetry_def)
next
  case Exp_Both
  then show thesis using assms that(2)[of True] by (auto simp: init_telemetry_def)
qed

lemma init_telemetry_fresh: "init_telemetry T cfg G = (Inr p, G') \<Longrightarrow> gl_subscriber G = None \<and> gl_subscriber G' \<noteq> None"
proof -
  assume a: "init_telemetry T cfg G = (Inr p, G')"
  obtain lp tp mp where "p = (lp, tp, mp)" by (cases p)
  with a have "init_telemetry T cfg G = (Inr (lp, tp, mp), G')" by simp
  then show ?thesis
  proof (rule init_telemetry_cases, goal_cases)
    case 1
    show ?case using init_stdout_Ok(1,5)[OF 1(4)] by auto
  next
    case (2 l m out)
    show ?case using init_otlp_pipeline_Ok(1,5)[OF 2(4)] by auto
  qed
qed

lemma init_telemetry_again:
  assumes "gl_subscriber G \<noteq> None"
  shows "\<exists>e. fst (init_telemetry T cfg G) = Inl e"
proof (cases "fst (init_telemetry T cfg G)")
  case (Inr p)
  then have "init_telemetry T cfg G = (Inr p, snd (init_telemetry T cfg G))" by (metis prod.collapse)
  from init_telemetry_fresh[OF this] show ?thesis using assms by simp
qed simp

text \<open>A UUID of version four: its bits 76 to 79 are four.\<close>

definition uuid_v4 :: "128 word \<Rightarrow> bool" where
  "uuid_v4 uuid \<longleftrightarrow> take_bit 4 (drop_bit 76 uuid) = 4"

lemma uuid_v4_bit: "uuid_v4 uuid \<Longrightarrow> bit uuid 78"
proof -
  assume u: "uuid_v4 uuid"
  have "bit (4 :: 128 word) 2" by (simp add: bit_iff_odd)
  then have "bit (take_bit 4 (drop_bit 76 uuid)) 2" using u unfolding uuid_v4_def by simp
  then show "bit uuid 78" by (simp add: bit_take_bit_iff bit_drop_bit_eq)
qed

section \<open>Properties\<close>

text \<open>What a successful initialisation of the telemetry leaves behind: the exporter decides which providers there
  are and whether logs are printed, every layer filters by the configured level, trace contexts are propagated
  as configured, and it cannot be done twice.\<close>

theorem telemetry_initialised:
  assumes "init_telemetry T cfg G = (Inr (lp, tp, mp), G')"
  shows "gl_subscriber G = None \<and> (lp \<noteq> None \<longleftrightarrow> tc_exporter cfg \<noteq> Exp_Stdout) \<and> (mp \<noteq> None \<longleftrightarrow> tc_exporter cfg \<noteq> Exp_Stdout) \<and>
    gl_tracer G' = Some tp \<and> gl_meter G' = (case mp of Some m \<Rightarrow> Some m | None \<Rightarrow> gl_meter G) \<and>
    (gl_propagator G' = Trace_Context \<longleftrightarrow> tc_propagate cfg) \<and>
    (\<exists>layers. gl_subscriber G' = Some layers \<and> (prints layers \<longleftrightarrow> tc_exporter cfg \<noteq> Exp_Otlp) \<and>
      (\<forall>l \<in> set layers. ef_level (layer_filter l) = tc_level cfg)) \<and>
    (\<forall>cfg2. \<exists>e. fst (init_telemetry T cfg2 G') = Inl e)"
proof -
  have again: "\<exists>e. fst (init_telemetry T cfg2 G') = Inl e" for cfg2
    using init_telemetry_again init_telemetry_fresh[OF assms] by blast
  show ?thesis
  proof (rule init_telemetry_cases[OF assms], goal_cases)
    case 1
    show ?case using again init_stdout_Ok[OF 1(4)] by (simp add: 1(1-3))
  next
    case (2 l m out)
    show ?case using again init_otlp_pipeline_Ok[OF 2(4)] by (cases out) (simp_all add: 2(1-3))
  qed
qed

definition sample_telemetry :: telemetry_env where
  "sample_telemetry = \<lparr>te_directive = Inr, te_log_exporter = (\<lambda>u. Inr ()), te_span_exporter = (\<lambda>u. Inr ()),
     te_metric_exporter = (\<lambda>u. Inr ())\<rparr>"

definition fresh_globals :: telemetry_globals where
  "fresh_globals = \<lparr>gl_propagator = Noop_Propagator, gl_subscriber = None, gl_meter = None, gl_tracer = None, gl_log_panics = False\<rparr>"

lemma sample_telemetry_init:
  "\<exists>lp tp mp G'. init_telemetry sample_telemetry (telemetry_config_default\<lparr>tc_exporter := Exp_Both\<rparr>) fresh_globals = (Inr (lp, tp, mp), G')"
  by (simp add: init_telemetry_def init_otlp_pipeline_def sample_telemetry_def fresh_globals_def hbind_def hlift_def hmodify_def
      try_init_def env_filter_def logger_provider_def tracer_provider_def metrics_provider_def telemetry_config_default_def)

theorem telemetry_initialised_witness:
  "\<exists>lp tp mp G'. init_telemetry sample_telemetry (telemetry_config_default\<lparr>tc_exporter := Exp_Both\<rparr>) fresh_globals = (Inr (lp, tp, mp), G') \<and>
     lp \<noteq> None \<and> (\<forall>cfg2. \<exists>e. fst (init_telemetry sample_telemetry cfg2 G') = Inl e)"
proof -
  obtain lp tp mp G' where i: "init_telemetry sample_telemetry (telemetry_config_default\<lparr>tc_exporter := Exp_Both\<rparr>) fresh_globals = (Inr (lp, tp, mp), G')"
    using sample_telemetry_init by blast
  from telemetry_initialised[OF i] i show ?thesis by auto
qed

text \<open>The ids that the generator makes from random UUIDs are valid ids of OpenTelemetry, which may not be zero.\<close>

theorem generated_ids_valid:
  assumes "uuid_v4 uuid"
  shows "new_trace_id uuid \<noteq> 0 \<and> new_span_id uuid \<noteq> 0"
proof -
  have "bit (new_span_id uuid) 14"
    using uuid_v4_bit[OF assms] by (simp add: new_span_id_def bit_simps)
  then show ?thesis using uuid_v4_bit[OF assms] by (auto simp: new_trace_id_def)
qed

theorem generated_ids_valid_witness: "new_span_id (push_bit 78 1) \<noteq> 0"
proof -
  have "uuid_v4 (push_bit 78 1)" by (simp add: uuid_v4_def)
  from generated_ids_valid[OF this] show ?thesis by simp
qed


lemma two_types_valid: "config_validate percent_ops two_types = Inr ()"
  by (simp add: config_validate_def two_types_def sample_config_def router_config_validate_def percent_ops_def sample_router_def
      router_id_matches_def router_id_char_def validate_model_mappings_def validate_mapping_models_exist_def
      mapping_models_exist_def validate_router_mappings_def balance_providers_def index_map_def can_map_model_def any_offered_def)

lemma default_telemetry_init:
  "\<exists>providers G'. init_telemetry sample_telemetry telemetry_config_default fresh_globals = (Inr providers, G')"
  by (simp add: init_telemetry_def init_stdout_def sample_telemetry_def fresh_globals_def hbind_def hlift_def hmodify_def
      try_init_def env_filter_def tracer_provider_def telemetry_config_default_def)

text \<open>A run in which the gateway ends with an error.\<close>

lemma crashed_run:
  "\<exists>ended. run_app sample_start (Inr ()) (Inr ()) two_types ended (Inr ()) \<and> (GS_Gateway, Inl (RE_Internal Internal)) \<in> set ended"
proof -
  obtain m S where s: "app_new sample_start two_types = Inr (m, S)" using two_types_start by blast
  let ?start = "supervisor_new (registered_services two_types)"
  have P0: "run_app_start sample_start (Inr ()) (Inr ()) two_types = Inr ?start" by (simp add: run_app_start_def s)
  let ?crash = "service_ended GS_Gateway (Work (Inl (RE_Internal Internal))) ?start"
  have step: "sp_step\<^sup>*\<^sup>* ?start ?crash"
    by (rule r_into_rtranclp, rule sp_work) (simp add: supervisor_new_def registered_services_def)
  have e: "sp_ended ?crash = [(GS_Gateway, Inl (RE_Internal Internal))]" by (simp add: supervisor_new_def)
  have "sp_ended ?crash \<noteq> []" by (simp add: e)
  from end_stops_all[OF step this] obtain P' where
    P': "sp_step\<^sup>*\<^sup>* ?crash P'" "run_app_result P' = Some (Inr ())" "set (sp_ended ?crash) \<subseteq> set (sp_ended P')" by blast
  have "run_app sample_start (Inr ()) (Inr ()) two_types (sp_ended P') (map_err Failed (Inr ()))"
    by (rule run_app_ends[OF P0 rtranclp_trans[OF step P'(1)] P'(2)])
  then show ?thesis using P'(3) unfolding e by auto
qed


text \<open>The counters with the requests that are being served and those that never get a response: their inner service
  fails, or their future is dropped when the caller goes away or a panic unwinds it.\<close>

record counted =
  cn_metrics :: metrics
  cn_serving :: nat
  cn_lost :: nat

inductive count_step :: "counted \<Rightarrow> counted \<Rightarrow> bool" where
  count_call: "count_step C (C\<lparr>cn_metrics := count_request (cn_metrics C), cn_serving := Suc (cn_serving C)\<rparr>)"
| count_answer: "0 < cn_serving C \<Longrightarrow> count_response (Ready (Inr br) :: (string, unit \<times> response_extensions) result poll) (cn_metrics C) = (p, M) \<Longrightarrow>
    count_step C (C\<lparr>cn_metrics := M, cn_serving := cn_serving C - 1\<rparr>)"
| count_error: "0 < cn_serving C \<Longrightarrow> count_response (Ready (Inl er) :: (string, unit \<times> response_extensions) result poll) (cn_metrics C) = (p, M) \<Longrightarrow>
    count_step C (C\<lparr>cn_metrics := M, cn_serving := cn_serving C - 1, cn_lost := Suc (cn_lost C)\<rparr>)"
| count_drop: "0 < cn_serving C \<Longrightarrow> count_step C (C\<lparr>cn_serving := cn_serving C - 1, cn_lost := Suc (cn_lost C)\<rparr>)"
| count_evict: "count_step C (C\<lparr>cn_metrics := eviction_listener cause (cn_metrics C)\<rparr>)"

text \<open>Every request that has been counted is being served, has a counted response, whatever its status, or is lost.\<close>

theorem requests_accounted:
  assumes "count_step\<^sup>*\<^sup>* \<lparr>cn_metrics = metrics_new, cn_serving = 0, cn_lost = 0\<rparr> C"
  shows "mt_request_count (cn_metrics C) = cn_serving C + length (mt_response_count (cn_metrics C)) + cn_lost C"
  using assms
proof (induction rule: rtranclp_induct)
  case (step C C')
  from step.hyps(2) step.IH show ?case
    by (cases rule: count_step.cases) (auto simp: count_request_def eviction_listener_def)
qed (simp add: metrics_new_def)

theorem requests_accounted_witness:
  "\<exists>C. count_step\<^sup>*\<^sup>* \<lparr>cn_metrics = metrics_new, cn_serving = 0, cn_lost = 0\<rparr> C \<and>
     mt_request_count (cn_metrics C) = 1 \<and> 1 = cn_serving C + length (mt_response_count (cn_metrics C)) + cn_lost C"
proof -
  let ?C = "\<lparr>cn_metrics = count_request metrics_new, cn_serving = 1, cn_lost = 0\<rparr>"
  have s: "count_step\<^sup>*\<^sup>* \<lparr>cn_metrics = metrics_new, cn_serving = 0, cn_lost = 0\<rparr> ?C"
    using count_call[of "\<lparr>cn_metrics = metrics_new, cn_serving = 0, cn_lost = 0\<rparr>"] by (simp add: r_into_rtranclp)
  have "mt_request_count (cn_metrics ?C) = 1" by (simp add: count_request_def metrics_new_def)
  with requests_accounted[OF s] s show ?thesis by metis
qed

end
