(* ===== verification/Spec2Isabelle.thy ===== *)
theory Spec2Isabelle
  imports Gateway_Prelude F64 Providers Errors Model_Id Endpoints Helicone_Config Config Router
    Rolling_Counter Weighted_Balance Discovery Health_Monitor Rate_Limit_Monitor
    Http Cache Rate_Limiter Dispatcher Control_Plane Layers Mapper_Service
    Chat_Types Anthropic_Mapper Bedrock_Mapper OpenAI_Mapper Provider_Mapper Logger Exchange Startup Services Telemetry Settings
begin

text \<open>
  A model of the Helicone AI gateway (\<open>src/ai-gateway\<close>, \<open>src/crates/weighted-balance\<close> and \<open>src/crates/telemetry\<close>): an HTTP proxy that
  takes OpenAI chat requests, picks a provider and a model, converts the bodies and streams the answer
  back. The model is written as functions of the state and the inputs. A panic is the error \<open>Panicked\<close>;
  every other error is a constructor of the error enums in Errors.thy.

  \<^bold>\<open>A request on its way.\<close> The layers of \<open>app.rs\<close> (Layers.thy: panics, health check, timer, error handler,
  authentication, global rate limit) call the meta router (Router.thy), which sends it to a router, to
  the unified API or to a direct proxy. A router calls a balancer (Weighted_Balance.thy) over the
  services that Discovery.thy yields; the monitors (Health_Monitor.thy, Rate_Limit_Monitor.thy) take
  providers out of that set and put them back, from the counters of Rolling_Counter.thy and the signals
  of the dispatcher. The chosen service is cache (Cache.thy), rate limit (Rate_Limiter.thy), mapper
  (Mapper_Service.thy with the converters of Provider_Mapper.thy) and dispatcher (Dispatcher.thy),
  which calls the provider. Control_Plane.thy keeps the keys that the authentication checks against.
  Logger.thy sends the bodies of a finished exchange to storage and its record to the control plane.

  \<^bold>\<open>Theories and sources\<close> (paths under \<open>src/ai-gateway/src\<close> unless they start with \<open>crates\<close>).
  \<^item> Gateway_Prelude: results (\<open>rbind\<close>, \<open>map_err\<close>, \<open>try_each\<close>), strings as bytes (\<open>rfind\<close>, \<open>splitn2\<close>),
    durations. F64: binary64 arithmetic on exact rationals.
  \<^item> Providers (\<open>types/provider.rs\<close>, \<open>types/router.rs\<close>), Errors (\<open>error/\<close>), Model_Id (\<open>types/model_id.rs\<close>),
    Endpoints (\<open>endpoints/\<close>, \<open>middleware/mapper/registry.rs\<close>), Helicone_Config (\<open>config/helicone.rs\<close>),
    Config (\<open>config/\<close>, \<open>middleware/mapper/model.rs\<close>).
  \<^item> Router (\<open>router/\<close>), Rolling_Counter (\<open>metrics/rolling_counter.rs\<close>, \<open>discover/monitor/metrics.rs\<close>),
    Weighted_Balance (\<open>crates/weighted-balance\<close>), Discovery (\<open>discover/provider\<close>, \<open>discover/weighted\<close>),
    Health_Monitor and Rate_Limit_Monitor (\<open>discover/monitor\<close>).
  \<^item> Http (header maps, requests and responses, handlers), Cache (\<open>middleware/cache\<close>, \<open>cache.rs\<close>), Rate_Limiter
    (\<open>middleware/rate_limit\<close>), Dispatcher (\<open>dispatcher/\<close>), Control_Plane (\<open>control_plane/\<close>, \<open>middleware/auth.rs\<close>),
    Layers (\<open>app.rs\<close>, \<open>utils/\<close>, \<open>middleware/request_context\<close>, \<open>middleware/response_headers.rs\<close>).
  \<^item> Mapper_Service (\<open>middleware/mapper/service.rs\<close>, \<open>mod.rs\<close>), Chat_Types (the bodies of the endpoints),
    Anthropic_Mapper, Bedrock_Mapper, OpenAI_Mapper (\<open>middleware/mapper/anthropic.rs\<close>, \<open>bedrock.rs\<close>,
    \<open>openai.rs\<close>), Provider_Mapper (the converters of the registry put together).
  \<^item> Logger (\<open>logger/\<close>, \<open>types/body.rs\<close>, \<open>types/logger.rs\<close>): the reader of a delivered body, the upload, the record.
    Startup (\<open>app_state.rs\<close>, \<open>app.rs\<close>, \<open>balancer/provider.rs\<close>, \<open>discover/\<close>, \<open>router/direct.rs\<close> and the constructors
    of \<open>router/\<close> and \<open>dispatcher/\<close>): how the gateway is put together.
  \<^item> Services (\<open>run_app\<close> of \<open>main.rs\<close>, \<open>utils/meltdown.rs\<close>, \<open>db_listener.rs\<close> and the \<open>run\<close> of every service): the
    services, how the end of one ends the others, and the loops of the monitors on what Startup builds.
    Telemetry (\<open>main.rs\<close>, \<open>crates/telemetry\<close>, \<open>metrics/\<close>): the process with its exit status, the initialisation of
    the telemetry, trace ids, and the counters of the requests.
    Exchange: mapper, dispatcher and the logging tasks that a dispatch spawns as one handler; it refines the
    dispatcher of Dispatcher.thy, and what a task uploads is what was answered.
    Settings (\<open>config/server.rs\<close>, \<open>config/minio.rs\<close>, \<open>config/database.rs\<close>): the remaining sections and their reading.
  A struct is a record, an enum a datatype, with the names of the source; the methods of an object are
  functions that take the object first and return it updated where they change it. Asynchronous code is
  modelled at its await points: a step relation where other tasks can run in between
  (\<open>rl_step\<close>, \<open>incr_step\<close>), a function where nothing shared is touched.

  \<^bold>\<open>What is shown.\<close> Config: a validated configuration lets every model of a router be mapped to every
  provider of it. Router: the URL matcher finds what the regular expression describes, a chat request
  reaches the balancer of its router, the unified API answers with the first error of its stages.
  Weighted_Balance: the loop of \<open>poll_ready\<close> ends, and a call after it does not panic; weights survive the
  conversion to doubles. Monitors: which keys a balancer has after any sequence of events, checks and
  restores, and when a limited provider is back. Rolling_Counter: totals of a lap and the bounds of the
  buckets. Cache, Rate_Limiter: what is stored and served, what is admitted and when. Dispatcher: what is
  counted and signalled, which credentials reach a provider. Control_Plane: who is authenticated after
  any sequence of messages. Converters: which messages, texts, tools and errors survive a conversion, a
  round trip and a whole stream. The properties state what the code does; where that is not what a
  comment or a test says, the manifest has a finding for it.

  \<^bold>\<open>Interfaces.\<close> A locale states what one component relies on in another: printing and parsing
  (\<open>text_codec\<close>: numbers, providers, Ollama models), errors with a status and a body
  (\<open>error_renderer\<close>: all error enums), the fields of a section (\<open>field_reader\<close>),
  the scalars that a section prints and reads (\<open>setting_codec\<close>), the clock of the
  counters (\<open>lap_clock\<close>), a monitor that takes members out of a balancer and puts them back
  (\<open>removal_monitor\<close>: both monitors of both balancers), a converter of bodies (\<open>body_converter\<close>) and one
  that keeps the text of a stream (\<open>text_converter\<close>). Each is interpreted on the definitions of the model, and the properties use
  the facts of the interpretations.

  \<^bold>\<open>Bounds, fuel and termination.\<close> Counters, lap numbers and token counts are words of the width of the
  source, arithmetic of the Redis limiter is clamped where the source saturates, doubles are rounded.
  \<open>ready_loop\<close> takes fuel, and \<open>wb_poll_ready_terminates\<close> shows that one more step than there are ready
  services is enough; \<open>unified_poll\<close> is a total function with a measure on its states; the reconnects of
  the control plane follow a finite list of connections. Everything else is structural recursion.

  \<^bold>\<open>Parameters and their laws.\<close> Code that is not in the repository is an argument: chrono dates (\<open>chrono_law\<close>),
  decimals, JSON and its merge (\<open>merge_law\<close>, \<open>settings_env_law\<close>), the derived readers and writers, http-cache-semantics, the hashers, Redis
  (\<open>redis_law\<close>, \<open>backend_law\<close>), tower's ready cache (\<open>ready_cache_law\<close>), the weighted sampling of rand
  (\<open>sampler_law\<close>), SHA-256 and UUIDs, the websocket, the HTTP client, base64 and media type detection, the
  builders of the AWS SDK (\<open>sdk_law\<close>). A law states what the documentation of the library promises, and the
  witnesses instantiate it.

  \<^bold>\<open>Not modelled.\<close> Sockets, TLS, compression, the exporters of OpenTelemetry, the parser of the command line,
  sqlx and the delivery of signals are calls of libraries; the in-memory limiter is tower_governor, the in-memory cache
  moka and the latency balancer tower's p2c. The mock server, the test scripts and the benchmarks are not part
  of the gateway.
\<close>

section \<open>Lemmas\<close>

lemma apply_changes_mono: "(k \<in> M \<Longrightarrow> k \<in> N) \<Longrightarrow> k \<in> apply_changes M cs \<Longrightarrow> k \<in> apply_changes N cs"
proof (induction cs arbitrary: M N)
  case (Cons c cs)
  show ?case unfolding foldl_Cons
  proof (rule Cons.IH)
    show "k \<in> apply_changes (apply_change M c) cs" using Cons.prems(2) by simp
    show "k \<in> apply_change N c" if "k \<in> apply_change M c" using that Cons.prems(1) by (cases c) auto
  qed
qed auto

section \<open>Properties that span components\<close>

text \<open>C35. The two monitors of a balancer do not know of each other: when a provider that both hold out
  is healthy again, the health monitor puts it back while the rate limit still runs.\<close>

theorem health_monitor_overrides_rate_limit:
  assumes "rl_reaches create_key_p2c sl mk (t0, rl_monitor_init) (t, rl)" "k \<in> rm_limited rl"
    and "check_p2c_monitor mk health bc hm = Inr hm'" "hm_unhealthy hm \<subseteq> p2c_keys bc"
    and "k \<in> hm_unhealthy hm" "health (k_provider k) = Inr True" "hm_sent hm' = hm_sent hm @ cs"
  shows "k \<in> apply_changes (apply_changes (p2c_keys bc - hm_unhealthy hm) (rm_sent rl)) cs \<and>
    (\<exists>r \<in> set (rm_pending rl). rs_key r = k)"
proof -
  have "p2c_health_step mk bc hm cs hm'" using assms(3,7) by (auto simp: p2c_health_step_def)
  from p2c_health.sends[OF this assms(4)]
  have "apply_changes (p2c_keys bc - hm_unhealthy hm) cs = p2c_keys bc - hm_unhealthy hm'" by simp
  moreover have "k \<notin> hm_unhealthy hm'"
    using p2c_check_unhealthy[OF assms(3,4)] assms(4-6) by (auto simp: health_value_def)
  ultimately have "k \<in> apply_changes (p2c_keys bc - hm_unhealthy hm) cs" using assms(4,5) by auto
  then have "k \<in> apply_changes N cs" for N using assms(5) by (rule_tac apply_changes_mono) auto
  moreover have "rl_inv rl" using rl_reaches_inv[OF assms(1)] rl_inv_init by simp
  then have "k \<in> rs_key ` set (rm_pending rl)" using assms(2) by (simp add: rl_inv_def)
  then have "\<exists>r \<in> set (rm_pending rl). rs_key r = k" by fastforce
  ultimately show ?thesis by blast
qed

definition openai_key :: key where
  "openai_key = \<lparr>k_provider = P_OpenAI, k_endpoint_type = ET_Chat\<rparr>"

definition limited_openai :: "(key, unit) rl_monitor" where
  "limited_openai = hold_out (secs 35) (EP_OpenAI OpenAI_ChatCompletions) openai_key rl_monitor_init"

lemma limited_openai_reached:
  "rl_reaches create_key_p2c (+) (\<lambda>p. Inr ()) (0, rl_monitor_init) (0, limited_openai)"
proof (rule r_into_rtranclp, rule rl_event)
  show "handle_event create_key_p2c (+) 0 sample_event rl_monitor_init = Inr limited_openai"
    by (simp add: handle_event_def create_key_p2c_def sample_event_def restore_duration_def
        RATE_LIMIT_BUFFER_SECONDS_def limited_openai_def openai_key_def)
qed

theorem health_monitor_overrides_rate_limit_witness:
  "\<exists>cs :: (key, unit) change list. openai_key \<in> apply_changes (apply_changes (p2c_keys sample_latency - {openai_key}) (rm_sent limited_openai)) cs \<and>
     openai_key \<in> rm_limited limited_openai"
proof -
  let ?hm = "\<lparr>hm_unhealthy = {openai_key}, hm_sent = []\<rparr> :: (key, unit) health_monitor"
  obtain hm' :: "(key, unit) health_monitor" where
    hm': "check_p2c_monitor (\<lambda>p. Inr ()) (\<lambda>p. Inr True) sample_latency ?hm = Inr hm'"
    by (simp add: sample_latency_def check_key_def openai_key_def)
  have lim: "openai_key \<in> rm_limited limited_openai" by (simp add: limited_openai_def)
  have known: "hm_unhealthy ?hm \<subseteq> p2c_keys sample_latency"
    by (simp add: p2c_keys_def sample_latency_def openai_key_def)
  have "openai_key \<in> apply_changes (apply_changes (p2c_keys sample_latency - {openai_key}) (rm_sent limited_openai))
      (hm_sent hm')"
    using health_monitor_overrides_rate_limit[OF limited_openai_reached lim hm' known, of "hm_sent hm'"] by simp
  then show ?thesis using lim by blast
qed

end
